theory Spec2Isabelle
  imports Main
begin

section \<open>Values, failures and checked arithmetic\<close>

text \<open>
  The contracts are Solidity \<open>^0.8.20\<close>. An \<open>address\<close> and a \<open>uint256\<close> are natural
  numbers; \<open>address(0)\<close> is \<open>0\<close>. Arithmetic on \<open>uint256\<close> is checked: an operation
  whose result leaves \<open>0 .. 2^256 - 1\<close> reverts with \<open>Panic(0x11)\<close>, a division by zero
  with \<open>Panic(0x12)\<close>. Every guard is written out where the source computes.

  A call either returns or reverts. A revert is the value \<open>Inl e\<close>; it carries no state,
  because the EVM discards every write of a reverted call. A \<open>require\<close> with a message
  is \<open>Revert\<close> of that message, letter for letter; the custom errors of the inherited
  library contracts are constructors of their own.
\<close>

type_synonym address = nat
type_synonym uint256 = nat

datatype error =
    Revert string
  | Panic nat
  | EnforcedPause
  | ExpectedPause
  | OwnableUnauthorizedAccount
  | OwnableInvalidOwner
  | ERC20InsufficientBalance
  | ERC20InsufficientAllowance
  | ERC20InvalidSender
  | ERC20InvalidReceiver

definition MAX_UINT256 :: nat where
  "MAX_UINT256 = 2 ^ 256 - 1"

definition MAX_UINT112 :: nat where
  "MAX_UINT112 = 2 ^ 112 - 1"

text \<open>\<open>Panic(0x11)\<close>: arithmetic overflow or underflow; \<open>Panic(0x12)\<close>: division by zero.\<close>

definition OVERFLOW :: error where
  "OVERFLOW = Panic 17"

definition DIV_BY_ZERO :: error where
  "DIV_BY_ZERO = Panic 18"

text \<open>Solidity's time units, in seconds.\<close>

definition seconds :: "nat \<Rightarrow> nat" where
  "seconds n = n"

definition minutes :: "nat \<Rightarrow> nat" where
  "minutes n = n * 60"

definition hours :: "nat \<Rightarrow> nat" where
  "hours n = n * 3600"

definition days :: "nat \<Rightarrow> nat" where
  "days n = n * 86400"

text \<open>What a call sees of its transaction: \<open>msg.sender\<close> and \<open>block.timestamp\<close>.\<close>

record Call =
  msg_sender :: address
  block_timestamp :: uint256

text \<open>
  A transaction commits the state its call returns, and leaves the state as it was when
  the call reverts.
\<close>

definition commit :: "('s \<Rightarrow> error + 's) \<Rightarrow> 's \<Rightarrow> 's" where
  "commit f s = (case f s of Inl e \<Rightarrow> s | Inr s' \<Rightarrow> s')"

section \<open>The ledger\<close>

text \<open>
  Modelled from the spec: the Ledger of sections 2 and 6, which the contracts reach through
  OpenZeppelin's \<open>IERC20\<close>, \<open>SafeERC20\<close> and \<open>ERC20\<close> (library code, not under src/).
  It holds, for each token contract, the balance of each account, the allowance each
  owner gave each spender, and the total supply. A transfer fails when the balance is
  short, a pull by a spender when the allowance is short (an allowance of
  \<open>2^256 - 1\<close> is unlimited and is not spent), and nothing is sent to or from
  \<open>address(0)\<close>. The token contracts call nobody back.
\<close>

record Ledger =
  balanceOf :: "address \<Rightarrow> address \<Rightarrow> uint256"
  allowance :: "address \<Rightarrow> address \<Rightarrow> address \<Rightarrow> uint256"
  totalSupply :: "address \<Rightarrow> uint256"

definition ERC20_transfer :: "address \<Rightarrow> address \<Rightarrow> address \<Rightarrow> uint256 \<Rightarrow> Ledger \<Rightarrow> error + Ledger" where
  "ERC20_transfer token from to amt l =
     (if from = 0 then Inl ERC20InvalidSender
      else if to = 0 then Inl ERC20InvalidReceiver
      else if balanceOf l token from < amt then Inl ERC20InsufficientBalance
      else let b = balanceOf l token;
               b1 = b(from := b from - amt);
               b2 = b1(to := b1 to + amt)
           in Inr (l\<lparr>balanceOf := (balanceOf l)(token := b2)\<rparr>))"

definition ERC20_transferFrom :: "address \<Rightarrow> address \<Rightarrow> address \<Rightarrow> address \<Rightarrow> uint256 \<Rightarrow> Ledger \<Rightarrow> error + Ledger" where
  "ERC20_transferFrom token spender from to amt l =
     (let currentAllowance = allowance l token from spender in
      if currentAllowance \<noteq> MAX_UINT256 \<and> currentAllowance < amt then Inl ERC20InsufficientAllowance
      else ERC20_transfer token from to amt
             (if currentAllowance \<noteq> MAX_UINT256
              then l\<lparr>allowance := (allowance l)(token := (allowance l token)
                        (from := (allowance l token from)(spender := currentAllowance - amt)))\<rparr>
              else l))"

definition ERC20_mint :: "address \<Rightarrow> address \<Rightarrow> uint256 \<Rightarrow> Ledger \<Rightarrow> error + Ledger" where
  "ERC20_mint token account amt l =
     (if account = 0 then Inl ERC20InvalidReceiver
      else if totalSupply l token + amt > MAX_UINT256 then Inl OVERFLOW
      else Inr (l\<lparr>totalSupply := (totalSupply l)(token := totalSupply l token + amt),
                  balanceOf := (balanceOf l)(token := (balanceOf l token)
                        (account := balanceOf l token account + amt))\<rparr>))"

definition ERC20_burn :: "address \<Rightarrow> address \<Rightarrow> uint256 \<Rightarrow> Ledger \<Rightarrow> error + Ledger" where
  "ERC20_burn token account amt l =
     (if account = 0 then Inl ERC20InvalidSender
      else if balanceOf l token account < amt then Inl ERC20InsufficientBalance
      else Inr (l\<lparr>totalSupply := (totalSupply l)(token := totalSupply l token - amt),
                  balanceOf := (balanceOf l)(token := (balanceOf l token)
                        (account := balanceOf l token account - amt))\<rparr>))"

text \<open>
  \<open>SafeERC20\<close>, called by the contract at \<open>this\<close>: \<open>safeTransfer\<close> sends the contract's
  own tokens, \<open>safeTransferFrom\<close> pulls with the contract as the spender. Both revert
  when the token does.
\<close>

definition safeTransfer :: "address \<Rightarrow> address \<Rightarrow> address \<Rightarrow> uint256 \<Rightarrow> Ledger \<Rightarrow> error + Ledger" where
  "safeTransfer token this to amt l = ERC20_transfer token this to amt l"

definition safeTransferFrom :: "address \<Rightarrow> address \<Rightarrow> address \<Rightarrow> address \<Rightarrow> uint256 \<Rightarrow> Ledger \<Rightarrow> error + Ledger" where
  "safeTransferFrom token this from to amt l = ERC20_transferFrom token this from to amt l"

section \<open>Escrow and EscrowWithExpiry: storage\<close>

text \<open>
  \<open>struct Offer\<close> of \<open>Escrow.sol\<close> (lines 23-32), and of \<open>EscrowWithExpiry.sol\<close>
  (lines 28-38), which adds \<open>expiresAt\<close>. The field \<open>id\<close> is \<open>offerId\<close> here. The
  status of an offer is the one flag \<open>active\<close>: settled, cancelled and expired offers
  are all \<open>active = false\<close>.
\<close>

record Offer =
  offerId :: uint256
  seller :: address
  buyer :: address
  tokenAddress :: address
  amount :: uint256
  priceInBUSD :: uint256
  active :: bool
  createdAt :: uint256

record OfferWithExpiry = Offer +
  expiresAt :: uint256

text \<open>
  The storage both contracts declare: \<open>_offerIdCounter\<close>, \<open>_offers\<close>,
  \<open>_lastOfferTime\<close>, \<open>_dailyOfferCount\<close>, \<open>Pausable\<close>'s flag and \<open>Ownable\<close>'s owner.
  A Solidity mapping has a value at every key, zero where nothing was written.
  \<open>this_address\<close> is \<open>address(this)\<close>; \<open>ledger\<close> is the state of the token contracts.

  \<open>ReentrancyGuard\<close>'s flag is left out: it is clear whenever a transaction starts, and
  the ledger calls nobody back, so \<open>nonReentrant\<close> never reverts here. The \<open>emit\<close>
  statements write no state and are left out too.
\<close>

record 'o EscrowStorage =
  offerIdCounter :: uint256
  offers :: "uint256 \<Rightarrow> 'o"
  lastOfferTime :: "address \<Rightarrow> uint256"
  dailyOfferCount :: "address \<Rightarrow> uint256"
  paused :: bool
  owner :: address
  this_address :: address
  ledger :: Ledger

record Escrow = "Offer EscrowStorage" +
  platformFeePercent :: uint256
  feeCollector :: address

record EscrowWithExpiry = "OfferWithExpiry EscrowStorage" +
  offerExpiryTime :: uint256

definition MAX_OFFERS_PER_DAY :: uint256 where
  "MAX_OFFERS_PER_DAY = 50"

definition OFFER_COOLDOWN :: uint256 where
  "OFFER_COOLDOWN = seconds 10"

definition DEFAULT_EXPIRY_TIME :: uint256 where
  "DEFAULT_EXPIRY_TIME = minutes 15"

text \<open>The value of a mapping slot that was never written.\<close>

definition zero_Offer :: Offer where
  "zero_Offer = \<lparr>offerId = 0, seller = 0, buyer = 0, tokenAddress = 0, amount = 0,
                  priceInBUSD = 0, active = False, createdAt = 0\<rparr>"

definition zero_OfferWithExpiry :: OfferWithExpiry where
  "zero_OfferWithExpiry = \<lparr>offerId = 0, seller = 0, buyer = 0, tokenAddress = 0, amount = 0,
                  priceInBUSD = 0, active = False, createdAt = 0, expiresAt = 0\<rparr>"

section \<open>What both escrow contracts share\<close>

text \<open>
  \<open>Ownable\<close> and \<open>Pausable\<close> (OpenZeppelin 5, not under src/), as far as the contracts
  use them: \<open>onlyOwner\<close> reverts for any caller but the owner; \<open>_pause\<close> requires the
  contract not paused and \<open>_unpause\<close> requires it paused. \<open>pause\<close>, \<open>unpause\<close>,
  \<open>getOffer\<close>, \<open>getOfferCount\<close> and \<open>getRemainingOffers\<close> read the same in
  \<open>Escrow.sol\<close> (lines 194-219, 264-270) and \<open>EscrowWithExpiry.sol\<close>
  (lines 225-259, 278-284).
\<close>

definition pause :: "Call \<Rightarrow> ('o, 'z) EscrowStorage_scheme \<Rightarrow> error + ('o, 'z) EscrowStorage_scheme" where
  "pause c s =
     (if msg_sender c \<noteq> owner s then Inl OwnableUnauthorizedAccount
      else if paused s then Inl EnforcedPause
      else Inr (s\<lparr>paused := True\<rparr>))"

definition unpause :: "Call \<Rightarrow> ('o, 'z) EscrowStorage_scheme \<Rightarrow> error + ('o, 'z) EscrowStorage_scheme" where
  "unpause c s =
     (if msg_sender c \<noteq> owner s then Inl OwnableUnauthorizedAccount
      else if \<not> paused s then Inl ExpectedPause
      else Inr (s\<lparr>paused := False\<rparr>))"

definition transferOwnership :: "Call \<Rightarrow> address \<Rightarrow> ('o, 'z) EscrowStorage_scheme \<Rightarrow> error + ('o, 'z) EscrowStorage_scheme" where
  "transferOwnership c newOwner s =
     (if msg_sender c \<noteq> owner s then Inl OwnableUnauthorizedAccount
      else if newOwner = 0 then Inl OwnableInvalidOwner
      else Inr (s\<lparr>owner := newOwner\<rparr>))"

definition renounceOwnership :: "Call \<Rightarrow> ('o, 'z) EscrowStorage_scheme \<Rightarrow> error + ('o, 'z) EscrowStorage_scheme" where
  "renounceOwnership c s =
     (if msg_sender c \<noteq> owner s then Inl OwnableUnauthorizedAccount
      else Inr (s\<lparr>owner := 0\<rparr>))"

definition getOffer :: "uint256 \<Rightarrow> ('o, 'z) EscrowStorage_scheme \<Rightarrow> 'o" where
  "getOffer i s = offers s i"

definition getOfferCount :: "('o, 'z) EscrowStorage_scheme \<Rightarrow> uint256" where
  "getOfferCount s = offerIdCounter s"

definition getRemainingOffers :: "Call \<Rightarrow> address \<Rightarrow> ('o, 'z) EscrowStorage_scheme \<Rightarrow> error + uint256" where
  "getRemainingOffers c user s =
     (if lastOfferTime s user + days 1 > MAX_UINT256 then Inl OVERFLOW
      else if block_timestamp c \<ge> lastOfferTime s user + days 1 then Inr MAX_OFFERS_PER_DAY
      else let used = dailyOfferCount s user in
        Inr (if used \<ge> MAX_OFFERS_PER_DAY then 0 else MAX_OFFERS_PER_DAY - used))"

section \<open>Escrow.sol\<close>

text \<open>The constructor (lines 82-84): the deployer owns the contract and collects the fees.\<close>

definition Escrow_constructor :: "address \<Rightarrow> address \<Rightarrow> Ledger \<Rightarrow> Escrow" where
  "Escrow_constructor deployer this l =
     \<lparr>offerIdCounter = 0, offers = (\<lambda>i. zero_Offer), lastOfferTime = (\<lambda>a. 0),
      dailyOfferCount = (\<lambda>a. 0), paused = False, owner = deployer, this_address = this,
      ledger = l, platformFeePercent = 0, feeCollector = deployer\<rparr>"

text \<open>
  \<open>createOffer\<close> (lines 94-144). The modifier \<open>whenNotPaused\<close> runs before the body.
  \<open>count\<close> is \<open>_dailyOfferCount[msg.sender]\<close> after the conditional reset of line
  113-115.
\<close>

definition Escrow_createOffer :: "Call \<Rightarrow> address \<Rightarrow> uint256 \<Rightarrow> uint256 \<Rightarrow> address \<Rightarrow> Escrow \<Rightarrow> error + (uint256 \<times> Escrow)" where
  "Escrow_createOffer c token amt price designated s =
     (if paused s then Inl EnforcedPause
      else if \<not> token \<noteq> 0 then Inl (Revert ''Escrow: invalid token address'')
      else if \<not> amt > 0 then Inl (Revert ''Escrow: amount must be greater than 0'')
      else if \<not> price > 0 then Inl (Revert ''Escrow: price must be greater than 0'')
      else if \<not> designated \<noteq> 0 then Inl (Revert ''Escrow: invalid buyer address'')
      else if \<not> designated \<noteq> msg_sender c then Inl (Revert ''Escrow: buyer cannot be seller'')
      else if lastOfferTime s (msg_sender c) + OFFER_COOLDOWN > MAX_UINT256 then Inl OVERFLOW
      else if \<not> block_timestamp c \<ge> lastOfferTime s (msg_sender c) + OFFER_COOLDOWN
        then Inl (Revert ''Escrow: cooldown period active'')
      else if lastOfferTime s (msg_sender c) + days 1 > MAX_UINT256 then Inl OVERFLOW
      else let count = (if block_timestamp c \<ge> lastOfferTime s (msg_sender c) + days 1
                        then 0 else dailyOfferCount s (msg_sender c)) in
        if \<not> count < MAX_OFFERS_PER_DAY then Inl (Revert ''Escrow: daily offer limit reached'')
        else if count + 1 > MAX_UINT256 then Inl OVERFLOW
        else case safeTransferFrom token (this_address s) (msg_sender c) (this_address s) amt (ledger s) of
          Inl e \<Rightarrow> Inl e
        | Inr l \<Rightarrow>
            if offerIdCounter s + 1 > MAX_UINT256 then Inl OVERFLOW
            else let i = offerIdCounter s in
              Inr (i, s\<lparr>offerIdCounter := offerIdCounter s + 1,
                        offers := (offers s)(i :=
                          \<lparr>offerId = i, seller = msg_sender c, buyer = designated,
                           tokenAddress = token, amount = amt, priceInBUSD = price,
                           active = True, createdAt = block_timestamp c\<rparr>),
                        lastOfferTime := (lastOfferTime s)(msg_sender c := block_timestamp c),
                        dailyOfferCount := (dailyOfferCount s)(msg_sender c := count + 1),
                        ledger := l\<rparr>))"

text \<open>
  \<open>acceptOffer\<close> (lines 151-168): after the three checks, line 159 clears the flag, line 162
  pulls the price from the caller to the seller, line 165 sends the escrowed tokens to the
  caller. The three effects are three functions, composed in the source's order.
\<close>

definition markInactive :: "uint256 \<Rightarrow> ('a Offer_scheme, 'z) EscrowStorage_scheme \<Rightarrow> ('a Offer_scheme, 'z) EscrowStorage_scheme" where
  "markInactive i s = s\<lparr>offers := (offers s)(i := (offers s i)\<lparr>active := False\<rparr>)\<rparr>"

definition payQuote :: "Call \<Rightarrow> uint256 \<Rightarrow> address \<Rightarrow> ('a Offer_scheme, 'z) EscrowStorage_scheme \<Rightarrow> error + ('a Offer_scheme, 'z) EscrowStorage_scheme" where
  "payQuote c i busdAddress s =
     (case safeTransferFrom busdAddress (this_address s) (msg_sender c) (seller (offers s i))
             (priceInBUSD (offers s i)) (ledger s) of
        Inl e \<Rightarrow> Inl e
      | Inr l \<Rightarrow> Inr (s\<lparr>ledger := l\<rparr>))"

definition releaseTo :: "address \<Rightarrow> uint256 \<Rightarrow> ('a Offer_scheme, 'z) EscrowStorage_scheme \<Rightarrow> error + ('a Offer_scheme, 'z) EscrowStorage_scheme" where
  "releaseTo recipient i s =
     (case safeTransfer (tokenAddress (offers s i)) (this_address s) recipient
             (amount (offers s i)) (ledger s) of
        Inl e \<Rightarrow> Inl e
      | Inr l \<Rightarrow> Inr (s\<lparr>ledger := l\<rparr>))"

definition Escrow_acceptOffer :: "Call \<Rightarrow> uint256 \<Rightarrow> address \<Rightarrow> Escrow \<Rightarrow> error + Escrow" where
  "Escrow_acceptOffer c i busdAddress s =
     (if paused s then Inl EnforcedPause
      else if \<not> active (offers s i) then Inl (Revert ''Escrow: offer is not active'')
      else if \<not> msg_sender c = buyer (offers s i) then Inl (Revert ''Escrow: caller is not the designated buyer'')
      else if \<not> busdAddress \<noteq> 0 then Inl (Revert ''Escrow: invalid BUSD address'')
      else case payQuote c i busdAddress (markInactive i s) of
          Inl e \<Rightarrow> Inl e
        | Inr s2 \<Rightarrow> releaseTo (msg_sender c) i s2)"

text \<open>\<open>cancelOffer\<close> (lines 174-187).\<close>

definition Escrow_cancelOffer :: "Call \<Rightarrow> uint256 \<Rightarrow> Escrow \<Rightarrow> error + Escrow" where
  "Escrow_cancelOffer c i s =
     (if paused s then Inl EnforcedPause
      else if \<not> active (offers s i) then Inl (Revert ''Escrow: offer is not active'')
      else if \<not> msg_sender c = seller (offers s i) then Inl (Revert ''Escrow: caller is not the seller'')
      else releaseTo (msg_sender c) i (markInactive i s))"

text \<open>\<open>emergencyWithdraw\<close>, \<open>updateFee\<close>, \<open>updateFeeCollector\<close> (lines 228-257).\<close>

definition Escrow_emergencyWithdraw :: "Call \<Rightarrow> address \<Rightarrow> uint256 \<Rightarrow> address \<Rightarrow> Escrow \<Rightarrow> error + Escrow" where
  "Escrow_emergencyWithdraw c token amt to s =
     (if msg_sender c \<noteq> owner s then Inl OwnableUnauthorizedAccount
      else if \<not> to \<noteq> 0 then Inl (Revert ''Escrow: withdraw to zero address'')
      else if \<not> paused s then Inl (Revert ''Escrow: only when paused'')
      else case safeTransfer token (this_address s) to amt (ledger s) of
          Inl e \<Rightarrow> Inl e
        | Inr l \<Rightarrow> Inr (s\<lparr>ledger := l\<rparr>))"

definition Escrow_updateFee :: "Call \<Rightarrow> uint256 \<Rightarrow> Escrow \<Rightarrow> error + Escrow" where
  "Escrow_updateFee c newFeePercent s =
     (if msg_sender c \<noteq> owner s then Inl OwnableUnauthorizedAccount
      else if \<not> newFeePercent \<le> 500 then Inl (Revert ''Escrow: fee too high'')
      else Inr (s\<lparr>platformFeePercent := newFeePercent\<rparr>))"

definition Escrow_updateFeeCollector :: "Call \<Rightarrow> address \<Rightarrow> Escrow \<Rightarrow> error + Escrow" where
  "Escrow_updateFeeCollector c newCollector s =
     (if msg_sender c \<noteq> owner s then Inl OwnableUnauthorizedAccount
      else if \<not> newCollector \<noteq> 0 then Inl (Revert ''Escrow: invalid collector'')
      else Inr (s\<lparr>feeCollector := newCollector\<rparr>))"

text \<open>
  The transactions the contract accepts, and a history of them. \<open>E_tokens f\<close> is whatever
  other accounts do on the token contracts between two calls of the escrow (mints,
  approvals, transfers): any change \<open>f\<close> of the ledger. A transaction that reverts leaves
  the state as it was.
\<close>

datatype Escrow_tx =
    E_createOffer address uint256 uint256 address
  | E_acceptOffer uint256 address
  | E_cancelOffer uint256
  | E_pause
  | E_unpause
  | E_emergencyWithdraw address uint256 address
  | E_updateFee uint256
  | E_updateFeeCollector address
  | E_transferOwnership address
  | E_renounceOwnership
  | E_tokens "Ledger \<Rightarrow> Ledger"

fun Escrow_step :: "Call \<Rightarrow> Escrow_tx \<Rightarrow> Escrow \<Rightarrow> error + Escrow" where
  "Escrow_step c (E_createOffer token amt price designated) s =
     (case Escrow_createOffer c token amt price designated s of
        Inl e \<Rightarrow> Inl e | Inr (i, s') \<Rightarrow> Inr s')"
| "Escrow_step c (E_acceptOffer i busdAddress) s = Escrow_acceptOffer c i busdAddress s"
| "Escrow_step c (E_cancelOffer i) s = Escrow_cancelOffer c i s"
| "Escrow_step c E_pause s = pause c s"
| "Escrow_step c E_unpause s = unpause c s"
| "Escrow_step c (E_emergencyWithdraw token amt to) s = Escrow_emergencyWithdraw c token amt to s"
| "Escrow_step c (E_updateFee n) s = Escrow_updateFee c n s"
| "Escrow_step c (E_updateFeeCollector a) s = Escrow_updateFeeCollector c a s"
| "Escrow_step c (E_transferOwnership a) s = transferOwnership c a s"
| "Escrow_step c E_renounceOwnership s = renounceOwnership c s"
| "Escrow_step c (E_tokens f) s = Inr (s\<lparr>ledger := f (ledger s)\<rparr>)"

fun Escrow_run :: "(Call \<times> Escrow_tx) list \<Rightarrow> Escrow \<Rightarrow> Escrow" where
  "Escrow_run [] s = s"
| "Escrow_run ((c, t) # rest) s = Escrow_run rest (commit (Escrow_step c t) s)"

section \<open>EscrowWithExpiry.sol\<close>

text \<open>
  The constructor (line 84) and the initialiser of \<open>offerExpiryTime\<close> (line 45).
\<close>

definition EscrowWithExpiry_constructor :: "address \<Rightarrow> address \<Rightarrow> Ledger \<Rightarrow> EscrowWithExpiry" where
  "EscrowWithExpiry_constructor deployer this l =
     \<lparr>offerIdCounter = 0, offers = (\<lambda>i. zero_OfferWithExpiry), lastOfferTime = (\<lambda>a. 0),
      dailyOfferCount = (\<lambda>a. 0), paused = False, owner = deployer, this_address = this,
      ledger = l, offerExpiryTime = DEFAULT_EXPIRY_TIME\<rparr>"

text \<open>\<open>createOffer\<close> (lines 89-141).\<close>

definition EscrowWithExpiry_createOffer :: "Call \<Rightarrow> address \<Rightarrow> uint256 \<Rightarrow> uint256 \<Rightarrow> address \<Rightarrow> EscrowWithExpiry \<Rightarrow> error + (uint256 \<times> EscrowWithExpiry)" where
  "EscrowWithExpiry_createOffer c token amt price designated s =
     (if paused s then Inl EnforcedPause
      else if \<not> token \<noteq> 0 then Inl (Revert ''Invalid token address'')
      else if \<not> amt > 0 then Inl (Revert ''Amount must be > 0'')
      else if \<not> price > 0 then Inl (Revert ''Price must be > 0'')
      else if \<not> designated \<noteq> 0 then Inl (Revert ''Invalid buyer address'')
      else if \<not> designated \<noteq> msg_sender c then Inl (Revert ''Buyer cannot be seller'')
      else if lastOfferTime s (msg_sender c) + OFFER_COOLDOWN > MAX_UINT256 then Inl OVERFLOW
      else if \<not> block_timestamp c \<ge> lastOfferTime s (msg_sender c) + OFFER_COOLDOWN
        then Inl (Revert ''Cooldown period active'')
      else if lastOfferTime s (msg_sender c) + days 1 > MAX_UINT256 then Inl OVERFLOW
      else let count = (if block_timestamp c \<ge> lastOfferTime s (msg_sender c) + days 1
                        then 0 else dailyOfferCount s (msg_sender c)) in
        if \<not> count < MAX_OFFERS_PER_DAY then Inl (Revert ''Daily offer limit reached'')
        else if count + 1 > MAX_UINT256 then Inl OVERFLOW
        else case safeTransferFrom token (this_address s) (msg_sender c) (this_address s) amt (ledger s) of
          Inl e \<Rightarrow> Inl e
        | Inr l \<Rightarrow>
            if offerIdCounter s + 1 > MAX_UINT256 then Inl OVERFLOW
            else if block_timestamp c + offerExpiryTime s > MAX_UINT256 then Inl OVERFLOW
            else let i = offerIdCounter s;
                     expiry = block_timestamp c + offerExpiryTime s in
              Inr (i, s\<lparr>offerIdCounter := offerIdCounter s + 1,
                        offers := (offers s)(i :=
                          \<lparr>offerId = i, seller = msg_sender c, buyer = designated,
                           tokenAddress = token, amount = amt, priceInBUSD = price,
                           active = True, createdAt = block_timestamp c, expiresAt = expiry\<rparr>),
                        lastOfferTime := (lastOfferTime s)(msg_sender c := block_timestamp c),
                        dailyOfferCount := (dailyOfferCount s)(msg_sender c := count + 1),
                        ledger := l\<rparr>))"

text \<open>
  \<open>acceptOffer\<close> (lines 146-166): the checks of \<open>Escrow.sol\<close>, then the expiry check of
  line 154, then the same three effects (lines 157, 160, 163).
\<close>

definition EscrowWithExpiry_acceptOffer :: "Call \<Rightarrow> uint256 \<Rightarrow> address \<Rightarrow> EscrowWithExpiry \<Rightarrow> error + EscrowWithExpiry" where
  "EscrowWithExpiry_acceptOffer c i busdAddress s =
     (if paused s then Inl EnforcedPause
      else if \<not> active (offers s i) then Inl (Revert ''Offer is not active'')
      else if \<not> msg_sender c = buyer (offers s i) then Inl (Revert ''Not the designated buyer'')
      else if \<not> busdAddress \<noteq> 0 then Inl (Revert ''Invalid BUSD address'')
      else if \<not> block_timestamp c \<le> expiresAt (offers s i) then Inl (Revert ''Offer has expired'')
      else case payQuote c i busdAddress (markInactive i s) of
          Inl e \<Rightarrow> Inl e
        | Inr s2 \<Rightarrow> releaseTo (msg_sender c) i s2)"

text \<open>\<open>cancelOffer\<close> (lines 171-183).\<close>

definition EscrowWithExpiry_cancelOffer :: "Call \<Rightarrow> uint256 \<Rightarrow> EscrowWithExpiry \<Rightarrow> error + EscrowWithExpiry" where
  "EscrowWithExpiry_cancelOffer c i s =
     (if paused s then Inl EnforcedPause
      else if \<not> active (offers s i) then Inl (Revert ''Offer is not active'')
      else if \<not> msg_sender c = seller (offers s i) then Inl (Revert ''Not the seller'')
      else releaseTo (msg_sender c) i (markInactive i s))"

text \<open>\<open>reclaimExpired\<close> (lines 189-201): no \<open>whenNotPaused\<close>, and no check of the caller.\<close>

definition EscrowWithExpiry_reclaimExpired :: "Call \<Rightarrow> uint256 \<Rightarrow> EscrowWithExpiry \<Rightarrow> error + EscrowWithExpiry" where
  "EscrowWithExpiry_reclaimExpired c i s =
     (if \<not> active (offers s i) then Inl (Revert ''Offer is not active'')
      else if \<not> block_timestamp c > expiresAt (offers s i) then Inl (Revert ''Offer has not expired yet'')
      else releaseTo (seller (offers s i)) i (markInactive i s))"

text \<open>\<open>isExpired\<close> and \<open>getTimeRemaining\<close> (lines 206-220).\<close>

definition EscrowWithExpiry_isExpired :: "Call \<Rightarrow> uint256 \<Rightarrow> EscrowWithExpiry \<Rightarrow> bool" where
  "EscrowWithExpiry_isExpired c i s = (block_timestamp c > expiresAt (offers s i))"

definition EscrowWithExpiry_getTimeRemaining :: "Call \<Rightarrow> uint256 \<Rightarrow> EscrowWithExpiry \<Rightarrow> uint256" where
  "EscrowWithExpiry_getTimeRemaining c i s =
     (if block_timestamp c \<ge> expiresAt (offers s i) then 0
      else expiresAt (offers s i) - block_timestamp c)"

text \<open>\<open>updateExpiryTime\<close> (lines 240-245) and \<open>emergencyWithdraw\<close> (lines 264-273).\<close>

definition EscrowWithExpiry_updateExpiryTime :: "Call \<Rightarrow> uint256 \<Rightarrow> EscrowWithExpiry \<Rightarrow> error + EscrowWithExpiry" where
  "EscrowWithExpiry_updateExpiryTime c newExpiryTime s =
     (if msg_sender c \<noteq> owner s then Inl OwnableUnauthorizedAccount
      else if \<not> newExpiryTime \<ge> minutes 1 then Inl (Revert ''Expiry too short'')
      else if \<not> newExpiryTime \<le> hours 24 then Inl (Revert ''Expiry too long'')
      else Inr (s\<lparr>offerExpiryTime := newExpiryTime\<rparr>))"

definition EscrowWithExpiry_emergencyWithdraw :: "Call \<Rightarrow> address \<Rightarrow> uint256 \<Rightarrow> address \<Rightarrow> EscrowWithExpiry \<Rightarrow> error + EscrowWithExpiry" where
  "EscrowWithExpiry_emergencyWithdraw c token amt to s =
     (if msg_sender c \<noteq> owner s then Inl OwnableUnauthorizedAccount
      else if \<not> to \<noteq> 0 then Inl (Revert ''Invalid recipient'')
      else if \<not> paused s then Inl (Revert ''Only when paused'')
      else case safeTransfer token (this_address s) to amt (ledger s) of
          Inl e \<Rightarrow> Inl e
        | Inr l \<Rightarrow> Inr (s\<lparr>ledger := l\<rparr>))"

text \<open>The transactions of the contract and a history of them, as for \<open>Escrow.sol\<close>.\<close>

datatype EscrowWithExpiry_tx =
    X_createOffer address uint256 uint256 address
  | X_acceptOffer uint256 address
  | X_cancelOffer uint256
  | X_reclaimExpired uint256
  | X_updateExpiryTime uint256
  | X_pause
  | X_unpause
  | X_emergencyWithdraw address uint256 address
  | X_transferOwnership address
  | X_renounceOwnership
  | X_tokens "Ledger \<Rightarrow> Ledger"

fun EscrowWithExpiry_step :: "Call \<Rightarrow> EscrowWithExpiry_tx \<Rightarrow> EscrowWithExpiry \<Rightarrow> error + EscrowWithExpiry" where
  "EscrowWithExpiry_step c (X_createOffer token amt price designated) s =
     (case EscrowWithExpiry_createOffer c token amt price designated s of
        Inl e \<Rightarrow> Inl e | Inr (i, s') \<Rightarrow> Inr s')"
| "EscrowWithExpiry_step c (X_acceptOffer i busdAddress) s = EscrowWithExpiry_acceptOffer c i busdAddress s"
| "EscrowWithExpiry_step c (X_cancelOffer i) s = EscrowWithExpiry_cancelOffer c i s"
| "EscrowWithExpiry_step c (X_reclaimExpired i) s = EscrowWithExpiry_reclaimExpired c i s"
| "EscrowWithExpiry_step c (X_updateExpiryTime n) s = EscrowWithExpiry_updateExpiryTime c n s"
| "EscrowWithExpiry_step c X_pause s = pause c s"
| "EscrowWithExpiry_step c X_unpause s = unpause c s"
| "EscrowWithExpiry_step c (X_emergencyWithdraw token amt to) s = EscrowWithExpiry_emergencyWithdraw c token amt to s"
| "EscrowWithExpiry_step c (X_transferOwnership a) s = transferOwnership c a s"
| "EscrowWithExpiry_step c X_renounceOwnership s = renounceOwnership c s"
| "EscrowWithExpiry_step c (X_tokens f) s = Inr (s\<lparr>ledger := f (ledger s)\<rparr>)"

fun EscrowWithExpiry_run :: "(Call \<times> EscrowWithExpiry_tx) list \<Rightarrow> EscrowWithExpiry \<Rightarrow> EscrowWithExpiry" where
  "EscrowWithExpiry_run [] s = s"
| "EscrowWithExpiry_run ((c, t) # rest) s = EscrowWithExpiry_run rest (commit (EscrowWithExpiry_step c t) s)"

text \<open>
  How many of the calls of a history close offer \<open>i\<close>: the calls of \<open>acceptOffer\<close>,
  \<open>cancelOffer\<close> and \<open>reclaimExpired\<close> on \<open>i\<close> that return.
\<close>

fun E_closes :: "uint256 \<Rightarrow> Escrow_tx \<Rightarrow> bool" where
  "E_closes i (E_acceptOffer j busdAddress) = (i = j)"
| "E_closes i (E_cancelOffer j) = (i = j)"
| "E_closes i t = False"

fun Escrow_closings :: "uint256 \<Rightarrow> (Call \<times> Escrow_tx) list \<Rightarrow> Escrow \<Rightarrow> nat" where
  "Escrow_closings i [] s = 0"
| "Escrow_closings i ((c, t) # rest) s =
     (case Escrow_step c t s of
        Inl e \<Rightarrow> Escrow_closings i rest s
      | Inr s' \<Rightarrow> (if E_closes i t then 1 else 0) + Escrow_closings i rest s')"

fun X_closes :: "uint256 \<Rightarrow> EscrowWithExpiry_tx \<Rightarrow> bool" where
  "X_closes i (X_acceptOffer j busdAddress) = (i = j)"
| "X_closes i (X_cancelOffer j) = (i = j)"
| "X_closes i (X_reclaimExpired j) = (i = j)"
| "X_closes i t = False"

fun EscrowWithExpiry_closings :: "uint256 \<Rightarrow> (Call \<times> EscrowWithExpiry_tx) list \<Rightarrow> EscrowWithExpiry \<Rightarrow> nat" where
  "EscrowWithExpiry_closings i [] s = 0"
| "EscrowWithExpiry_closings i ((c, t) # rest) s =
     (case EscrowWithExpiry_step c t s of
        Inl e \<Rightarrow> EscrowWithExpiry_closings i rest s
      | Inr s' \<Rightarrow> (if X_closes i t then 1 else 0) + EscrowWithExpiry_closings i rest s')"

section \<open>acceptOffer, statement by statement\<close>

text \<open>
  The body of \<open>acceptOffer\<close> writes to storage and then calls two token contracts. While
  such a call runs, the called contract can read the escrow: \<open>getOffer\<close> is a \<open>view\<close>
  function without \<open>nonReentrant\<close>. What it would read depends on where the write stands
  among the calls, so here the body is run one statement after the other, and every
  external call is recorded with the storage of the escrow at the moment it is made. The
  tokens of the ledger above do not read it; the record is what any token would find.

  An execution is the calls made so far and the outcome so far. \<open>store\<close> is an assignment
  to storage. \<open>call_token\<close> is a call through \<open>SafeERC20\<close>: the token and the arguments
  are read from storage when the statement is reached, the call is recorded, and it
  reverts the execution when the token does. No statement runs after a revert. The calls
  stay recorded when the execution reverts: they were made, although the transaction then
  undoes what they changed.
\<close>

datatype TokenCall =
    CallTransferFrom address address uint256
  | CallTransfer address uint256

record 's ExternalCall =
  callee :: address
  call_data :: TokenCall
  storage_seen :: 's

type_synonym 's Execution = "'s ExternalCall list \<times> (error + 's)"

definition store :: "('s \<Rightarrow> 's) \<Rightarrow> 's Execution \<Rightarrow> 's Execution" where
  "store f r = (case snd r of Inl e \<Rightarrow> r | Inr s \<Rightarrow> (fst r, Inr (f s)))"

definition perform :: "address \<Rightarrow> address \<Rightarrow> TokenCall \<Rightarrow> Ledger \<Rightarrow> error + Ledger" where
  "perform token this d l =
     (case d of
        CallTransferFrom from to amt \<Rightarrow> safeTransferFrom token this from to amt l
      | CallTransfer to amt \<Rightarrow> safeTransfer token this to amt l)"

definition call_token :: "(('o, 'z) EscrowStorage_scheme \<Rightarrow> address \<times> TokenCall) \<Rightarrow> ('o, 'z) EscrowStorage_scheme Execution \<Rightarrow> ('o, 'z) EscrowStorage_scheme Execution" where
  "call_token target r =
     (case snd r of
        Inl e \<Rightarrow> r
      | Inr s \<Rightarrow>
          (fst r @ [\<lparr>callee = fst (target s), call_data = snd (target s), storage_seen = s\<rparr>],
           case perform (fst (target s)) (this_address s) (snd (target s)) (ledger s) of
             Inl e \<Rightarrow> Inl e
           | Inr l \<Rightarrow> Inr (s\<lparr>ledger := l\<rparr>)))"

definition execute :: "('s Execution \<Rightarrow> 's Execution) list \<Rightarrow> 's \<Rightarrow> 's Execution" where
  "execute statements s = fold (\<lambda>statement r. statement r) statements ([], Inr s)"

text \<open>
  The three statements that follow the checks: lines 159, 162 and 165 of \<open>Escrow.sol\<close>,
  lines 157, 160 and 163 of \<open>EscrowWithExpiry.sol\<close>. \<open>offer\<close> is a storage pointer, so
  \<open>offer.seller\<close>, \<open>offer.priceInBUSD\<close>, \<open>offer.tokenAddress\<close> and \<open>offer.amount\<close> are
  read from storage when their statement runs.
\<close>

definition settlement :: "Call \<Rightarrow> uint256 \<Rightarrow> address \<Rightarrow> (('a Offer_scheme, 'z) EscrowStorage_scheme Execution \<Rightarrow> ('a Offer_scheme, 'z) EscrowStorage_scheme Execution) list" where
  "settlement c i busdAddress =
     [store (markInactive i),
      call_token (\<lambda>s. (busdAddress,
         CallTransferFrom (msg_sender c) (seller (offers s i)) (priceInBUSD (offers s i)))),
      call_token (\<lambda>s. (tokenAddress (offers s i),
         CallTransfer (msg_sender c) (amount (offers s i))))]"

text \<open>\<open>acceptOffer\<close> of \<open>Escrow.sol\<close> (lines 151-168): the modifier, the checks, the statements.\<close>

definition Escrow_acceptOffer_traced :: "Call \<Rightarrow> uint256 \<Rightarrow> address \<Rightarrow> Escrow \<Rightarrow> Escrow Execution" where
  "Escrow_acceptOffer_traced c i busdAddress s =
     (if paused s then ([], Inl EnforcedPause)
      else if \<not> active (offers s i) then ([], Inl (Revert ''Escrow: offer is not active''))
      else if \<not> msg_sender c = buyer (offers s i)
        then ([], Inl (Revert ''Escrow: caller is not the designated buyer''))
      else if \<not> busdAddress \<noteq> 0 then ([], Inl (Revert ''Escrow: invalid BUSD address''))
      else execute (settlement c i busdAddress) s)"

text \<open>\<open>acceptOffer\<close> of \<open>EscrowWithExpiry.sol\<close> (lines 146-166).\<close>

definition EscrowWithExpiry_acceptOffer_traced :: "Call \<Rightarrow> uint256 \<Rightarrow> address \<Rightarrow> EscrowWithExpiry \<Rightarrow> EscrowWithExpiry Execution" where
  "EscrowWithExpiry_acceptOffer_traced c i busdAddress s =
     (if paused s then ([], Inl EnforcedPause)
      else if \<not> active (offers s i) then ([], Inl (Revert ''Offer is not active''))
      else if \<not> msg_sender c = buyer (offers s i) then ([], Inl (Revert ''Not the designated buyer''))
      else if \<not> busdAddress \<noteq> 0 then ([], Inl (Revert ''Invalid BUSD address''))
      else if \<not> block_timestamp c \<le> expiresAt (offers s i) then ([], Inl (Revert ''Offer has expired''))
      else execute (settlement c i busdAddress) s)"

section \<open>MockPair\<close>

text \<open>
  The storage of a pair (src/unnamed/part_001, lines 13-19). A pair is an ERC20 token
  itself: its liquidity shares are the balances the ledger keeps for the pair's own
  address.
\<close>

record MockPair =
  token0 :: address
  token1 :: address
  reserve0 :: uint256
  reserve1 :: uint256
  blockTimestampLast :: uint256

definition MINIMUM_LIQUIDITY :: uint256 where
  "MINIMUM_LIQUIDITY = 10 ^ 3"

definition zero_MockPair :: MockPair where
  "zero_MockPair = \<lparr>token0 = 0, token1 = 0, reserve0 = 0, reserve1 = 0, blockTimestampLast = 0\<rparr>"

text \<open>\<open>initialize\<close> (lines 33-37).\<close>

definition MockPair_initialize :: "address \<Rightarrow> address \<Rightarrow> MockPair \<Rightarrow> error + MockPair" where
  "MockPair_initialize t0 t1 p =
     (if \<not> (token0 p = 0 \<and> token1 p = 0) then Inl (Revert ''MockPair: ALREADY_INITIALIZED'')
      else Inr (p\<lparr>token0 := t0, token1 := t1\<rparr>))"

text \<open>\<open>_update\<close> (lines 111-117).\<close>

definition MockPair_update :: "Call \<Rightarrow> uint256 \<Rightarrow> uint256 \<Rightarrow> MockPair \<Rightarrow> error + MockPair" where
  "MockPair_update c balance0 balance1 p =
     (if \<not> (balance0 \<le> MAX_UINT112 \<and> balance1 \<le> MAX_UINT112) then Inl (Revert ''MockPair: OVERFLOW'')
      else Inr (p\<lparr>reserve0 := balance0, reserve1 := balance1,
                  blockTimestampLast := block_timestamp c mod 2 ^ 32\<rparr>))"

text \<open>
  \<open>sqrt\<close> (lines 122-133). The loop \<open>while (x < z) { z = x; x = (y / x + x) / 2; }\<close> is
  the recursion on \<open>(z, x)\<close>; the division and the addition of its body are checked.
\<close>

function MockPair_sqrt_loop :: "uint256 \<Rightarrow> uint256 \<Rightarrow> uint256 \<Rightarrow> error + uint256" where
  "MockPair_sqrt_loop y z x =
     (if x < z then
        (if x = 0 then Inl DIV_BY_ZERO
         else if y div x + x > MAX_UINT256 then Inl OVERFLOW
         else MockPair_sqrt_loop y x ((y div x + x) div 2))
      else Inr z)"
  by pat_completeness auto
termination
  by (relation "measure (\<lambda>(y, z, x). z)") auto

definition MockPair_sqrt :: "uint256 \<Rightarrow> error + uint256" where
  "MockPair_sqrt y =
     (if y > 3 then
        (if y div 2 + 1 > MAX_UINT256 then Inl OVERFLOW
         else MockPair_sqrt_loop y y (y div 2 + 1))
      else if y \<noteq> 0 then Inr 1
      else Inr 0)"

text \<open>\<open>min\<close> (lines 138-140).\<close>

definition MockPair_min :: "uint256 \<Rightarrow> uint256 \<Rightarrow> uint256" where
  "MockPair_min x y = (if x < y then x else y)"

text \<open>
  \<open>mint\<close> (lines 56-78), called on the pair at address \<open>this\<close>. The first \<open>case\<close> is the
  \<open>if (_totalSupply == 0) ... else ...\<close> of lines 64-71: it gives \<open>liquidity\<close> and the
  ledger after the mint to \<open>address(1)\<close>, if there was one.
\<close>

definition MockPair_mint :: "Call \<Rightarrow> address \<Rightarrow> address \<Rightarrow> MockPair \<Rightarrow> Ledger \<Rightarrow> error + (uint256 \<times> MockPair \<times> Ledger)" where
  "MockPair_mint c this to p l =
     (let balance0 = balanceOf l (token0 p) this;
          balance1 = balanceOf l (token1 p) this in
      if balance0 < reserve0 p then Inl OVERFLOW
      else if balance1 < reserve1 p then Inl OVERFLOW
      else let amount0 = balance0 - reserve0 p;
               amount1 = balance1 - reserve1 p;
               supply = totalSupply l this in
        case (if supply = 0 then
                (if amount0 * amount1 > MAX_UINT256 then Inl OVERFLOW
                 else case MockPair_sqrt (amount0 * amount1) of
                     Inl e \<Rightarrow> Inl e
                   | Inr root \<Rightarrow>
                       if root < MINIMUM_LIQUIDITY then Inl OVERFLOW
                       else case ERC20_mint this 1 MINIMUM_LIQUIDITY l of
                           Inl e \<Rightarrow> Inl e
                         | Inr l1 \<Rightarrow> Inr (root - MINIMUM_LIQUIDITY, l1))
              else
                (if amount0 * supply > MAX_UINT256 then Inl OVERFLOW
                 else if reserve0 p = 0 then Inl DIV_BY_ZERO
                 else if amount1 * supply > MAX_UINT256 then Inl OVERFLOW
                 else if reserve1 p = 0 then Inl DIV_BY_ZERO
                 else Inr (MockPair_min ((amount0 * supply) div reserve0 p)
                                        ((amount1 * supply) div reserve1 p), l))) of
          Inl e \<Rightarrow> Inl e
        | Inr (liquidity, l1) \<Rightarrow>
            if \<not> liquidity > 0 then Inl (Revert ''MockPair: INSUFFICIENT_LIQUIDITY_MINTED'')
            else case ERC20_mint this to liquidity l1 of
                Inl e \<Rightarrow> Inl e
              | Inr l2 \<Rightarrow>
                  (case MockPair_update c balance0 balance1 p of
                     Inl e \<Rightarrow> Inl e
                   | Inr p' \<Rightarrow> Inr (liquidity, p', l2)))"

text \<open>\<open>burn\<close> (lines 86-106): it burns the shares the pair itself holds.\<close>

definition MockPair_burn :: "Call \<Rightarrow> address \<Rightarrow> address \<Rightarrow> MockPair \<Rightarrow> Ledger \<Rightarrow> error + ((uint256 \<times> uint256) \<times> MockPair \<times> Ledger)" where
  "MockPair_burn c this to p l =
     (let balance0 = balanceOf l (token0 p) this;
          balance1 = balanceOf l (token1 p) this;
          liquidity = balanceOf l this this;
          supply = totalSupply l this in
      if liquidity * balance0 > MAX_UINT256 then Inl OVERFLOW
      else if supply = 0 then Inl DIV_BY_ZERO
      else if liquidity * balance1 > MAX_UINT256 then Inl OVERFLOW
      else let amount0 = (liquidity * balance0) div supply;
               amount1 = (liquidity * balance1) div supply in
        if \<not> (amount0 > 0 \<and> amount1 > 0) then Inl (Revert ''MockPair: INSUFFICIENT_LIQUIDITY_BURNED'')
        else case ERC20_burn this this liquidity l of
            Inl e \<Rightarrow> Inl e
          | Inr l1 \<Rightarrow>
              (case ERC20_transfer (token0 p) this to amount0 l1 of
                 Inl e \<Rightarrow> Inl e
               | Inr l2 \<Rightarrow>
                   (case ERC20_transfer (token1 p) this to amount1 l2 of
                      Inl e \<Rightarrow> Inl e
                    | Inr l3 \<Rightarrow>
                        (case MockPair_update c (balanceOf l3 (token0 p) this)
                                (balanceOf l3 (token1 p) this) p of
                           Inl e \<Rightarrow> Inl e
                         | Inr p' \<Rightarrow> Inr ((amount0, amount1), p', l3)))))"

section \<open>MockFactory\<close>

text \<open>
  The factory's storage (src/contracts/mocks/MockFactory.sol, lines 12-13), and the
  exchange as a whole: the factory, the storage of the pair deployed at each address, and
  the ledger.
\<close>

record MockFactory =
  getPair :: "address \<Rightarrow> address \<Rightarrow> address"
  allPairs :: "address list"

record Dex =
  factory :: MockFactory
  pairs :: "address \<Rightarrow> MockPair"
  tokens :: Ledger

definition MockFactory_constructor :: MockFactory where
  "MockFactory_constructor = \<lparr>getPair = (\<lambda>a b. 0), allPairs = []\<rparr>"

text \<open>
  \<open>createPair\<close> (lines 23-42). \<open>newPair\<close> is the address at which \<open>new MockPair()\<close>
  deploys the pair; the EVM chooses it. \<open>(t0, t1)\<close> is the source's
  \<open>(token0, token1)\<close>.
\<close>

definition MockFactory_createPair :: "address \<Rightarrow> address \<Rightarrow> address \<Rightarrow> Dex \<Rightarrow> error + (address \<times> Dex)" where
  "MockFactory_createPair newPair tokenA tokenB d =
     (if \<not> tokenA \<noteq> tokenB then Inl (Revert ''MockFactory: IDENTICAL_ADDRESSES'')
      else let (t0, t1) = (if tokenA < tokenB then (tokenA, tokenB) else (tokenB, tokenA)) in
        if \<not> t0 \<noteq> 0 then Inl (Revert ''MockFactory: ZERO_ADDRESS'')
        else if \<not> getPair (factory d) t0 t1 = 0 then Inl (Revert ''MockFactory: PAIR_EXISTS'')
        else case MockPair_initialize t0 t1 zero_MockPair of
            Inl e \<Rightarrow> Inl e
          | Inr p \<Rightarrow>
              let g = getPair (factory d);
                  g1 = g(t0 := (g t0)(t1 := newPair));
                  g2 = g1(t1 := (g1 t1)(t0 := newPair))
              in Inr (newPair,
                      d\<lparr>factory := \<lparr>getPair = g2, allPairs = allPairs (factory d) @ [newPair]\<rparr>,
                        pairs := (pairs d)(newPair := p)\<rparr>))"

definition MockFactory_allPairsLength :: "Dex \<Rightarrow> uint256" where
  "MockFactory_allPairsLength d = length (allPairs (factory d))"

section \<open>MockRouter\<close>

text \<open>
  \<open>getAmountOut\<close> (src/unnamed/part_001, lines 321-333):
  \<^verbatim>\<open>
    require(amountIn > 0, "MockRouter: INSUFFICIENT_INPUT_AMOUNT");
    require(reserveIn > 0 && reserveOut > 0, "MockRouter: INSUFFICIENT_LIQUIDITY");
    uint256 amountInWithFee = amountIn * 997;
    uint256 numerator = amountInWithFee * reserveOut;
    uint256 denominator = (reserveIn * 1000) + amountInWithFee;
    amountOut = numerator / denominator;
  \<close>
\<close>

definition MockRouter_getAmountOut :: "uint256 \<Rightarrow> uint256 \<Rightarrow> uint256 \<Rightarrow> error + uint256" where
  "MockRouter_getAmountOut amountIn reserveIn reserveOut =
     (if \<not> amountIn > 0 then Inl (Revert ''MockRouter: INSUFFICIENT_INPUT_AMOUNT'')
      else if \<not> (reserveIn > 0 \<and> reserveOut > 0) then Inl (Revert ''MockRouter: INSUFFICIENT_LIQUIDITY'')
      else if amountIn * 997 > MAX_UINT256 then Inl OVERFLOW
      else let amountInWithFee = amountIn * 997 in
        if amountInWithFee * reserveOut > MAX_UINT256 then Inl OVERFLOW
        else let numerator = amountInWithFee * reserveOut in
          if reserveIn * 1000 > MAX_UINT256 then Inl OVERFLOW
          else if reserveIn * 1000 + amountInWithFee > MAX_UINT256 then Inl OVERFLOW
          else let denominator = reserveIn * 1000 + amountInWithFee in
            if denominator = 0 then Inl DIV_BY_ZERO
            else Inr (numerator div denominator))"

text \<open>
  \<open>getAmountsOut\<close> (lines 297-316). The loop over \<open>i\<close> is the recursion on the rest of the
  path; \<open>amt\<close> is \<open>amounts[i]\<close> and the result lists \<open>amounts[i + 1]\<close> onwards.
\<close>

fun MockRouter_getAmountsOut_loop :: "Dex \<Rightarrow> address list \<Rightarrow> uint256 \<Rightarrow> error + uint256 list" where
  "MockRouter_getAmountsOut_loop d (a # b # rest) amt =
     (let pair = getPair (factory d) a b in
      if \<not> pair \<noteq> 0 then Inl (Revert ''MockRouter: PAIR_NOT_FOUND'')
      else let t0 = (if a < b then a else b);
               (reserveIn, reserveOut) =
                 (if a = t0 then (reserve0 (pairs d pair), reserve1 (pairs d pair))
                  else (reserve1 (pairs d pair), reserve0 (pairs d pair))) in
        case MockRouter_getAmountOut amt reserveIn reserveOut of
          Inl e \<Rightarrow> Inl e
        | Inr out \<Rightarrow>
            (case MockRouter_getAmountsOut_loop d (b # rest) out of
               Inl e \<Rightarrow> Inl e
             | Inr outs \<Rightarrow> Inr (out # outs)))"
| "MockRouter_getAmountsOut_loop d path amt = Inr []"

definition MockRouter_getAmountsOut :: "uint256 \<Rightarrow> address list \<Rightarrow> Dex \<Rightarrow> error + uint256 list" where
  "MockRouter_getAmountsOut amountIn path d =
     (if \<not> length path \<ge> 2 then Inl (Revert ''MockRouter: INVALID_PATH'')
      else case MockRouter_getAmountsOut_loop d path amountIn of
          Inl e \<Rightarrow> Inl e
        | Inr outs \<Rightarrow> Inr (amountIn # outs))"

text \<open>\<open>_calculateLiquidityAmounts\<close> (lines 257-291).\<close>

definition MockRouter_calculateLiquidityAmounts :: "address \<Rightarrow> address \<Rightarrow> uint256 \<Rightarrow> uint256 \<Rightarrow> uint256 \<Rightarrow> uint256 \<Rightarrow> Dex \<Rightarrow> error + (uint256 \<times> uint256)" where
  "MockRouter_calculateLiquidityAmounts tokenA tokenB amountADesired amountBDesired amountAMin amountBMin d =
     (let pair = getPair (factory d) tokenA tokenB in
      if pair = 0 then Inr (amountADesired, amountBDesired)
      else let t0 = (if tokenA < tokenB then tokenA else tokenB);
               (reserveA, reserveB) =
                 (if tokenA = t0 then (reserve0 (pairs d pair), reserve1 (pairs d pair))
                  else (reserve1 (pairs d pair), reserve0 (pairs d pair))) in
        if reserveA = 0 \<and> reserveB = 0 then Inr (amountADesired, amountBDesired)
        else if amountADesired * reserveB > MAX_UINT256 then Inl OVERFLOW
        else if reserveA = 0 then Inl DIV_BY_ZERO
        else let amountBOptimal = (amountADesired * reserveB) div reserveA in
          if amountBOptimal \<le> amountBDesired then
            (if \<not> amountBOptimal \<ge> amountBMin then Inl (Revert ''MockRouter: INSUFFICIENT_B_AMOUNT'')
             else Inr (amountADesired, amountBOptimal))
          else if amountBDesired * reserveA > MAX_UINT256 then Inl OVERFLOW
          else if reserveB = 0 then Inl DIV_BY_ZERO
          else let amountAOptimal = (amountBDesired * reserveA) div reserveB in
            if \<not> amountAOptimal \<le> amountADesired then Inl (Revert ''MockRouter: INVALID_AMOUNT'')
            else if \<not> amountAOptimal \<ge> amountAMin then Inl (Revert ''MockRouter: INSUFFICIENT_A_AMOUNT'')
            else Inr (amountAOptimal, amountBDesired))"

text \<open>
  \<open>addLiquidity\<close> (lines 178-212), called on the router at address \<open>router\<close>. Its lines
  190-194, "Get or create pair", are \<open>MockRouter_getOrCreatePair\<close>:
  \<^verbatim>\<open>
    address pair = MockFactory(factory).getPair(tokenA, tokenB);
    if (pair == address(0)) {
        pair = MockFactory(factory).createPair(tokenA, tokenB);
    }
  \<close>
\<close>

definition MockRouter_getOrCreatePair :: "address \<Rightarrow> address \<Rightarrow> address \<Rightarrow> Dex \<Rightarrow> error + (address \<times> Dex)" where
  "MockRouter_getOrCreatePair newPair tokenA tokenB d =
     (let pair = getPair (factory d) tokenA tokenB in
      if pair = 0 then MockFactory_createPair newPair tokenA tokenB d
      else Inr (pair, d))"

definition MockRouter_addLiquidity :: "Call \<Rightarrow> address \<Rightarrow> address \<Rightarrow> address \<Rightarrow> address \<Rightarrow> uint256 \<Rightarrow> uint256 \<Rightarrow> uint256 \<Rightarrow> uint256 \<Rightarrow> address \<Rightarrow> uint256 \<Rightarrow> Dex \<Rightarrow> error + ((uint256 \<times> uint256 \<times> uint256) \<times> Dex)" where
  "MockRouter_addLiquidity c router newPair tokenA tokenB amountADesired amountBDesired amountAMin amountBMin to deadline d =
     (if \<not> deadline \<ge> block_timestamp c then Inl (Revert ''MockRouter: EXPIRED'')
      else case MockRouter_getOrCreatePair newPair tokenA tokenB d of
          Inl e \<Rightarrow> Inl e
        | Inr (pair, d1) \<Rightarrow>
            (case MockRouter_calculateLiquidityAmounts tokenA tokenB amountADesired amountBDesired
                    amountAMin amountBMin d1 of
               Inl e \<Rightarrow> Inl e
             | Inr (amountA, amountB) \<Rightarrow>
                 (case safeTransferFrom tokenA router (msg_sender c) pair amountA (tokens d1) of
                    Inl e \<Rightarrow> Inl e
                  | Inr l1 \<Rightarrow>
                      (case safeTransferFrom tokenB router (msg_sender c) pair amountB l1 of
                         Inl e \<Rightarrow> Inl e
                       | Inr l2 \<Rightarrow>
                           (case MockPair_mint c pair to (pairs d1 pair) l2 of
                              Inl e \<Rightarrow> Inl e
                            | Inr (liquidity, p', l3) \<Rightarrow>
                                Inr ((amountA, amountB, liquidity),
                                     d1\<lparr>pairs := (pairs d1)(pair := p'), tokens := l3\<rparr>))))))"

section \<open>The specification's formulas\<close>

text \<open>
  The quote as the specification writes it, over unbounded integers:
  \<open>floor(amountIn * 997 * reserveOut / (reserveIn * 1000 + amountIn * 997))\<close>.
\<close>

definition spec_amountOut :: "nat \<Rightarrow> nat \<Rightarrow> nat \<Rightarrow> nat" where
  "spec_amountOut amountIn reserveIn reserveOut =
     (amountIn * 997 * reserveOut) div (reserveIn * 1000 + amountIn * 997)"

text \<open>\<open>r\<close> is \<open>floor(sqrt(y))\<close>: the largest natural number whose square is at most \<open>y\<close>.\<close>

definition is_floor_sqrt :: "nat \<Rightarrow> nat \<Rightarrow> bool" where
  "is_floor_sqrt y r = (r * r \<le> y \<and> y < (r + 1) * (r + 1))"

section \<open>Example states\<close>

text \<open>
  Concrete accounts and states, on which the theorems below are run: the deployer 10, the
  seller 11, the buyer 12, a third account 13, the escrow contract at 20, the offered
  token at 30 and the quote token at 31. The seller holds 1000 of token 30 and the buyer
  1000 of token 31, and each has approved the escrow for 1000.
\<close>

definition ex_ledger :: Ledger where
  "ex_ledger =
     \<lparr>balanceOf = (\<lambda>t a. 0)(30 := (\<lambda>a. 0)(11 := 1000), 31 := (\<lambda>a. 0)(12 := 1000)),
      allowance = (\<lambda>t a b. 0)(30 := (\<lambda>a b. 0)(11 := (\<lambda>b. 0)(20 := 1000)),
                                 31 := (\<lambda>a b. 0)(12 := (\<lambda>b. 0)(20 := 1000))),
      totalSupply = (\<lambda>t. 0)(30 := 1000, 31 := 1000)\<rparr>"

definition call_at :: "address \<Rightarrow> uint256 \<Rightarrow> Call" where
  "call_at a t = \<lparr>msg_sender = a, block_timestamp = t\<rparr>"

text \<open>
  Both contracts after the seller, at time 1000, offered 100 of token 30 to the buyer for
  250 of the quote token.
\<close>

definition ex_Escrow :: Escrow where
  "ex_Escrow = Escrow_run [(call_at 11 1000, E_createOffer 30 100 250 12)]
                 (Escrow_constructor 10 20 ex_ledger)"

definition ex_EscrowWithExpiry :: EscrowWithExpiry where
  "ex_EscrowWithExpiry = EscrowWithExpiry_run [(call_at 11 1000, X_createOffer 30 100 250 12)]
                 (EscrowWithExpiry_constructor 10 20 ex_ledger)"

text \<open>
  A history of each contract: the seller offers, the buyer accepts, the seller then tries
  to cancel and the buyer to accept again (and, with expiry, a third account to reclaim).
  The states after the buyer accepted are \<open>ex_Escrow_closed\<close> and
  \<open>ex_EscrowWithExpiry_closed\<close>.
\<close>

definition ex_history :: "(Call \<times> Escrow_tx) list" where
  "ex_history =
     [(call_at 11 1000, E_createOffer 30 100 250 12),
      (call_at 12 1100, E_acceptOffer 0 31),
      (call_at 11 1200, E_cancelOffer 0),
      (call_at 12 1300, E_acceptOffer 0 31)]"

definition ex_history_expiry :: "(Call \<times> EscrowWithExpiry_tx) list" where
  "ex_history_expiry =
     [(call_at 11 1000, X_createOffer 30 100 250 12),
      (call_at 12 1100, X_acceptOffer 0 31),
      (call_at 11 1200, X_cancelOffer 0),
      (call_at 12 1300, X_acceptOffer 0 31),
      (call_at 13 5000, X_reclaimExpired 0)]"

definition ex_Escrow_closed :: Escrow where
  "ex_Escrow_closed = Escrow_run [(call_at 12 1100, E_acceptOffer 0 31)] ex_Escrow"

definition ex_EscrowWithExpiry_closed :: EscrowWithExpiry where
  "ex_EscrowWithExpiry_closed =
     EscrowWithExpiry_run [(call_at 12 1100, X_acceptOffer 0 31)] ex_EscrowWithExpiry"








text \<open>
  What happens between the creation of the example offer and its closing: the owner
  changes the expiry time to one hour, and a third account tries to cancel the offer.
\<close>

definition ex_interlude :: "(Call \<times> EscrowWithExpiry_tx) list" where
  "ex_interlude =
     [(call_at 10 1050, X_updateExpiryTime 3600),
      (call_at 13 1060, X_cancelOffer 0)]"

definition ex_EscrowWithExpiry_later :: EscrowWithExpiry where
  "ex_EscrowWithExpiry_later = EscrowWithExpiry_run ex_interlude ex_EscrowWithExpiry"

text \<open>
  An exchange with no pair yet, and the same after \<open>createPair\<close> deployed the pair of
  tokens 31 and 30 at address 40.
\<close>

definition ex_Dex :: Dex where
  "ex_Dex = \<lparr>factory = MockFactory_constructor, pairs = (\<lambda>a. zero_MockPair), tokens = ex_ledger\<rparr>"

definition ex_Dex_paired :: Dex where
  "ex_Dex_paired = (case MockFactory_createPair 40 31 30 ex_Dex of
                      Inl e \<Rightarrow> ex_Dex | Inr (pair, d) \<Rightarrow> d)"

text \<open>
  The amounts a deposit brings, as \<open>mint\<close> computes them (lines 60-61): what the pair
  holds of each token beyond its recorded reserve.
\<close>

definition mint_amount0 :: "address \<Rightarrow> MockPair \<Rightarrow> Ledger \<Rightarrow> uint256" where
  "mint_amount0 this p l = balanceOf l (token0 p) this - reserve0 p"

definition mint_amount1 :: "address \<Rightarrow> MockPair \<Rightarrow> Ledger \<Rightarrow> uint256" where
  "mint_amount1 this p l = balanceOf l (token1 p) this - reserve1 p"

text \<open>
  A pair at address 40 for the tokens 30 and 31, with no shares minted yet, to which 2000
  of token 30 and 8000 of token 31 were sent; and the same with 500 and 2000.
\<close>

definition ex_pair :: MockPair where
  "ex_pair = \<lparr>token0 = 30, token1 = 31, reserve0 = 0, reserve1 = 0, blockTimestampLast = 0\<rparr>"

definition ex_pair_ledger :: "uint256 \<Rightarrow> uint256 \<Rightarrow> Ledger" where
  "ex_pair_ledger a b =
     \<lparr>balanceOf = (\<lambda>t a. 0)(30 := (\<lambda>a. 0)(40 := a), 31 := (\<lambda>a. 0)(40 := b)),
      allowance = (\<lambda>t a b. 0),
      totalSupply = (\<lambda>t. 0)(30 := a, 31 := b)\<rparr>"

text \<open>
  The same pair later: its reserves are 2000 and 8000, and of its 4000 shares \<open>address(1)\<close>
  holds 1000, the depositor 7 holds 1000 and has sent 2000 back to the pair to be burnt;
  9 may spend 600 of the shares of 7.
\<close>

definition ex_pair_funded :: MockPair where
  "ex_pair_funded = ex_pair\<lparr>reserve0 := 2000, reserve1 := 8000\<rparr>"

definition ex_pair_ledger_minted :: Ledger where
  "ex_pair_ledger_minted =
     \<lparr>balanceOf = (\<lambda>t a. 0)(30 := (\<lambda>a. 0)(40 := 2000), 31 := (\<lambda>a. 0)(40 := 8000),
                               40 := (\<lambda>a. 0)(1 := 1000, 7 := 1000, 40 := 2000)),
      allowance = (\<lambda>t a b. 0)(40 := (\<lambda>a b. 0)(7 := (\<lambda>b. 0)(9 := 600))),
      totalSupply = (\<lambda>t. 0)(30 := 2000, 31 := 8000, 40 := 4000)\<rparr>"

section \<open>The swap quote\<close>

lemma getAmountOut_in_range:
  assumes "0 < amountIn" "0 < reserveIn" "0 < reserveOut"
    and "amountIn * 997 * reserveOut \<le> MAX_UINT256"
    and "reserveIn * 1000 + amountIn * 997 \<le> MAX_UINT256"
  shows "MockRouter_getAmountOut amountIn reserveIn reserveOut
           = Inr (spec_amountOut amountIn reserveIn reserveOut)"
proof -
  have a: "amountIn * 997 \<le> amountIn * 997 * reserveOut"
    using assms(3) by simp
  have b: "reserveIn * 1000 \<le> reserveIn * 1000 + amountIn * 997"
    by simp
  from a assms(4) have c: "\<not> amountIn * 997 > MAX_UINT256" by linarith
  from b assms(5) have d: "\<not> reserveIn * 1000 > MAX_UINT256" by linarith
  show ?thesis
    using assms c d
    by (simp add: MockRouter_getAmountOut_def spec_amountOut_def Let_def)
qed

lemma getAmountOut_overflow:
  assumes "0 < amountIn" "0 < reserveIn" "0 < reserveOut"
    and "amountIn * 997 * reserveOut > MAX_UINT256 \<or> reserveIn * 1000 + amountIn * 997 > MAX_UINT256"
  shows "MockRouter_getAmountOut amountIn reserveIn reserveOut = Inl OVERFLOW"
  using assms
  by (auto simp add: MockRouter_getAmountOut_def Let_def)

lemma getAmountOut_zero_input:
  "MockRouter_getAmountOut 0 reserveIn reserveOut = Inl (Revert ''MockRouter: INSUFFICIENT_INPUT_AMOUNT'')"
  by (simp add: MockRouter_getAmountOut_def)

lemma getAmountOut_zero_reserve:
  assumes "0 < amountIn" "reserveIn = 0 \<or> reserveOut = 0"
  shows "MockRouter_getAmountOut amountIn reserveIn reserveOut = Inl (Revert ''MockRouter: INSUFFICIENT_LIQUIDITY'')"
  using assms by (auto simp add: MockRouter_getAmountOut_def)

lemma getAmountOut_Inr:
  assumes "MockRouter_getAmountOut amountIn reserveIn reserveOut = Inr out"
  shows "0 < amountIn \<and> 0 < reserveIn \<and> 0 < reserveOut
         \<and> out = spec_amountOut amountIn reserveIn reserveOut"
  using assms
  by (auto simp add: MockRouter_getAmountOut_def spec_amountOut_def Let_def split: if_splits)

lemma spec_amountOut_lt:
  assumes "0 < reserveIn" "0 < reserveOut"
  shows "spec_amountOut amountIn reserveIn reserveOut < reserveOut"
proof -
  let ?d = "reserveIn * 1000 + amountIn * 997"
  have "amountIn * 997 * reserveOut < reserveOut * ?d"
    using assms by (simp add: algebra_simps)
  moreover have "0 < ?d" using assms by simp
  ultimately show ?thesis
    unfolding spec_amountOut_def
    by (simp add: div_less_iff_less_mult mult.commute)
qed

lemma spec_amountOut_product:
  assumes "0 < reserveIn" "0 < reserveOut"
  shows "reserveIn * reserveOut
           \<le> (reserveIn + amountIn) * (reserveOut - spec_amountOut amountIn reserveIn reserveOut)"
proof -
  let ?q = "spec_amountOut amountIn reserveIn reserveOut"
  let ?d = "reserveIn * 1000 + amountIn * 997"
  have q_le: "?q * ?d \<le> amountIn * 997 * reserveOut"
    unfolding spec_amountOut_def by (rule div_times_less_eq_dividend)
  have "997 * ((reserveIn + amountIn) * ?q) \<le> ?q * ?d"
    by (simp add: algebra_simps)
  with q_le have "997 * ((reserveIn + amountIn) * ?q) \<le> 997 * (amountIn * reserveOut)"
    by (simp add: algebra_simps)
  then have key: "(reserveIn + amountIn) * ?q \<le> amountIn * reserveOut"
    by simp
  have "(reserveIn + amountIn) * (reserveOut - ?q)
          = (reserveIn + amountIn) * reserveOut - (reserveIn + amountIn) * ?q"
    by (simp add: diff_mult_distrib2)
  also have "\<dots> \<ge> (reserveIn + amountIn) * reserveOut - amountIn * reserveOut"
    using key by (rule diff_le_mono2)
  finally show ?thesis
    by (simp add: algebra_simps)
qed

text \<open>
  C4, as the code has it. With a positive input and positive reserves the quote is
  \<open>floor(amountIn * 997 * reserveOut / (reserveIn * 1000 + amountIn * 997))\<close> whenever
  the numerator \<open>amountIn * 997 * reserveOut\<close> and the denominator
  \<open>reserveIn * 1000 + amountIn * 997\<close> fit in 256 bits, and the call reverts with the
  arithmetic panic when one of them does not. The call reverts when \<open>amountIn\<close> is 0 and
  when a reserve is 0. With reserves (140, 140) and \<open>amountIn = 10\<close> the quote is 9.
\<close>

theorem C4_quote_is_floor_formula_within_256_bits:
  "(0 < amountIn \<and> 0 < reserveIn \<and> 0 < reserveOut
      \<and> amountIn * 997 * reserveOut \<le> MAX_UINT256
      \<and> reserveIn * 1000 + amountIn * 997 \<le> MAX_UINT256
     \<longrightarrow> MockRouter_getAmountOut amountIn reserveIn reserveOut
           = Inr ((amountIn * 997 * reserveOut) div (reserveIn * 1000 + amountIn * 997)))
   \<and> (0 < amountIn \<and> 0 < reserveIn \<and> 0 < reserveOut
      \<and> (amountIn * 997 * reserveOut > MAX_UINT256 \<or> reserveIn * 1000 + amountIn * 997 > MAX_UINT256)
     \<longrightarrow> MockRouter_getAmountOut amountIn reserveIn reserveOut = Inl OVERFLOW)
   \<and> (amountIn = 0
     \<longrightarrow> MockRouter_getAmountOut amountIn reserveIn reserveOut
           = Inl (Revert ''MockRouter: INSUFFICIENT_INPUT_AMOUNT''))
   \<and> (0 < amountIn \<and> (reserveIn = 0 \<or> reserveOut = 0)
     \<longrightarrow> MockRouter_getAmountOut amountIn reserveIn reserveOut
           = Inl (Revert ''MockRouter: INSUFFICIENT_LIQUIDITY''))
   \<and> MockRouter_getAmountOut 10 140 140 = Inr 9"
proof (intro conjI impI)
  show "MockRouter_getAmountOut 10 140 140 = Inr 9"
    by (simp add: MockRouter_getAmountOut_def MAX_UINT256_def)
qed (simp_all add: getAmountOut_in_range [unfolded spec_amountOut_def] getAmountOut_overflow
       getAmountOut_zero_input getAmountOut_zero_reserve)

theorem C4_quote_witness:
  "MockRouter_getAmountOut 1000 5000 7000 = Inr 1163
   \<and> MockRouter_getAmountOut (2 ^ 255) 3 5 = Inl OVERFLOW
   \<and> MockRouter_getAmountOut 0 5000 7000 = Inl (Revert ''MockRouter: INSUFFICIENT_INPUT_AMOUNT'')
   \<and> MockRouter_getAmountOut 1000 0 7000 = Inl (Revert ''MockRouter: INSUFFICIENT_LIQUIDITY'')"
proof -
  note c4 = C4_quote_is_floor_formula_within_256_bits
  have "MockRouter_getAmountOut 1000 5000 7000 = Inr 1163"
    using c4 [of 1000 5000 7000] by (simp add: MAX_UINT256_def)
  moreover have "MockRouter_getAmountOut (2 ^ 255) 3 5 = Inl OVERFLOW"
    using c4 [of "2 ^ 255" 3 5] by (simp add: MAX_UINT256_def)
  moreover have "MockRouter_getAmountOut 0 5000 7000 = Inl (Revert ''MockRouter: INSUFFICIENT_INPUT_AMOUNT'')"
    using c4 [of 0 5000 7000] by simp
  moreover have "MockRouter_getAmountOut 1000 0 7000 = Inl (Revert ''MockRouter: INSUFFICIENT_LIQUIDITY'')"
    using c4 [of 1000 0 7000] by simp
  ultimately show ?thesis by simp
qed

text \<open>
  C4 as the specification states it fails: \<open>amountIn = 2^256 - 1\<close> is positive, the
  reserves 1 and 1 are positive, and \<open>amountIn * 997\<close> (line 329) overflows, so the call
  reverts and returns no quote.
\<close>

theorem C4_quote_counterexample:
  "\<not> (\<forall>amountIn reserveIn reserveOut.
        0 < amountIn \<and> 0 < reserveIn \<and> 0 < reserveOut
        \<longrightarrow> MockRouter_getAmountOut amountIn reserveIn reserveOut
              = Inr ((amountIn * 997 * reserveOut) div (reserveIn * 1000 + amountIn * 997)))"
proof
  assume "\<forall>amountIn reserveIn reserveOut.
        0 < amountIn \<and> 0 < reserveIn \<and> 0 < reserveOut
        \<longrightarrow> MockRouter_getAmountOut amountIn reserveIn reserveOut
              = Inr ((amountIn * 997 * reserveOut) div (reserveIn * 1000 + amountIn * 997))"
  then have "MockRouter_getAmountOut MAX_UINT256 1 1
               = Inr ((MAX_UINT256 * 997 * 1) div (1 * 1000 + MAX_UINT256 * 997))"
    by (simp add: MAX_UINT256_def)
  moreover have "MockRouter_getAmountOut MAX_UINT256 1 1 = Inl OVERFLOW"
    by (simp add: MockRouter_getAmountOut_def MAX_UINT256_def)
  ultimately show False by simp
qed

text \<open>
  C5. For a positive input and positive reserves, the output of the fee-adjusted formula
  is less than \<open>reserveOut\<close>, and a swap at that output does not decrease the product of
  the reserves; every quote \<open>getAmountOut\<close> returns is the output of the formula, so the
  same holds of it.
\<close>

theorem C5_swap_never_decreases_reserve_product:
  assumes "0 < amountIn" "0 < reserveIn" "0 < reserveOut"
  shows "spec_amountOut amountIn reserveIn reserveOut < reserveOut
     \<and> reserveIn * reserveOut
         \<le> (reserveIn + amountIn) * (reserveOut - spec_amountOut amountIn reserveIn reserveOut)
     \<and> (\<forall>amountOut. MockRouter_getAmountOut amountIn reserveIn reserveOut = Inr amountOut
         \<longrightarrow> amountOut < reserveOut
           \<and> reserveIn * reserveOut \<le> (reserveIn + amountIn) * (reserveOut - amountOut))"
  using assms spec_amountOut_lt [of reserveIn reserveOut amountIn]
    spec_amountOut_product [of reserveIn reserveOut amountIn]
  by (auto dest: getAmountOut_Inr)

theorem C5_reserve_product_witness:
  "MockRouter_getAmountOut 10 140 140 = Inr 9
   \<and> spec_amountOut 10 140 140 = 9
   \<and> (140::nat) * 140 \<le> (140 + 10) * (140 - 9)"
proof -
  have q: "MockRouter_getAmountOut 10 140 140 = Inr 9"
    by (simp add: MockRouter_getAmountOut_def MAX_UINT256_def)
  have "(140::nat) * 140 \<le> (140 + 10) * (140 - 9)"
    using C5_swap_never_decreases_reserve_product [of 10 140 140] q by simp
  moreover have "spec_amountOut 10 140 140 = 9"
    by (simp add: spec_amountOut_def)
  ultimately show ?thesis using q by simp
qed

section \<open>Settlement: the order of the effects, and atomic failure\<close>

lemma markInactive_simps:
  "offers (markInactive i s) = (offers s)(i := (offers s i)\<lparr>active := False\<rparr>)"
  "offerIdCounter (markInactive i s) = offerIdCounter s"
  "lastOfferTime (markInactive i s) = lastOfferTime s"
  "dailyOfferCount (markInactive i s) = dailyOfferCount s"
  "paused (markInactive i s) = paused s"
  "owner (markInactive i s) = owner s"
  "this_address (markInactive i s) = this_address s"
  "ledger (markInactive i s) = ledger s"
  by (simp_all add: markInactive_def)

lemma payQuote_Inr:
  assumes "payQuote c i busdAddress s = Inr s'"
  shows "safeTransferFrom busdAddress (this_address s) (msg_sender c) (seller (offers s i))
           (priceInBUSD (offers s i)) (ledger s) = Inr (ledger s')
         \<and> s' = s\<lparr>ledger := ledger s'\<rparr>"
  using assms by (auto simp add: payQuote_def split: sum.splits)

lemma releaseTo_Inr:
  assumes "releaseTo recipient i s = Inr s'"
  shows "safeTransfer (tokenAddress (offers s i)) (this_address s) recipient
           (amount (offers s i)) (ledger s) = Inr (ledger s')
         \<and> s' = s\<lparr>ledger := ledger s'\<rparr>"
  using assms by (auto simp add: releaseTo_def split: sum.splits)

lemma commit_Inl: "f s = Inl e \<Longrightarrow> commit f s = s"
  by (simp add: commit_def)

lemma commit_Inr: "f s = Inr s' \<Longrightarrow> commit f s = s'"
  by (simp add: commit_def)

lemma Escrow_acceptOffer_effects:
  assumes "\<not> paused s" "active (offers s i)" "msg_sender c = buyer (offers s i)" "busdAddress \<noteq> 0"
  shows "Escrow_acceptOffer c i busdAddress s =
           (case payQuote c i busdAddress (markInactive i s) of
              Inl e \<Rightarrow> Inl e
            | Inr s2 \<Rightarrow> releaseTo (msg_sender c) i s2)"
  using assms by (simp add: Escrow_acceptOffer_def)

lemma EscrowWithExpiry_acceptOffer_effects:
  assumes "\<not> paused s" "active (offers s i)" "msg_sender c = buyer (offers s i)" "busdAddress \<noteq> 0"
    and "block_timestamp c \<le> expiresAt (offers s i)"
  shows "EscrowWithExpiry_acceptOffer c i busdAddress s =
           (case payQuote c i busdAddress (markInactive i s) of
              Inl e \<Rightarrow> Inl e
            | Inr s2 \<Rightarrow> releaseTo (msg_sender c) i s2)"
  using assms by (simp add: EscrowWithExpiry_acceptOffer_def)

lemma settle_order:
  assumes "(case payQuote c i busdAddress (markInactive i s) of
              Inl e \<Rightarrow> Inl e
            | Inr s2 \<Rightarrow> releaseTo (msg_sender c) i s2) = Inr s'"
  shows "\<exists>l1. safeTransferFrom busdAddress (this_address s) (msg_sender c) (seller (offers s i))
                 (priceInBUSD (offers s i)) (ledger s) = Inr l1
           \<and> safeTransfer (tokenAddress (offers s i)) (this_address s) (msg_sender c)
                 (amount (offers s i)) l1 = Inr (ledger s')
           \<and> s' = (markInactive i s)\<lparr>ledger := ledger s'\<rparr>"
proof -
  from assms obtain s2 where p: "payQuote c i busdAddress (markInactive i s) = Inr s2"
    and r: "releaseTo (msg_sender c) i s2 = Inr s'"
    by (auto split: sum.splits)
  from payQuote_Inr [OF p] have p1:
    "safeTransferFrom busdAddress (this_address s) (msg_sender c) (seller (offers s i))
       (priceInBUSD (offers s i)) (ledger s) = Inr (ledger s2)"
    and p2: "s2 = (markInactive i s)\<lparr>ledger := ledger s2\<rparr>"
    by (simp_all add: markInactive_simps)
  have o2: "offers s2 = offers (markInactive i s)" and t2: "this_address s2 = this_address s"
    by (subst p2, simp add: markInactive_simps)+
  from releaseTo_Inr [OF r] have r1:
    "safeTransfer (tokenAddress (offers s i)) (this_address s) (msg_sender c)
       (amount (offers s i)) (ledger s2) = Inr (ledger s')"
    and r2: "s' = s2\<lparr>ledger := ledger s'\<rparr>"
    by (simp_all add: o2 t2 markInactive_simps)
  have "s' = (markInactive i s)\<lparr>ledger := ledger s'\<rparr>"
    by (subst r2, subst p2, simp)
  with p1 r1 show ?thesis by blast
qed

lemma settle_payment_fails:
  assumes "safeTransferFrom busdAddress (this_address s) (msg_sender c) (seller (offers s i))
             (priceInBUSD (offers s i)) (ledger s) = Inl e"
  shows "(case payQuote c i busdAddress (markInactive i s) of
              Inl e \<Rightarrow> Inl e
            | Inr s2 \<Rightarrow> releaseTo (msg_sender c) i s2) = Inl e"
  using assms by (simp add: payQuote_def markInactive_simps)

lemmas units = seconds_def minutes_def hours_def days_def OFFER_COOLDOWN_def
  MAX_OFFERS_PER_DAY_def DEFAULT_EXPIRY_TIME_def MAX_UINT256_def OVERFLOW_def

lemmas ledger_defs = safeTransfer_def safeTransferFrom_def ERC20_transfer_def
  ERC20_transferFrom_def

lemmas example_defs = ex_Escrow_def ex_EscrowWithExpiry_def ex_ledger_def call_at_def
  Escrow_constructor_def EscrowWithExpiry_constructor_def commit_def
  Escrow_createOffer_def EscrowWithExpiry_createOffer_def

lemma execute_settlement:
  "execute (settlement c i busdAddress) s =
     (case safeTransferFrom busdAddress (this_address s) (msg_sender c) (seller (offers s i))
             (priceInBUSD (offers s i)) (ledger s) of
        Inl e \<Rightarrow>
          ([\<lparr>callee = busdAddress,
             call_data = CallTransferFrom (msg_sender c) (seller (offers s i)) (priceInBUSD (offers s i)),
             storage_seen = markInactive i s\<rparr>], Inl e)
      | Inr l1 \<Rightarrow>
          ([\<lparr>callee = busdAddress,
             call_data = CallTransferFrom (msg_sender c) (seller (offers s i)) (priceInBUSD (offers s i)),
             storage_seen = markInactive i s\<rparr>,
            \<lparr>callee = tokenAddress (offers s i),
             call_data = CallTransfer (msg_sender c) (amount (offers s i)),
             storage_seen = (markInactive i s)\<lparr>ledger := l1\<rparr>\<rparr>],
           case safeTransfer (tokenAddress (offers s i)) (this_address s) (msg_sender c)
                  (amount (offers s i)) l1 of
             Inl e \<Rightarrow> Inl e
           | Inr l2 \<Rightarrow> Inr ((markInactive i s)\<lparr>ledger := l2\<rparr>)))"
  by (simp add: execute_def settlement_def store_def call_token_def perform_def
      markInactive_simps split: sum.splits)

lemma execute_settlement_result:
  "snd (execute (settlement c i busdAddress) s) =
     (case payQuote c i busdAddress (markInactive i s) of
        Inl e \<Rightarrow> Inl e
      | Inr s2 \<Rightarrow> releaseTo (msg_sender c) i s2)"
  by (simp add: execute_settlement payQuote_def releaseTo_def markInactive_simps
      split: sum.splits)

lemma execute_settlement_seen:
  assumes "e \<in> set (fst (execute (settlement c i busdAddress) s))"
  shows "\<not> active (getOffer i (storage_seen e))"
  using assms
  by (auto simp add: execute_settlement getOffer_def markInactive_simps split: sum.splits)

lemma Escrow_acceptOffer_traced_result:
  "snd (Escrow_acceptOffer_traced c i busdAddress s) = Escrow_acceptOffer c i busdAddress s"
  by (simp add: Escrow_acceptOffer_traced_def Escrow_acceptOffer_def execute_settlement_result)

lemma EscrowWithExpiry_acceptOffer_traced_result:
  "snd (EscrowWithExpiry_acceptOffer_traced c i busdAddress s)
     = EscrowWithExpiry_acceptOffer c i busdAddress s"
  by (simp add: EscrowWithExpiry_acceptOffer_traced_def EscrowWithExpiry_acceptOffer_def
      execute_settlement_result)

lemma Escrow_acceptOffer_traced_seen:
  assumes "e \<in> set (fst (Escrow_acceptOffer_traced c i busdAddress s))"
  shows "\<not> active (getOffer i (storage_seen e))"
  using assms execute_settlement_seen [of e c i busdAddress s]
  by (simp add: Escrow_acceptOffer_traced_def split: if_splits)

lemma EscrowWithExpiry_acceptOffer_traced_seen:
  assumes "e \<in> set (fst (EscrowWithExpiry_acceptOffer_traced c i busdAddress s))"
  shows "\<not> active (getOffer i (storage_seen e))"
  using assms execute_settlement_seen [of e c i busdAddress s]
  by (simp add: EscrowWithExpiry_acceptOffer_traced_def split: if_splits)

lemma Escrow_acceptOffer_traced_calls:
  assumes "\<not> paused s" "active (offers s i)" "msg_sender c = buyer (offers s i)" "busdAddress \<noteq> 0"
  shows "fst (Escrow_acceptOffer_traced c i busdAddress s) =
           \<lparr>callee = busdAddress,
             call_data = CallTransferFrom (msg_sender c) (seller (offers s i)) (priceInBUSD (offers s i)),
             storage_seen = markInactive i s\<rparr>
           # (case safeTransferFrom busdAddress (this_address s) (msg_sender c) (seller (offers s i))
                     (priceInBUSD (offers s i)) (ledger s) of
                Inl e \<Rightarrow> []
              | Inr l1 \<Rightarrow>
                  [\<lparr>callee = tokenAddress (offers s i),
                     call_data = CallTransfer (msg_sender c) (amount (offers s i)),
                     storage_seen = (markInactive i s)\<lparr>ledger := l1\<rparr>\<rparr>])"
  using assms
  by (simp add: Escrow_acceptOffer_traced_def execute_settlement split: sum.splits)

lemma EscrowWithExpiry_acceptOffer_traced_calls:
  assumes "\<not> paused s" "active (offers s i)" "msg_sender c = buyer (offers s i)" "busdAddress \<noteq> 0"
    and "block_timestamp c \<le> expiresAt (offers s i)"
  shows "fst (EscrowWithExpiry_acceptOffer_traced c i busdAddress s) =
           \<lparr>callee = busdAddress,
             call_data = CallTransferFrom (msg_sender c) (seller (offers s i)) (priceInBUSD (offers s i)),
             storage_seen = markInactive i s\<rparr>
           # (case safeTransferFrom busdAddress (this_address s) (msg_sender c) (seller (offers s i))
                     (priceInBUSD (offers s i)) (ledger s) of
                Inl e \<Rightarrow> []
              | Inr l1 \<Rightarrow>
                  [\<lparr>callee = tokenAddress (offers s i),
                     call_data = CallTransfer (msg_sender c) (amount (offers s i)),
                     storage_seen = (markInactive i s)\<lparr>ledger := l1\<rparr>\<rparr>])"
  using assms
  by (simp add: EscrowWithExpiry_acceptOffer_traced_def execute_settlement split: sum.splits)

text \<open>
  C1. In both contracts \<open>acceptOffer\<close> clears the flag before either transfer: every
  external call it makes, in an execution that returns and in one that reverts alike, is
  made while the storage of the escrow, as \<open>getOffer\<close> reads it, already holds the offer
  inactive. Once the checks have passed, the first call is the pull of the price from the
  caller to the seller; only when that call has returned a second one follows, the
  sending of the escrowed amount from the contract to the caller, made on the ledger the
  payment left; and there is no other call. When \<open>acceptOffer\<close> returns, the state is the
  one with the offer inactive and the ledger after both transfers. When the payment
  fails, \<open>acceptOffer\<close> fails with the payment's error, and whenever it fails the
  transaction leaves the whole state as it was: the offer still active, every balance and
  allowance unchanged. The execution recorded call by call returns what \<open>acceptOffer\<close>
  returns.
\<close>

theorem C1_acceptOffer_flips_then_pays_then_releases:
  "snd (Escrow_acceptOffer_traced c i busdAddress s) = Escrow_acceptOffer c i busdAddress s
   \<and> (\<forall>e \<in> set (fst (Escrow_acceptOffer_traced c i busdAddress s)).
         \<not> active (getOffer i (storage_seen e)))
   \<and> (\<forall>e. Escrow_acceptOffer c i busdAddress s = Inl e \<longrightarrow>
         commit (Escrow_acceptOffer c i busdAddress) s = s)
   \<and> (\<not> paused s \<and> active (offers s i) \<and> msg_sender c = buyer (offers s i) \<and> busdAddress \<noteq> 0
     \<longrightarrow>
       fst (Escrow_acceptOffer_traced c i busdAddress s) =
           \<lparr>callee = busdAddress,
             call_data = CallTransferFrom (msg_sender c) (seller (offers s i)) (priceInBUSD (offers s i)),
             storage_seen = markInactive i s\<rparr>
           # (case safeTransferFrom busdAddress (this_address s) (msg_sender c) (seller (offers s i))
                     (priceInBUSD (offers s i)) (ledger s) of
                Inl e \<Rightarrow> []
              | Inr l1 \<Rightarrow>
                  [\<lparr>callee = tokenAddress (offers s i),
                     call_data = CallTransfer (msg_sender c) (amount (offers s i)),
                     storage_seen = (markInactive i s)\<lparr>ledger := l1\<rparr>\<rparr>])
     \<and> (\<forall>s'. Escrow_acceptOffer c i busdAddress s = Inr s' \<longrightarrow>
           (\<exists>l1. safeTransferFrom busdAddress (this_address s) (msg_sender c) (seller (offers s i))
                    (priceInBUSD (offers s i)) (ledger s) = Inr l1
               \<and> safeTransfer (tokenAddress (offers s i)) (this_address s) (msg_sender c)
                    (amount (offers s i)) l1 = Inr (ledger s')
               \<and> s' = (markInactive i s)\<lparr>ledger := ledger s'\<rparr>))
     \<and> (\<forall>e. safeTransferFrom busdAddress (this_address s) (msg_sender c) (seller (offers s i))
                (priceInBUSD (offers s i)) (ledger s) = Inl e \<longrightarrow>
             Escrow_acceptOffer c i busdAddress s = Inl e
           \<and> commit (Escrow_acceptOffer c i busdAddress) s = s))
   \<and> snd (EscrowWithExpiry_acceptOffer_traced c j busdAddress x)
       = EscrowWithExpiry_acceptOffer c j busdAddress x
   \<and> (\<forall>e \<in> set (fst (EscrowWithExpiry_acceptOffer_traced c j busdAddress x)).
         \<not> active (getOffer j (storage_seen e)))
   \<and> (\<forall>e. EscrowWithExpiry_acceptOffer c j busdAddress x = Inl e \<longrightarrow>
         commit (EscrowWithExpiry_acceptOffer c j busdAddress) x = x)
   \<and> (\<not> paused x \<and> active (offers x j) \<and> msg_sender c = buyer (offers x j) \<and> busdAddress \<noteq> 0
       \<and> block_timestamp c \<le> expiresAt (offers x j)
     \<longrightarrow>
       fst (EscrowWithExpiry_acceptOffer_traced c j busdAddress x) =
           \<lparr>callee = busdAddress,
             call_data = CallTransferFrom (msg_sender c) (seller (offers x j)) (priceInBUSD (offers x j)),
             storage_seen = markInactive j x\<rparr>
           # (case safeTransferFrom busdAddress (this_address x) (msg_sender c) (seller (offers x j))
                     (priceInBUSD (offers x j)) (ledger x) of
                Inl e \<Rightarrow> []
              | Inr l1 \<Rightarrow>
                  [\<lparr>callee = tokenAddress (offers x j),
                     call_data = CallTransfer (msg_sender c) (amount (offers x j)),
                     storage_seen = (markInactive j x)\<lparr>ledger := l1\<rparr>\<rparr>])
     \<and> (\<forall>x'. EscrowWithExpiry_acceptOffer c j busdAddress x = Inr x' \<longrightarrow>
           (\<exists>l1. safeTransferFrom busdAddress (this_address x) (msg_sender c) (seller (offers x j))
                    (priceInBUSD (offers x j)) (ledger x) = Inr l1
               \<and> safeTransfer (tokenAddress (offers x j)) (this_address x) (msg_sender c)
                    (amount (offers x j)) l1 = Inr (ledger x')
               \<and> x' = (markInactive j x)\<lparr>ledger := ledger x'\<rparr>))
     \<and> (\<forall>e. safeTransferFrom busdAddress (this_address x) (msg_sender c) (seller (offers x j))
                (priceInBUSD (offers x j)) (ledger x) = Inl e \<longrightarrow>
             EscrowWithExpiry_acceptOffer c j busdAddress x = Inl e
           \<and> commit (EscrowWithExpiry_acceptOffer c j busdAddress) x = x))"
proof (intro conjI impI allI ballI)
  show "snd (Escrow_acceptOffer_traced c i busdAddress s) = Escrow_acceptOffer c i busdAddress s"
    by (rule Escrow_acceptOffer_traced_result)
  show "snd (EscrowWithExpiry_acceptOffer_traced c j busdAddress x)
       = EscrowWithExpiry_acceptOffer c j busdAddress x"
    by (rule EscrowWithExpiry_acceptOffer_traced_result)
  show "\<not> active (getOffer i (storage_seen e))"
    if "e \<in> set (fst (Escrow_acceptOffer_traced c i busdAddress s))" for e
    using that by (rule Escrow_acceptOffer_traced_seen)
  show "\<not> active (getOffer j (storage_seen e))"
    if "e \<in> set (fst (EscrowWithExpiry_acceptOffer_traced c j busdAddress x))" for e
    using that by (rule EscrowWithExpiry_acceptOffer_traced_seen)
  show "commit (Escrow_acceptOffer c i busdAddress) s = s"
    if "Escrow_acceptOffer c i busdAddress s = Inl e" for e
    using that by (rule commit_Inl)
  show "commit (EscrowWithExpiry_acceptOffer c j busdAddress) x = x"
    if "EscrowWithExpiry_acceptOffer c j busdAddress x = Inl e" for e
    using that by (rule commit_Inl)
next
  assume a: "\<not> paused s \<and> active (offers s i) \<and> msg_sender c = buyer (offers s i) \<and> busdAddress \<noteq> 0"
  then have eq: "Escrow_acceptOffer c i busdAddress s =
          (case payQuote c i busdAddress (markInactive i s) of
             Inl e \<Rightarrow> Inl e
           | Inr s2 \<Rightarrow> releaseTo (msg_sender c) i s2)"
    by (simp add: Escrow_acceptOffer_effects)
  from a show "fst (Escrow_acceptOffer_traced c i busdAddress s) =
           \<lparr>callee = busdAddress,
             call_data = CallTransferFrom (msg_sender c) (seller (offers s i)) (priceInBUSD (offers s i)),
             storage_seen = markInactive i s\<rparr>
           # (case safeTransferFrom busdAddress (this_address s) (msg_sender c) (seller (offers s i))
                     (priceInBUSD (offers s i)) (ledger s) of
                Inl e \<Rightarrow> []
              | Inr l1 \<Rightarrow>
                  [\<lparr>callee = tokenAddress (offers s i),
                     call_data = CallTransfer (msg_sender c) (amount (offers s i)),
                     storage_seen = (markInactive i s)\<lparr>ledger := l1\<rparr>\<rparr>])"
    by (intro Escrow_acceptOffer_traced_calls) simp_all
  {
    fix s' assume "Escrow_acceptOffer c i busdAddress s = Inr s'"
    then show "\<exists>l1. safeTransferFrom busdAddress (this_address s) (msg_sender c) (seller (offers s i))
                    (priceInBUSD (offers s i)) (ledger s) = Inr l1
               \<and> safeTransfer (tokenAddress (offers s i)) (this_address s) (msg_sender c)
                    (amount (offers s i)) l1 = Inr (ledger s')
               \<and> s' = (markInactive i s)\<lparr>ledger := ledger s'\<rparr>"
      unfolding eq by (rule settle_order)
  }
  {
    fix e assume f: "safeTransferFrom busdAddress (this_address s) (msg_sender c) (seller (offers s i))
                (priceInBUSD (offers s i)) (ledger s) = Inl e"
    show r: "Escrow_acceptOffer c i busdAddress s = Inl e"
      unfolding eq using f by (rule settle_payment_fails)
    show "commit (Escrow_acceptOffer c i busdAddress) s = s"
      using r by (rule commit_Inl)
  }
next
  assume a: "\<not> paused x \<and> active (offers x j) \<and> msg_sender c = buyer (offers x j) \<and> busdAddress \<noteq> 0
       \<and> block_timestamp c \<le> expiresAt (offers x j)"
  then have eq: "EscrowWithExpiry_acceptOffer c j busdAddress x =
          (case payQuote c j busdAddress (markInactive j x) of
             Inl e \<Rightarrow> Inl e
           | Inr x2 \<Rightarrow> releaseTo (msg_sender c) j x2)"
    by (simp add: EscrowWithExpiry_acceptOffer_effects)
  from a show "fst (EscrowWithExpiry_acceptOffer_traced c j busdAddress x) =
           \<lparr>callee = busdAddress,
             call_data = CallTransferFrom (msg_sender c) (seller (offers x j)) (priceInBUSD (offers x j)),
             storage_seen = markInactive j x\<rparr>
           # (case safeTransferFrom busdAddress (this_address x) (msg_sender c) (seller (offers x j))
                     (priceInBUSD (offers x j)) (ledger x) of
                Inl e \<Rightarrow> []
              | Inr l1 \<Rightarrow>
                  [\<lparr>callee = tokenAddress (offers x j),
                     call_data = CallTransfer (msg_sender c) (amount (offers x j)),
                     storage_seen = (markInactive j x)\<lparr>ledger := l1\<rparr>\<rparr>])"
    by (intro EscrowWithExpiry_acceptOffer_traced_calls) simp_all
  {
    fix x' assume "EscrowWithExpiry_acceptOffer c j busdAddress x = Inr x'"
    then show "\<exists>l1. safeTransferFrom busdAddress (this_address x) (msg_sender c) (seller (offers x j))
                    (priceInBUSD (offers x j)) (ledger x) = Inr l1
               \<and> safeTransfer (tokenAddress (offers x j)) (this_address x) (msg_sender c)
                    (amount (offers x j)) l1 = Inr (ledger x')
               \<and> x' = (markInactive j x)\<lparr>ledger := ledger x'\<rparr>"
      unfolding eq by (rule settle_order)
  }
  {
    fix e assume f: "safeTransferFrom busdAddress (this_address x) (msg_sender c) (seller (offers x j))
                (priceInBUSD (offers x j)) (ledger x) = Inl e"
    show r: "EscrowWithExpiry_acceptOffer c j busdAddress x = Inl e"
      unfolding eq using f by (rule settle_payment_fails)
    show "commit (EscrowWithExpiry_acceptOffer c j busdAddress) x = x"
      using r by (rule commit_Inl)
  }
qed

lemma ex_Escrow_facts:
  "offers ex_Escrow 0 = \<lparr>offerId = 0, seller = 11, buyer = 12, tokenAddress = 30, amount = 100,
      priceInBUSD = 250, active = True, createdAt = 1000\<rparr>"
  "\<not> paused ex_Escrow" "this_address ex_Escrow = 20" "offerIdCounter ex_Escrow = 1"
  by (simp_all add: example_defs units ledger_defs Let_def)

lemma ex_EscrowWithExpiry_facts:
  "offers ex_EscrowWithExpiry 0 = \<lparr>offerId = 0, seller = 11, buyer = 12, tokenAddress = 30, amount = 100,
      priceInBUSD = 250, active = True, createdAt = 1000, expiresAt = 1900\<rparr>"
  "\<not> paused ex_EscrowWithExpiry" "this_address ex_EscrowWithExpiry = 20" "offerIdCounter ex_EscrowWithExpiry = 1"
  by (simp_all add: example_defs units ledger_defs Let_def)

lemmas trace_defs = Escrow_acceptOffer_traced_def EscrowWithExpiry_acceptOffer_traced_def
  execute_def settlement_def store_def call_token_def perform_def markInactive_def getOffer_def

lemma calls_seen_inactive:
  assumes "\<forall>e \<in> set es. \<not> active (getOffer i (storage_seen e))"
  shows "map (\<lambda>e. (callee e, call_data e, active (getOffer i (storage_seen e)))) es
      = map (\<lambda>(a, d). (a, d, False)) (map (\<lambda>e. (callee e, call_data e)) es)"
  using assms by (induction es) simp_all

theorem C1_acceptOffer_witness:
  "Escrow_acceptOffer (call_at 12 1100) 0 32 ex_Escrow = Inl ERC20InsufficientAllowance
   \<and> commit (Escrow_acceptOffer (call_at 12 1100) 0 32) ex_Escrow = ex_Escrow
   \<and> active (offers ex_Escrow 0)
   \<and> map (\<lambda>e. (callee e, call_data e, active (getOffer 0 (storage_seen e))))
        (fst (Escrow_acceptOffer_traced (call_at 12 1100) 0 32 ex_Escrow))
       = [(32, CallTransferFrom 12 11 250, False)]
   \<and> EscrowWithExpiry_acceptOffer (call_at 12 1100) 0 32 ex_EscrowWithExpiry = Inl ERC20InsufficientAllowance
   \<and> commit (EscrowWithExpiry_acceptOffer (call_at 12 1100) 0 32) ex_EscrowWithExpiry = ex_EscrowWithExpiry
   \<and> active (offers ex_EscrowWithExpiry 0)
   \<and> map (\<lambda>e. (callee e, call_data e, active (getOffer 0 (storage_seen e))))
        (fst (EscrowWithExpiry_acceptOffer_traced (call_at 12 1100) 0 32 ex_EscrowWithExpiry))
       = [(32, CallTransferFrom 12 11 250, False)]
   \<and> (\<exists>s'. Escrow_acceptOffer (call_at 12 1100) 0 31 ex_Escrow = Inr s'
          \<and> snd (Escrow_acceptOffer_traced (call_at 12 1100) 0 31 ex_Escrow) = Inr s'
          \<and> \<not> active (offers s' 0)
          \<and> balanceOf (ledger s') 31 11 = 250 \<and> balanceOf (ledger s') 31 12 = 750
          \<and> balanceOf (ledger s') 30 12 = 100 \<and> balanceOf (ledger s') 30 20 = 0)
   \<and> map (\<lambda>e. (callee e, call_data e, active (getOffer 0 (storage_seen e))))
        (fst (Escrow_acceptOffer_traced (call_at 12 1100) 0 31 ex_Escrow))
       = [(31, CallTransferFrom 12 11 250, False), (30, CallTransfer 12 100, False)]
   \<and> (\<exists>x'. EscrowWithExpiry_acceptOffer (call_at 12 1100) 0 31 ex_EscrowWithExpiry = Inr x'
          \<and> snd (EscrowWithExpiry_acceptOffer_traced (call_at 12 1100) 0 31 ex_EscrowWithExpiry) = Inr x'
          \<and> \<not> active (offers x' 0)
          \<and> balanceOf (ledger x') 31 11 = 250 \<and> balanceOf (ledger x') 31 12 = 750
          \<and> balanceOf (ledger x') 30 12 = 100 \<and> balanceOf (ledger x') 30 20 = 0)
   \<and> map (\<lambda>e. (callee e, call_data e, active (getOffer 0 (storage_seen e))))
        (fst (EscrowWithExpiry_acceptOffer_traced (call_at 12 1100) 0 31 ex_EscrowWithExpiry))
       = [(31, CallTransferFrom 12 11 250, False), (30, CallTransfer 12 100, False)]"
proof -
  note fails = C1_acceptOffer_flips_then_pays_then_releases
    [of "call_at 12 1100" 0 32 ex_Escrow 0 ex_EscrowWithExpiry]
  note passes = C1_acceptOffer_flips_then_pays_then_releases
    [of "call_at 12 1100" 0 31 ex_Escrow 0 ex_EscrowWithExpiry]
  note fails_E = fails [THEN conjunct2, THEN conjunct2, THEN conjunct2, THEN conjunct1]
  note fails_X = fails [THEN conjunct2, THEN conjunct2, THEN conjunct2, THEN conjunct2,
      THEN conjunct2, THEN conjunct2, THEN conjunct2]
  note seen_E = passes [THEN conjunct2, THEN conjunct1]
  note seen_X = passes [THEN conjunct2, THEN conjunct2, THEN conjunct2, THEN conjunct2,
      THEN conjunct2, THEN conjunct1]
  note seen_fE = fails [THEN conjunct2, THEN conjunct1]
  note seen_fX = fails [THEN conjunct2, THEN conjunct2, THEN conjunct2, THEN conjunct2,
      THEN conjunct2, THEN conjunct1]
  have pay_E: "safeTransferFrom 32 (this_address ex_Escrow) (msg_sender (call_at 12 1100))
                 (seller (offers ex_Escrow 0)) (priceInBUSD (offers ex_Escrow 0)) (ledger ex_Escrow)
               = Inl ERC20InsufficientAllowance"
    by (simp add: example_defs units ledger_defs Let_def)
  have pay_X: "safeTransferFrom 32 (this_address ex_EscrowWithExpiry) (msg_sender (call_at 12 1100))
                 (seller (offers ex_EscrowWithExpiry 0)) (priceInBUSD (offers ex_EscrowWithExpiry 0))
                 (ledger ex_EscrowWithExpiry)
               = Inl ERC20InsufficientAllowance"
    by (simp add: example_defs units ledger_defs Let_def)
  have hyp_E: "\<not> paused ex_Escrow \<and> active (offers ex_Escrow 0)
       \<and> msg_sender (call_at 12 1100) = buyer (offers ex_Escrow 0) \<and> (32::nat) \<noteq> 0"
    by (simp add: ex_Escrow_facts call_at_def)
  have hyp_X: "\<not> paused ex_EscrowWithExpiry \<and> active (offers ex_EscrowWithExpiry 0)
       \<and> msg_sender (call_at 12 1100) = buyer (offers ex_EscrowWithExpiry 0) \<and> (32::nat) \<noteq> 0
       \<and> block_timestamp (call_at 12 1100) \<le> expiresAt (offers ex_EscrowWithExpiry 0)"
    by (simp add: ex_EscrowWithExpiry_facts call_at_def)
  from fails_E [THEN mp, OF hyp_E] pay_E
  have f1: "Escrow_acceptOffer (call_at 12 1100) 0 32 ex_Escrow = Inl ERC20InsufficientAllowance
     \<and> commit (Escrow_acceptOffer (call_at 12 1100) 0 32) ex_Escrow = ex_Escrow"
    by blast
  from fails_X [THEN mp, OF hyp_X] pay_X
  have f2: "EscrowWithExpiry_acceptOffer (call_at 12 1100) 0 32 ex_EscrowWithExpiry = Inl ERC20InsufficientAllowance
     \<and> commit (EscrowWithExpiry_acceptOffer (call_at 12 1100) 0 32) ex_EscrowWithExpiry = ex_EscrowWithExpiry"
    by blast
  have calls_fE: "map (\<lambda>e. (callee e, call_data e))
        (fst (Escrow_acceptOffer_traced (call_at 12 1100) 0 32 ex_Escrow))
       = [(32, CallTransferFrom 12 11 250)]"
    by (simp add: trace_defs example_defs units ledger_defs Let_def)
  have calls_fX: "map (\<lambda>e. (callee e, call_data e))
        (fst (EscrowWithExpiry_acceptOffer_traced (call_at 12 1100) 0 32 ex_EscrowWithExpiry))
       = [(32, CallTransferFrom 12 11 250)]"
    by (simp add: trace_defs example_defs units ledger_defs Let_def)
  have calls_E: "map (\<lambda>e. (callee e, call_data e))
        (fst (Escrow_acceptOffer_traced (call_at 12 1100) 0 31 ex_Escrow))
       = [(31, CallTransferFrom 12 11 250), (30, CallTransfer 12 100)]"
    by (simp add: trace_defs example_defs units ledger_defs Let_def)
  have calls_X: "map (\<lambda>e. (callee e, call_data e))
        (fst (EscrowWithExpiry_acceptOffer_traced (call_at 12 1100) 0 31 ex_EscrowWithExpiry))
       = [(31, CallTransferFrom 12 11 250), (30, CallTransfer 12 100)]"
    by (simp add: trace_defs example_defs units ledger_defs Let_def)
  have t1: "map (\<lambda>e. (callee e, call_data e, active (getOffer 0 (storage_seen e))))
        (fst (Escrow_acceptOffer_traced (call_at 12 1100) 0 32 ex_Escrow))
       = [(32, CallTransferFrom 12 11 250, False)]"
    using calls_seen_inactive [OF seen_fE] calls_fE by simp
  have t2: "map (\<lambda>e. (callee e, call_data e, active (getOffer 0 (storage_seen e))))
        (fst (EscrowWithExpiry_acceptOffer_traced (call_at 12 1100) 0 32 ex_EscrowWithExpiry))
       = [(32, CallTransferFrom 12 11 250, False)]"
    using calls_seen_inactive [OF seen_fX] calls_fX by simp
  have t3: "map (\<lambda>e. (callee e, call_data e, active (getOffer 0 (storage_seen e))))
        (fst (Escrow_acceptOffer_traced (call_at 12 1100) 0 31 ex_Escrow))
       = [(31, CallTransferFrom 12 11 250, False), (30, CallTransfer 12 100, False)]"
    using calls_seen_inactive [OF seen_E] calls_E by simp
  have t4: "map (\<lambda>e. (callee e, call_data e, active (getOffer 0 (storage_seen e))))
        (fst (EscrowWithExpiry_acceptOffer_traced (call_at 12 1100) 0 31 ex_EscrowWithExpiry))
       = [(31, CallTransferFrom 12 11 250, False), (30, CallTransfer 12 100, False)]"
    using calls_seen_inactive [OF seen_X] calls_X by simp
  have w1: "\<exists>s'. Escrow_acceptOffer (call_at 12 1100) 0 31 ex_Escrow = Inr s'
          \<and> \<not> active (offers s' 0)
          \<and> balanceOf (ledger s') 31 11 = 250 \<and> balanceOf (ledger s') 31 12 = 750
          \<and> balanceOf (ledger s') 30 12 = 100 \<and> balanceOf (ledger s') 30 20 = 0"
    by (simp add: Escrow_acceptOffer_def payQuote_def releaseTo_def markInactive_def
          example_defs units ledger_defs Let_def)
  have w2: "\<exists>x'. EscrowWithExpiry_acceptOffer (call_at 12 1100) 0 31 ex_EscrowWithExpiry = Inr x'
          \<and> \<not> active (offers x' 0)
          \<and> balanceOf (ledger x') 31 11 = 250 \<and> balanceOf (ledger x') 31 12 = 750
          \<and> balanceOf (ledger x') 30 12 = 100 \<and> balanceOf (ledger x') 30 20 = 0"
    by (simp add: EscrowWithExpiry_acceptOffer_def payQuote_def releaseTo_def markInactive_def
          example_defs units ledger_defs Let_def)
  note r_E = passes [THEN conjunct1]
  note r_X = passes [THEN conjunct2, THEN conjunct2, THEN conjunct2, THEN conjunct2, THEN conjunct1]
  from w1 r_E have w1': "\<exists>s'. Escrow_acceptOffer (call_at 12 1100) 0 31 ex_Escrow = Inr s'
          \<and> snd (Escrow_acceptOffer_traced (call_at 12 1100) 0 31 ex_Escrow) = Inr s'
          \<and> \<not> active (offers s' 0)
          \<and> balanceOf (ledger s') 31 11 = 250 \<and> balanceOf (ledger s') 31 12 = 750
          \<and> balanceOf (ledger s') 30 12 = 100 \<and> balanceOf (ledger s') 30 20 = 0"
    by auto
  from w2 r_X have w2': "\<exists>x'. EscrowWithExpiry_acceptOffer (call_at 12 1100) 0 31 ex_EscrowWithExpiry = Inr x'
          \<and> snd (EscrowWithExpiry_acceptOffer_traced (call_at 12 1100) 0 31 ex_EscrowWithExpiry) = Inr x'
          \<and> \<not> active (offers x' 0)
          \<and> balanceOf (ledger x') 31 11 = 250 \<and> balanceOf (ledger x') 31 12 = 750
          \<and> balanceOf (ledger x') 30 12 = 100 \<and> balanceOf (ledger x') 30 20 = 0"
    by auto
  have a1: "active (offers ex_Escrow 0)" "active (offers ex_EscrowWithExpiry 0)"
    by (simp_all add: ex_Escrow_facts ex_EscrowWithExpiry_facts)
  from f1 f2 a1 t1 t2 t3 t4 w1' w2' show ?thesis by blast
qed

section \<open>What a call that returns has done\<close>

lemma Escrow_createOffer_Inr:
  assumes "Escrow_createOffer c token amt price designated s = Inr (i, s')"
  shows "i = offerIdCounter s"
    and "offerIdCounter s' = offerIdCounter s + 1"
    and "offers s' = (offers s)(offerIdCounter s :=
           \<lparr>offerId = offerIdCounter s, seller = msg_sender c, buyer = designated,
            tokenAddress = token, amount = amt, priceInBUSD = price,
            active = True, createdAt = block_timestamp c\<rparr>)"
    and "paused s' = paused s" and "owner s' = owner s" and "this_address s' = this_address s"
    and "safeTransferFrom token (this_address s) (msg_sender c) (this_address s) amt (ledger s)
           = Inr (ledger s')"
    and "lastOfferTime s' = (lastOfferTime s)(msg_sender c := block_timestamp c)"
    and "dailyOfferCount s' = (dailyOfferCount s)(msg_sender c :=
           (if block_timestamp c \<ge> lastOfferTime s (msg_sender c) + days 1
            then 0 else dailyOfferCount s (msg_sender c)) + 1)"
    and "(if block_timestamp c \<ge> lastOfferTime s (msg_sender c) + days 1
            then 0 else dailyOfferCount s (msg_sender c)) < MAX_OFFERS_PER_DAY"
    and "\<not> paused s" and "token \<noteq> 0" and "0 < amt" and "0 < price"
    and "designated \<noteq> 0" and "designated \<noteq> msg_sender c"
    and "lastOfferTime s (msg_sender c) + OFFER_COOLDOWN \<le> block_timestamp c"
  using assms
  by (auto simp add: Escrow_createOffer_def Let_def split: if_splits sum.splits)

lemma EscrowWithExpiry_createOffer_Inr:
  assumes "EscrowWithExpiry_createOffer c token amt price designated s = Inr (i, s')"
  shows "i = offerIdCounter s"
    and "offerIdCounter s' = offerIdCounter s + 1"
    and "offers s' = (offers s)(offerIdCounter s :=
           \<lparr>offerId = offerIdCounter s, seller = msg_sender c, buyer = designated,
            tokenAddress = token, amount = amt, priceInBUSD = price,
            active = True, createdAt = block_timestamp c,
            expiresAt = block_timestamp c + offerExpiryTime s\<rparr>)"
    and "paused s' = paused s" and "owner s' = owner s" and "this_address s' = this_address s"
    and "offerExpiryTime s' = offerExpiryTime s"
    and "safeTransferFrom token (this_address s) (msg_sender c) (this_address s) amt (ledger s)
           = Inr (ledger s')"
    and "lastOfferTime s' = (lastOfferTime s)(msg_sender c := block_timestamp c)"
    and "dailyOfferCount s' = (dailyOfferCount s)(msg_sender c :=
           (if block_timestamp c \<ge> lastOfferTime s (msg_sender c) + days 1
            then 0 else dailyOfferCount s (msg_sender c)) + 1)"
    and "(if block_timestamp c \<ge> lastOfferTime s (msg_sender c) + days 1
            then 0 else dailyOfferCount s (msg_sender c)) < MAX_OFFERS_PER_DAY"
    and "\<not> paused s" and "token \<noteq> 0" and "0 < amt" and "0 < price"
    and "designated \<noteq> 0" and "designated \<noteq> msg_sender c"
    and "lastOfferTime s (msg_sender c) + OFFER_COOLDOWN \<le> block_timestamp c"
  using assms
  by (auto simp add: EscrowWithExpiry_createOffer_def Let_def split: if_splits sum.splits)

lemma release_after_mark_Inr:
  assumes "releaseTo recipient i (markInactive i s) = Inr s'"
  shows "s' = (markInactive i s)\<lparr>ledger := ledger s'\<rparr>"
    and "safeTransfer (tokenAddress (offers s i)) (this_address s) recipient
           (amount (offers s i)) (ledger s) = Inr (ledger s')"
  using releaseTo_Inr [OF assms] by (simp_all add: markInactive_simps)

lemma closed_state_simps:
  assumes "s' = (markInactive i s)\<lparr>ledger := l\<rparr>"
  shows "offers s' = (offers s)(i := (offers s i)\<lparr>active := False\<rparr>)"
    and "offerIdCounter s' = offerIdCounter s"
    and "lastOfferTime s' = lastOfferTime s"
    and "dailyOfferCount s' = dailyOfferCount s"
    and "paused s' = paused s" and "owner s' = owner s" and "this_address s' = this_address s"
  using assms by (simp_all add: markInactive_def)

lemma Escrow_acceptOffer_Inr:
  assumes "Escrow_acceptOffer c i busdAddress s = Inr s'"
  shows "\<not> paused s" and "active (offers s i)" and "msg_sender c = buyer (offers s i)"
    and "busdAddress \<noteq> 0"
    and "s' = (markInactive i s)\<lparr>ledger := ledger s'\<rparr>"
    and "\<exists>l1. safeTransferFrom busdAddress (this_address s) (msg_sender c) (seller (offers s i))
                 (priceInBUSD (offers s i)) (ledger s) = Inr l1
           \<and> safeTransfer (tokenAddress (offers s i)) (this_address s) (msg_sender c)
                 (amount (offers s i)) l1 = Inr (ledger s')"
proof -
  from assms show g: "\<not> paused s" "active (offers s i)" "msg_sender c = buyer (offers s i)"
    "busdAddress \<noteq> 0"
    by (auto simp add: Escrow_acceptOffer_def split: if_splits)
  from assms have "(case payQuote c i busdAddress (markInactive i s) of
              Inl e \<Rightarrow> Inl e
            | Inr s2 \<Rightarrow> releaseTo (msg_sender c) i s2) = Inr s'"
    using g by (simp add: Escrow_acceptOffer_def)
  from settle_order [OF this]
  show "s' = (markInactive i s)\<lparr>ledger := ledger s'\<rparr>"
    and "\<exists>l1. safeTransferFrom busdAddress (this_address s) (msg_sender c) (seller (offers s i))
                 (priceInBUSD (offers s i)) (ledger s) = Inr l1
           \<and> safeTransfer (tokenAddress (offers s i)) (this_address s) (msg_sender c)
                 (amount (offers s i)) l1 = Inr (ledger s')"
    by blast+
qed

lemma EscrowWithExpiry_acceptOffer_Inr:
  assumes "EscrowWithExpiry_acceptOffer c i busdAddress s = Inr s'"
  shows "\<not> paused s" and "active (offers s i)" and "msg_sender c = buyer (offers s i)"
    and "busdAddress \<noteq> 0" and "block_timestamp c \<le> expiresAt (offers s i)"
    and "s' = (markInactive i s)\<lparr>ledger := ledger s'\<rparr>"
    and "\<exists>l1. safeTransferFrom busdAddress (this_address s) (msg_sender c) (seller (offers s i))
                 (priceInBUSD (offers s i)) (ledger s) = Inr l1
           \<and> safeTransfer (tokenAddress (offers s i)) (this_address s) (msg_sender c)
                 (amount (offers s i)) l1 = Inr (ledger s')"
proof -
  from assms show g: "\<not> paused s" "active (offers s i)" "msg_sender c = buyer (offers s i)"
    "busdAddress \<noteq> 0" "block_timestamp c \<le> expiresAt (offers s i)"
    by (auto simp add: EscrowWithExpiry_acceptOffer_def split: if_splits)
  from assms have "(case payQuote c i busdAddress (markInactive i s) of
              Inl e \<Rightarrow> Inl e
            | Inr s2 \<Rightarrow> releaseTo (msg_sender c) i s2) = Inr s'"
    using g by (simp add: EscrowWithExpiry_acceptOffer_def)
  from settle_order [OF this]
  show "s' = (markInactive i s)\<lparr>ledger := ledger s'\<rparr>"
    and "\<exists>l1. safeTransferFrom busdAddress (this_address s) (msg_sender c) (seller (offers s i))
                 (priceInBUSD (offers s i)) (ledger s) = Inr l1
           \<and> safeTransfer (tokenAddress (offers s i)) (this_address s) (msg_sender c)
                 (amount (offers s i)) l1 = Inr (ledger s')"
    by blast+
qed

lemma Escrow_cancelOffer_Inr:
  assumes "Escrow_cancelOffer c i s = Inr s'"
  shows "\<not> paused s" and "active (offers s i)" and "msg_sender c = seller (offers s i)"
    and "s' = (markInactive i s)\<lparr>ledger := ledger s'\<rparr>"
    and "safeTransfer (tokenAddress (offers s i)) (this_address s) (msg_sender c)
           (amount (offers s i)) (ledger s) = Inr (ledger s')"
proof -
  from assms show g: "\<not> paused s" "active (offers s i)" "msg_sender c = seller (offers s i)"
    by (auto simp add: Escrow_cancelOffer_def split: if_splits)
  from assms g have "releaseTo (msg_sender c) i (markInactive i s) = Inr s'"
    by (simp add: Escrow_cancelOffer_def)
  from release_after_mark_Inr [OF this]
  show "s' = (markInactive i s)\<lparr>ledger := ledger s'\<rparr>"
    and "safeTransfer (tokenAddress (offers s i)) (this_address s) (msg_sender c)
           (amount (offers s i)) (ledger s) = Inr (ledger s')"
    by simp_all
qed

lemma EscrowWithExpiry_cancelOffer_Inr:
  assumes "EscrowWithExpiry_cancelOffer c i s = Inr s'"
  shows "\<not> paused s" and "active (offers s i)" and "msg_sender c = seller (offers s i)"
    and "s' = (markInactive i s)\<lparr>ledger := ledger s'\<rparr>"
    and "safeTransfer (tokenAddress (offers s i)) (this_address s) (msg_sender c)
           (amount (offers s i)) (ledger s) = Inr (ledger s')"
proof -
  from assms show g: "\<not> paused s" "active (offers s i)" "msg_sender c = seller (offers s i)"
    by (auto simp add: EscrowWithExpiry_cancelOffer_def split: if_splits)
  from assms g have "releaseTo (msg_sender c) i (markInactive i s) = Inr s'"
    by (simp add: EscrowWithExpiry_cancelOffer_def)
  from release_after_mark_Inr [OF this]
  show "s' = (markInactive i s)\<lparr>ledger := ledger s'\<rparr>"
    and "safeTransfer (tokenAddress (offers s i)) (this_address s) (msg_sender c)
           (amount (offers s i)) (ledger s) = Inr (ledger s')"
    by simp_all
qed

lemma EscrowWithExpiry_reclaimExpired_Inr:
  assumes "EscrowWithExpiry_reclaimExpired c i s = Inr s'"
  shows "active (offers s i)" and "expiresAt (offers s i) < block_timestamp c"
    and "s' = (markInactive i s)\<lparr>ledger := ledger s'\<rparr>"
    and "safeTransfer (tokenAddress (offers s i)) (this_address s) (seller (offers s i))
           (amount (offers s i)) (ledger s) = Inr (ledger s')"
proof -
  from assms show g: "active (offers s i)" "expiresAt (offers s i) < block_timestamp c"
    by (auto simp add: EscrowWithExpiry_reclaimExpired_def split: if_splits)
  from assms g have "releaseTo (seller (offers s i)) i (markInactive i s) = Inr s'"
    by (simp add: EscrowWithExpiry_reclaimExpired_def)
  from release_after_mark_Inr [OF this]
  show "s' = (markInactive i s)\<lparr>ledger := ledger s'\<rparr>"
    and "safeTransfer (tokenAddress (offers s i)) (this_address s) (seller (offers s i))
           (amount (offers s i)) (ledger s) = Inr (ledger s')"
    by simp_all
qed

section \<open>An offer closes at most once\<close>

text \<open>
  A transaction that returns does one of three things to the offers: nothing; it closes
  one active offer, clearing its flag and nothing else; or it writes a new active offer
  at the counter and increments the counter.
\<close>

lemma Escrow_step_kinds:
  assumes "Escrow_step c t s = Inr s'"
  shows "(offers s' = offers s \<and> offerIdCounter s' = offerIdCounter s \<and> (\<forall>j. \<not> E_closes j t))
       \<or> (\<exists>i. (\<forall>j. E_closes j t = (j = i)) \<and> active (offers s i)
              \<and> offers s' = (offers s)(i := (offers s i)\<lparr>active := False\<rparr>)
              \<and> offerIdCounter s' = offerIdCounter s)
       \<or> (\<exists>new. active new \<and> (\<forall>j. \<not> E_closes j t)
              \<and> offerIdCounter s' = offerIdCounter s + 1
              \<and> offers s' = (offers s)(offerIdCounter s := new))"
proof (cases t)
  case (E_createOffer token amt price designated)
  with assms obtain i where "Escrow_createOffer c token amt price designated s = Inr (i, s')"
    by (auto split: sum.splits)
  from Escrow_createOffer_Inr(2,3) [OF this] E_createOffer
  have "active (offers s' (offerIdCounter s)) \<and> (\<forall>j. \<not> E_closes j t)
          \<and> offerIdCounter s' = offerIdCounter s + 1
          \<and> offers s' = (offers s)(offerIdCounter s := offers s' (offerIdCounter s))"
    by simp
  then show ?thesis by blast
next
  case (E_acceptOffer i busdAddress)
  with assms have a: "Escrow_acceptOffer c i busdAddress s = Inr s'" by simp
  from Escrow_acceptOffer_Inr(2) [OF a] closed_state_simps(1,2) [OF Escrow_acceptOffer_Inr(5) [OF a]]
    E_acceptOffer
  show ?thesis by auto
next
  case (E_cancelOffer i)
  with assms have a: "Escrow_cancelOffer c i s = Inr s'" by simp
  from Escrow_cancelOffer_Inr(2) [OF a] closed_state_simps(1,2) [OF Escrow_cancelOffer_Inr(4) [OF a]]
    E_cancelOffer
  show ?thesis by auto
qed (use assms in \<open>auto simp add: pause_def unpause_def transferOwnership_def renounceOwnership_def
       Escrow_emergencyWithdraw_def Escrow_updateFee_def Escrow_updateFeeCollector_def
       split: if_splits sum.splits\<close>)

lemma EscrowWithExpiry_step_kinds:
  assumes "EscrowWithExpiry_step c t s = Inr s'"
  shows "(offers s' = offers s \<and> offerIdCounter s' = offerIdCounter s \<and> (\<forall>j. \<not> X_closes j t))
       \<or> (\<exists>i. (\<forall>j. X_closes j t = (j = i)) \<and> active (offers s i)
              \<and> offers s' = (offers s)(i := (offers s i)\<lparr>active := False\<rparr>)
              \<and> offerIdCounter s' = offerIdCounter s)
       \<or> (\<exists>new. active new \<and> (\<forall>j. \<not> X_closes j t)
              \<and> offerIdCounter s' = offerIdCounter s + 1
              \<and> offers s' = (offers s)(offerIdCounter s := new))"
proof (cases t)
  case (X_createOffer token amt price designated)
  with assms obtain i where "EscrowWithExpiry_createOffer c token amt price designated s = Inr (i, s')"
    by (auto split: sum.splits)
  from EscrowWithExpiry_createOffer_Inr(2,3) [OF this] X_createOffer
  have "active (offers s' (offerIdCounter s)) \<and> (\<forall>j. \<not> X_closes j t)
          \<and> offerIdCounter s' = offerIdCounter s + 1
          \<and> offers s' = (offers s)(offerIdCounter s := offers s' (offerIdCounter s))"
    by simp
  then show ?thesis by blast
next
  case (X_acceptOffer i busdAddress)
  with assms have a: "EscrowWithExpiry_acceptOffer c i busdAddress s = Inr s'" by simp
  from EscrowWithExpiry_acceptOffer_Inr(2) [OF a]
    closed_state_simps(1,2) [OF EscrowWithExpiry_acceptOffer_Inr(6) [OF a]] X_acceptOffer
  show ?thesis by auto
next
  case (X_cancelOffer i)
  with assms have a: "EscrowWithExpiry_cancelOffer c i s = Inr s'" by simp
  from EscrowWithExpiry_cancelOffer_Inr(2) [OF a]
    closed_state_simps(1,2) [OF EscrowWithExpiry_cancelOffer_Inr(4) [OF a]] X_cancelOffer
  show ?thesis by auto
next
  case (X_reclaimExpired i)
  with assms have a: "EscrowWithExpiry_reclaimExpired c i s = Inr s'" by simp
  from EscrowWithExpiry_reclaimExpired_Inr(1) [OF a]
    closed_state_simps(1,2) [OF EscrowWithExpiry_reclaimExpired_Inr(3) [OF a]] X_reclaimExpired
  show ?thesis by auto
qed (use assms in \<open>auto simp add: pause_def unpause_def transferOwnership_def renounceOwnership_def
       EscrowWithExpiry_emergencyWithdraw_def EscrowWithExpiry_updateExpiryTime_def
       split: if_splits sum.splits\<close>)

text \<open>
  An offer at or beyond the counter has never been written, so it is not active; this
  holds after the constructor and every transaction keeps it.
\<close>

lemma Escrow_step_unwritten_inactive:
  assumes "\<forall>j \<ge> offerIdCounter s. \<not> active (offers s j)" "Escrow_step c t s = Inr s'"
  shows "\<forall>j \<ge> offerIdCounter s'. \<not> active (offers s' j)"
  using Escrow_step_kinds [OF assms(2)] assms(1) by (auto split: if_splits)

lemma EscrowWithExpiry_step_unwritten_inactive:
  assumes "\<forall>j \<ge> offerIdCounter s. \<not> active (offers s j)" "EscrowWithExpiry_step c t s = Inr s'"
  shows "\<forall>j \<ge> offerIdCounter s'. \<not> active (offers s' j)"
  using EscrowWithExpiry_step_kinds [OF assms(2)] assms(1) by (auto split: if_splits)

lemma Escrow_step_closed_stays_closed:
  assumes "i < offerIdCounter s" "\<not> active (offers s i)" "Escrow_step c t s = Inr s'"
  shows "i < offerIdCounter s' \<and> \<not> active (offers s' i)"
  using Escrow_step_kinds [OF assms(3)] assms(1,2) by (auto split: if_splits)

lemma EscrowWithExpiry_step_closed_stays_closed:
  assumes "i < offerIdCounter s" "\<not> active (offers s i)" "EscrowWithExpiry_step c t s = Inr s'"
  shows "i < offerIdCounter s' \<and> \<not> active (offers s' i)"
  using EscrowWithExpiry_step_kinds [OF assms(3)] assms(1,2) by (auto split: if_splits)

lemma Escrow_closings_bound:
  assumes "\<forall>j \<ge> offerIdCounter s. \<not> active (offers s j)"
  shows "Escrow_closings i txs s \<le> (if i < offerIdCounter s \<and> \<not> active (offers s i) then 0 else 1)"
  using assms
proof (induction txs arbitrary: s)
  case Nil
  show ?case by simp
next
  case (Cons ct rest)
  obtain c t where ct: "ct = (c, t)" by (cases ct)
  show ?case
  proof (cases "Escrow_step c t s")
    case (Inl e)
    with Cons.IH [OF Cons.prems] ct show ?thesis by simp
  next
    case (Inr s')
    have inv': "\<forall>j \<ge> offerIdCounter s'. \<not> active (offers s' j)"
      using Cons.prems Inr by (rule Escrow_step_unwritten_inactive)
    note ih = Cons.IH [OF inv']
    show ?thesis
    proof (cases "E_closes i t")
      case True
      with Escrow_step_kinds [OF Inr]
      have act: "active (offers s i)" and ina: "\<not> active (offers s' i)"
        and cnt: "offerIdCounter s' = offerIdCounter s"
        by auto
      from act Cons.prems have "i < offerIdCounter s" by (meson not_le)
      with cnt ina ih have "Escrow_closings i rest s' = 0" by simp
      with True Inr ct act show ?thesis by simp
    next
      case False
      have "Escrow_closings i rest s' \<le> (if i < offerIdCounter s \<and> \<not> active (offers s i) then 0 else 1)"
      proof (cases "i < offerIdCounter s \<and> \<not> active (offers s i)")
        case True
        with Escrow_step_closed_stays_closed [OF _ _ Inr, of i] ih show ?thesis by simp
      next
        case False
        from ih have "Escrow_closings i rest s' \<le> 1"
          by (cases "i < offerIdCounter s' \<and> \<not> active (offers s' i)") simp_all
        with False show ?thesis by auto
      qed
      with False Inr ct show ?thesis by simp
    qed
  qed
qed

lemma EscrowWithExpiry_closings_bound:
  assumes "\<forall>j \<ge> offerIdCounter s. \<not> active (offers s j)"
  shows "EscrowWithExpiry_closings i txs s \<le> (if i < offerIdCounter s \<and> \<not> active (offers s i) then 0 else 1)"
  using assms
proof (induction txs arbitrary: s)
  case Nil
  show ?case by simp
next
  case (Cons ct rest)
  obtain c t where ct: "ct = (c, t)" by (cases ct)
  show ?case
  proof (cases "EscrowWithExpiry_step c t s")
    case (Inl e)
    with Cons.IH [OF Cons.prems] ct show ?thesis by simp
  next
    case (Inr s')
    have inv': "\<forall>j \<ge> offerIdCounter s'. \<not> active (offers s' j)"
      using Cons.prems Inr by (rule EscrowWithExpiry_step_unwritten_inactive)
    note ih = Cons.IH [OF inv']
    show ?thesis
    proof (cases "X_closes i t")
      case True
      with EscrowWithExpiry_step_kinds [OF Inr]
      have act: "active (offers s i)" and ina: "\<not> active (offers s' i)"
        and cnt: "offerIdCounter s' = offerIdCounter s"
        by auto
      from act Cons.prems have "i < offerIdCounter s" by (meson not_le)
      with cnt ina ih have "EscrowWithExpiry_closings i rest s' = 0" by simp
      with True Inr ct act show ?thesis by simp
    next
      case False
      have "EscrowWithExpiry_closings i rest s' \<le> (if i < offerIdCounter s \<and> \<not> active (offers s i) then 0 else 1)"
      proof (cases "i < offerIdCounter s \<and> \<not> active (offers s i)")
        case True
        with EscrowWithExpiry_step_closed_stays_closed [OF _ _ Inr, of i] ih show ?thesis by simp
      next
        case False
        from ih have "EscrowWithExpiry_closings i rest s' \<le> 1"
          by (cases "i < offerIdCounter s' \<and> \<not> active (offers s' i)") simp_all
        with False show ?thesis by auto
      qed
      with False Inr ct show ?thesis by simp
    qed
  qed
qed

lemma inactive_offer_rejected:
  assumes "\<not> active (offers s i)"
  shows "Escrow_acceptOffer c i busdAddress s
           = Inl (if paused s then EnforcedPause else Revert ''Escrow: offer is not active'')"
    and "Escrow_cancelOffer c i s
           = Inl (if paused s then EnforcedPause else Revert ''Escrow: offer is not active'')"
  using assms by (simp_all add: Escrow_acceptOffer_def Escrow_cancelOffer_def)

lemma inactive_offer_rejected_expiry:
  assumes "\<not> active (offers x i)"
  shows "EscrowWithExpiry_acceptOffer c i busdAddress x
           = Inl (if paused x then EnforcedPause else Revert ''Offer is not active'')"
    and "EscrowWithExpiry_cancelOffer c i x
           = Inl (if paused x then EnforcedPause else Revert ''Offer is not active'')"
    and "EscrowWithExpiry_reclaimExpired c i x = Inl (Revert ''Offer is not active'')"
  using assms
  by (simp_all add: EscrowWithExpiry_acceptOffer_def EscrowWithExpiry_cancelOffer_def
        EscrowWithExpiry_reclaimExpired_def)

lemma Escrow_acceptOffer_closes:
  assumes "Escrow_acceptOffer c i busdAddress s = Inr s'"
  shows "active (offers s i) \<and> \<not> active (offers s' i)"
  using Escrow_acceptOffer_Inr(2) [OF assms]
    closed_state_simps(1) [OF Escrow_acceptOffer_Inr(5) [OF assms]]
  by simp

lemma Escrow_cancelOffer_closes:
  assumes "Escrow_cancelOffer c i s = Inr s'"
  shows "active (offers s i) \<and> \<not> active (offers s' i)"
  using Escrow_cancelOffer_Inr(2) [OF assms]
    closed_state_simps(1) [OF Escrow_cancelOffer_Inr(4) [OF assms]]
  by simp

lemma EscrowWithExpiry_acceptOffer_closes:
  assumes "EscrowWithExpiry_acceptOffer c i busdAddress s = Inr s'"
  shows "active (offers s i) \<and> \<not> active (offers s' i)"
  using EscrowWithExpiry_acceptOffer_Inr(2) [OF assms]
    closed_state_simps(1) [OF EscrowWithExpiry_acceptOffer_Inr(6) [OF assms]]
  by simp

lemma EscrowWithExpiry_cancelOffer_closes:
  assumes "EscrowWithExpiry_cancelOffer c i s = Inr s'"
  shows "active (offers s i) \<and> \<not> active (offers s' i)"
  using EscrowWithExpiry_cancelOffer_Inr(2) [OF assms]
    closed_state_simps(1) [OF EscrowWithExpiry_cancelOffer_Inr(4) [OF assms]]
  by simp

lemma EscrowWithExpiry_reclaimExpired_closes:
  assumes "EscrowWithExpiry_reclaimExpired c i s = Inr s'"
  shows "active (offers s i) \<and> \<not> active (offers s' i)"
  using EscrowWithExpiry_reclaimExpired_Inr(1) [OF assms]
    closed_state_simps(1) [OF EscrowWithExpiry_reclaimExpired_Inr(3) [OF assms]]
  by simp

lemma Escrow_closes_once_from_constructor:
  "Escrow_closings i txs (Escrow_constructor deployer this l) \<le> 1"
proof -
  have "\<forall>j \<ge> offerIdCounter (Escrow_constructor deployer this l).
          \<not> active (offers (Escrow_constructor deployer this l) j)"
    by (simp add: Escrow_constructor_def zero_Offer_def)
  from Escrow_closings_bound [OF this, of i txs] show ?thesis
    by (simp split: if_splits)
qed

lemma EscrowWithExpiry_closes_once_from_constructor:
  "EscrowWithExpiry_closings i txs (EscrowWithExpiry_constructor deployer this l) \<le> 1"
proof -
  have "\<forall>j \<ge> offerIdCounter (EscrowWithExpiry_constructor deployer this l).
          \<not> active (offers (EscrowWithExpiry_constructor deployer this l) j)"
    by (simp add: EscrowWithExpiry_constructor_def zero_OfferWithExpiry_def)
  from EscrowWithExpiry_closings_bound [OF this, of i txs] show ?thesis
    by (simp split: if_splits)
qed

text \<open>
  C2. From the constructor on, whatever the history, at most one call of \<open>acceptOffer\<close>,
  \<open>cancelOffer\<close> and \<open>reclaimExpired\<close> on an offer returns. Each such call finds the
  offer active and leaves it inactive. No transaction makes an offer that was created
  and is inactive active again. On an offer that is not active each of the three calls
  reverts, and the transaction leaves the state as it was: \<open>acceptOffer\<close> and
  \<open>cancelOffer\<close> revert with the not-active message, or with \<open>EnforcedPause\<close> while the
  contract is paused (the modifier runs first); \<open>reclaimExpired\<close> always with the
  not-active message.
\<close>

theorem C2_offer_closes_at_most_once:
  "Escrow_closings i txs (Escrow_constructor deployer this l) \<le> 1
   \<and> EscrowWithExpiry_closings i xtxs (EscrowWithExpiry_constructor deployer this l) \<le> 1
   \<and> (\<forall>s'. Escrow_acceptOffer c i busdAddress s = Inr s' \<or> Escrow_cancelOffer c i s = Inr s'
          \<longrightarrow> active (offers s i) \<and> \<not> active (offers s' i))
   \<and> (\<forall>x'. EscrowWithExpiry_acceptOffer c i busdAddress x = Inr x'
            \<or> EscrowWithExpiry_cancelOffer c i x = Inr x'
            \<or> EscrowWithExpiry_reclaimExpired c i x = Inr x'
          \<longrightarrow> active (offers x i) \<and> \<not> active (offers x' i))
   \<and> (\<forall>s'. i < offerIdCounter s \<and> \<not> active (offers s i) \<and> Escrow_step c t s = Inr s'
          \<longrightarrow> i < offerIdCounter s' \<and> \<not> active (offers s' i))
   \<and> (\<forall>x'. i < offerIdCounter x \<and> \<not> active (offers x i) \<and> EscrowWithExpiry_step c xt x = Inr x'
          \<longrightarrow> i < offerIdCounter x' \<and> \<not> active (offers x' i))
   \<and> (\<not> active (offers s i)
        \<longrightarrow> Escrow_acceptOffer c i busdAddress s
              = Inl (if paused s then EnforcedPause else Revert ''Escrow: offer is not active'')
          \<and> Escrow_cancelOffer c i s
              = Inl (if paused s then EnforcedPause else Revert ''Escrow: offer is not active'')
          \<and> commit (Escrow_acceptOffer c i busdAddress) s = s
          \<and> commit (Escrow_cancelOffer c i) s = s)
   \<and> (\<not> active (offers x i)
        \<longrightarrow> EscrowWithExpiry_acceptOffer c i busdAddress x
              = Inl (if paused x then EnforcedPause else Revert ''Offer is not active'')
          \<and> EscrowWithExpiry_cancelOffer c i x
              = Inl (if paused x then EnforcedPause else Revert ''Offer is not active'')
          \<and> EscrowWithExpiry_reclaimExpired c i x = Inl (Revert ''Offer is not active'')
          \<and> commit (EscrowWithExpiry_acceptOffer c i busdAddress) x = x
          \<and> commit (EscrowWithExpiry_cancelOffer c i) x = x
          \<and> commit (EscrowWithExpiry_reclaimExpired c i) x = x)"
proof (intro conjI allI impI)
  show "Escrow_closings i txs (Escrow_constructor deployer this l) \<le> 1"
    by (rule Escrow_closes_once_from_constructor)
  show "EscrowWithExpiry_closings i xtxs (EscrowWithExpiry_constructor deployer this l) \<le> 1"
    by (rule EscrowWithExpiry_closes_once_from_constructor)
next
  fix s' assume "Escrow_acceptOffer c i busdAddress s = Inr s' \<or> Escrow_cancelOffer c i s = Inr s'"
  then have "active (offers s i) \<and> \<not> active (offers s' i)"
    using Escrow_acceptOffer_closes Escrow_cancelOffer_closes by blast
  then show "active (offers s i)" and "\<not> active (offers s' i)" by simp_all
next
  fix x' assume "EscrowWithExpiry_acceptOffer c i busdAddress x = Inr x'
            \<or> EscrowWithExpiry_cancelOffer c i x = Inr x'
            \<or> EscrowWithExpiry_reclaimExpired c i x = Inr x'"
  then have "active (offers x i) \<and> \<not> active (offers x' i)"
    using EscrowWithExpiry_acceptOffer_closes EscrowWithExpiry_cancelOffer_closes
      EscrowWithExpiry_reclaimExpired_closes by blast
  then show "active (offers x i)" and "\<not> active (offers x' i)" by simp_all
next
  fix s' assume "i < offerIdCounter s \<and> \<not> active (offers s i) \<and> Escrow_step c t s = Inr s'"
  then have "i < offerIdCounter s' \<and> \<not> active (offers s' i)"
    using Escrow_step_closed_stays_closed by blast
  then show "i < offerIdCounter s'" and "\<not> active (offers s' i)" by simp_all
next
  fix x' assume "i < offerIdCounter x \<and> \<not> active (offers x i) \<and> EscrowWithExpiry_step c xt x = Inr x'"
  then have "i < offerIdCounter x' \<and> \<not> active (offers x' i)"
    using EscrowWithExpiry_step_closed_stays_closed by blast
  then show "i < offerIdCounter x'" and "\<not> active (offers x' i)" by simp_all
next
  assume n: "\<not> active (offers s i)"
  note r = inactive_offer_rejected(1) [OF n, where c = c and busdAddress = busdAddress]
    inactive_offer_rejected(2) [OF n, where c = c]
  show "Escrow_acceptOffer c i busdAddress s
          = Inl (if paused s then EnforcedPause else Revert ''Escrow: offer is not active'')"
    by (rule r(1))
  show "Escrow_cancelOffer c i s
          = Inl (if paused s then EnforcedPause else Revert ''Escrow: offer is not active'')"
    by (rule r(2))
  show "commit (Escrow_acceptOffer c i busdAddress) s = s"
    using r(1) by (rule commit_Inl)
  show "commit (Escrow_cancelOffer c i) s = s"
    using r(2) by (rule commit_Inl)
next
  assume n: "\<not> active (offers x i)"
  note r = inactive_offer_rejected_expiry(1) [OF n, where c = c and busdAddress = busdAddress]
    inactive_offer_rejected_expiry(2) [OF n, where c = c]
    inactive_offer_rejected_expiry(3) [OF n, where c = c]
  show "EscrowWithExpiry_acceptOffer c i busdAddress x
          = Inl (if paused x then EnforcedPause else Revert ''Offer is not active'')"
    by (rule r(1))
  show "EscrowWithExpiry_cancelOffer c i x
          = Inl (if paused x then EnforcedPause else Revert ''Offer is not active'')"
    by (rule r(2))
  show "EscrowWithExpiry_reclaimExpired c i x = Inl (Revert ''Offer is not active'')"
    by (rule r(3))
  show "commit (EscrowWithExpiry_acceptOffer c i busdAddress) x = x"
    using r(1) by (rule commit_Inl)
  show "commit (EscrowWithExpiry_cancelOffer c i) x = x"
    using r(2) by (rule commit_Inl)
  show "commit (EscrowWithExpiry_reclaimExpired c i) x = x"
    using r(3) by (rule commit_Inl)
qed

lemmas step_defs = Escrow_acceptOffer_def Escrow_cancelOffer_def EscrowWithExpiry_acceptOffer_def
  EscrowWithExpiry_cancelOffer_def EscrowWithExpiry_reclaimExpired_def payQuote_def releaseTo_def
  markInactive_def

lemma ex_closed_facts:
  "\<not> active (offers ex_Escrow_closed 0)" "\<not> paused ex_Escrow_closed"
  "\<not> active (offers ex_EscrowWithExpiry_closed 0)" "\<not> paused ex_EscrowWithExpiry_closed"
  by (simp_all add: ex_Escrow_closed_def ex_EscrowWithExpiry_closed_def step_defs example_defs
        units ledger_defs Let_def)

lemma ex_history_closings:
  "Escrow_closings 0 ex_history (Escrow_constructor 10 20 ex_ledger) = 1"
  "EscrowWithExpiry_closings 0 ex_history_expiry (EscrowWithExpiry_constructor 10 20 ex_ledger) = 1"
  by (simp_all add: ex_history_def ex_history_expiry_def step_defs example_defs
        units ledger_defs Let_def)

theorem C2_closes_at_most_once_witness:
  "Escrow_closings 0 ex_history (Escrow_constructor 10 20 ex_ledger) = 1
   \<and> EscrowWithExpiry_closings 0 ex_history_expiry (EscrowWithExpiry_constructor 10 20 ex_ledger) = 1
   \<and> \<not> active (offers ex_Escrow_closed 0)
   \<and> Escrow_acceptOffer (call_at 12 1300) 0 31 ex_Escrow_closed
        = Inl (Revert ''Escrow: offer is not active'')
   \<and> Escrow_cancelOffer (call_at 12 1300) 0 ex_Escrow_closed
        = Inl (Revert ''Escrow: offer is not active'')
   \<and> commit (Escrow_acceptOffer (call_at 12 1300) 0 31) ex_Escrow_closed = ex_Escrow_closed
   \<and> \<not> active (offers ex_EscrowWithExpiry_closed 0)
   \<and> EscrowWithExpiry_acceptOffer (call_at 12 1300) 0 31 ex_EscrowWithExpiry_closed
        = Inl (Revert ''Offer is not active'')
   \<and> EscrowWithExpiry_cancelOffer (call_at 12 1300) 0 ex_EscrowWithExpiry_closed
        = Inl (Revert ''Offer is not active'')
   \<and> EscrowWithExpiry_reclaimExpired (call_at 12 1300) 0 ex_EscrowWithExpiry_closed
        = Inl (Revert ''Offer is not active'')
   \<and> commit (EscrowWithExpiry_reclaimExpired (call_at 12 1300) 0) ex_EscrowWithExpiry_closed
        = ex_EscrowWithExpiry_closed"
proof -
  note c2 = C2_offer_closes_at_most_once
    [of 0 ex_history 10 20 ex_ledger ex_history_expiry "call_at 12 1300" 31
        ex_Escrow_closed ex_EscrowWithExpiry_closed]
  from c2 ex_closed_facts ex_history_closings show ?thesis
    by simp
qed

section \<open>Offer ids that were never created\<close>

text \<open>
  The slots at and beyond the counter hold the zero offer: so the constructor leaves
  them, and no transaction writes there without moving the counter past the slot.
\<close>

lemma Escrow_step_unwritten_zero:
  assumes "\<forall>j \<ge> offerIdCounter s. offers s j = zero_Offer" "Escrow_step c t s = Inr s'"
  shows "\<forall>j \<ge> offerIdCounter s'. offers s' j = zero_Offer"
proof -
  have nz: "\<not> active zero_Offer" by (simp add: zero_Offer_def)
  with assms(1) have "\<And>i. active (offers s i) \<Longrightarrow> i < offerIdCounter s"
    by (metis not_le)
  with Escrow_step_kinds [OF assms(2)] assms(1) nz show ?thesis
    by (auto split: if_splits)
qed

lemma EscrowWithExpiry_step_unwritten_zero:
  assumes "\<forall>j \<ge> offerIdCounter s. offers s j = zero_OfferWithExpiry"
    "EscrowWithExpiry_step c t s = Inr s'"
  shows "\<forall>j \<ge> offerIdCounter s'. offers s' j = zero_OfferWithExpiry"
proof -
  have nz: "\<not> active zero_OfferWithExpiry" by (simp add: zero_OfferWithExpiry_def)
  with assms(1) have "\<And>i. active (offers s i) \<Longrightarrow> i < offerIdCounter s"
    by (metis not_le)
  with EscrowWithExpiry_step_kinds [OF assms(2)] assms(1) nz show ?thesis
    by (auto split: if_splits)
qed

lemma Escrow_run_unwritten_zero:
  assumes "\<forall>j \<ge> offerIdCounter s. offers s j = zero_Offer"
  shows "\<forall>j \<ge> offerIdCounter (Escrow_run txs s). offers (Escrow_run txs s) j = zero_Offer"
  using assms
proof (induction txs arbitrary: s)
  case Nil
  then show ?case by simp
next
  case (Cons ct rest)
  obtain c t where ct: "ct = (c, t)" by (cases ct)
  have "\<forall>j \<ge> offerIdCounter (commit (Escrow_step c t) s).
          offers (commit (Escrow_step c t) s) j = zero_Offer"
  proof (cases "Escrow_step c t s")
    case (Inl e)
    with Cons.prems show ?thesis by (simp add: commit_def)
  next
    case (Inr s')
    with Escrow_step_unwritten_zero [OF Cons.prems Inr] show ?thesis by (simp add: commit_def)
  qed
  from Cons.IH [OF this] ct show ?case by simp
qed

lemma EscrowWithExpiry_run_unwritten_zero:
  assumes "\<forall>j \<ge> offerIdCounter s. offers s j = zero_OfferWithExpiry"
  shows "\<forall>j \<ge> offerIdCounter (EscrowWithExpiry_run txs s).
           offers (EscrowWithExpiry_run txs s) j = zero_OfferWithExpiry"
  using assms
proof (induction txs arbitrary: s)
  case Nil
  then show ?case by simp
next
  case (Cons ct rest)
  obtain c t where ct: "ct = (c, t)" by (cases ct)
  have "\<forall>j \<ge> offerIdCounter (commit (EscrowWithExpiry_step c t) s).
          offers (commit (EscrowWithExpiry_step c t) s) j = zero_OfferWithExpiry"
  proof (cases "EscrowWithExpiry_step c t s")
    case (Inl e)
    with Cons.prems show ?thesis by (simp add: commit_def)
  next
    case (Inr s')
    with EscrowWithExpiry_step_unwritten_zero [OF Cons.prems Inr] show ?thesis
      by (simp add: commit_def)
  qed
  from Cons.IH [OF this] ct show ?case by simp
qed

lemma Escrow_never_created:
  assumes "offerIdCounter (Escrow_run txs (Escrow_constructor deployer this l)) \<le> i"
  shows "offers (Escrow_run txs (Escrow_constructor deployer this l)) i = zero_Offer"
proof -
  have "\<forall>j \<ge> offerIdCounter (Escrow_constructor deployer this l).
          offers (Escrow_constructor deployer this l) j = zero_Offer"
    by (simp add: Escrow_constructor_def)
  from Escrow_run_unwritten_zero [OF this, of txs] assms show ?thesis by blast
qed

lemma EscrowWithExpiry_never_created:
  assumes "offerIdCounter (EscrowWithExpiry_run txs (EscrowWithExpiry_constructor deployer this l)) \<le> i"
  shows "offers (EscrowWithExpiry_run txs (EscrowWithExpiry_constructor deployer this l)) i
           = zero_OfferWithExpiry"
proof -
  have "\<forall>j \<ge> offerIdCounter (EscrowWithExpiry_constructor deployer this l).
          offers (EscrowWithExpiry_constructor deployer this l) j = zero_OfferWithExpiry"
    by (simp add: EscrowWithExpiry_constructor_def)
  from EscrowWithExpiry_run_unwritten_zero [OF this, of txs] assms show ?thesis by blast
qed

text \<open>
  C10. Let the state be one that a history of transactions reaches from the constructor,
  and \<open>i\<close> an id at or beyond the offer counter, so never created. Then \<open>getOffer i\<close>
  returns the all-zero record and does not revert. In the contract with expiry,
  \<open>getTimeRemaining i\<close> is 0 and \<open>isExpired i\<close> is true at every positive
  \<open>block.timestamp\<close>. \<open>acceptOffer\<close>, \<open>cancelOffer\<close> and \<open>reclaimExpired\<close> on \<open>i\<close> revert
  exactly as they do on any offer \<open>k\<close> that is not active: with the not-active
  message (for \<open>acceptOffer\<close> and \<open>cancelOffer\<close> on a paused contract, with
  \<open>EnforcedPause\<close>, for missing and closed offers alike). No error tells a missing id
  from a closed offer.
\<close>

theorem C10_missing_offer_reads_as_zero_and_is_not_active:
  "(s = Escrow_run txs (Escrow_constructor deployer this l) \<and> offerIdCounter s \<le> i
      \<longrightarrow> getOffer i s = zero_Offer
        \<and> Escrow_acceptOffer c i busdAddress s
            = Inl (if paused s then EnforcedPause else Revert ''Escrow: offer is not active'')
        \<and> Escrow_cancelOffer c i s
            = Inl (if paused s then EnforcedPause else Revert ''Escrow: offer is not active'')
        \<and> (\<forall>k. \<not> active (offers s k)
              \<longrightarrow> Escrow_acceptOffer c k busdAddress s = Escrow_acceptOffer c i busdAddress s
                \<and> Escrow_cancelOffer c k s = Escrow_cancelOffer c i s))
   \<and> (x = EscrowWithExpiry_run xtxs (EscrowWithExpiry_constructor deployer this l)
       \<and> offerIdCounter x \<le> i
      \<longrightarrow> getOffer i x = zero_OfferWithExpiry
        \<and> (0 < block_timestamp c \<longrightarrow> EscrowWithExpiry_isExpired c i x)
        \<and> EscrowWithExpiry_getTimeRemaining c i x = 0
        \<and> EscrowWithExpiry_acceptOffer c i busdAddress x
            = Inl (if paused x then EnforcedPause else Revert ''Offer is not active'')
        \<and> EscrowWithExpiry_cancelOffer c i x
            = Inl (if paused x then EnforcedPause else Revert ''Offer is not active'')
        \<and> EscrowWithExpiry_reclaimExpired c i x = Inl (Revert ''Offer is not active'')
        \<and> (\<forall>k. \<not> active (offers x k)
              \<longrightarrow> EscrowWithExpiry_acceptOffer c k busdAddress x
                    = EscrowWithExpiry_acceptOffer c i busdAddress x
                \<and> EscrowWithExpiry_cancelOffer c k x = EscrowWithExpiry_cancelOffer c i x
                \<and> EscrowWithExpiry_reclaimExpired c k x = EscrowWithExpiry_reclaimExpired c i x))"
proof (intro conjI impI)
  assume a: "s = Escrow_run txs (Escrow_constructor deployer this l) \<and> offerIdCounter s \<le> i"
  then have z: "offers s i = zero_Offer"
    using Escrow_never_created by blast
  then have n: "\<not> active (offers s i)" by (simp add: zero_Offer_def)
  show "getOffer i s = zero_Offer" using z by (simp add: getOffer_def)
  show "Escrow_acceptOffer c i busdAddress s
            = Inl (if paused s then EnforcedPause else Revert ''Escrow: offer is not active'')"
    using n by (rule inactive_offer_rejected(1))
  show "Escrow_cancelOffer c i s
            = Inl (if paused s then EnforcedPause else Revert ''Escrow: offer is not active'')"
    using n by (rule inactive_offer_rejected(2))
  show "\<forall>k. \<not> active (offers s k)
              \<longrightarrow> Escrow_acceptOffer c k busdAddress s = Escrow_acceptOffer c i busdAddress s
                \<and> Escrow_cancelOffer c k s = Escrow_cancelOffer c i s"
    using n by (simp add: inactive_offer_rejected)
next
  assume a: "x = EscrowWithExpiry_run xtxs (EscrowWithExpiry_constructor deployer this l)
       \<and> offerIdCounter x \<le> i"
  then have z: "offers x i = zero_OfferWithExpiry"
    using EscrowWithExpiry_never_created by blast
  then have n: "\<not> active (offers x i)" and e: "expiresAt (offers x i) = 0"
    by (simp_all add: zero_OfferWithExpiry_def)
  show "getOffer i x = zero_OfferWithExpiry" using z by (simp add: getOffer_def)
  show "EscrowWithExpiry_isExpired c i x" if "0 < block_timestamp c"
    using that e by (simp add: EscrowWithExpiry_isExpired_def)
  show "EscrowWithExpiry_getTimeRemaining c i x = 0"
    using e by (simp add: EscrowWithExpiry_getTimeRemaining_def)
  show "EscrowWithExpiry_acceptOffer c i busdAddress x
            = Inl (if paused x then EnforcedPause else Revert ''Offer is not active'')"
    using n by (rule inactive_offer_rejected_expiry(1))
  show "EscrowWithExpiry_cancelOffer c i x
            = Inl (if paused x then EnforcedPause else Revert ''Offer is not active'')"
    using n by (rule inactive_offer_rejected_expiry(2))
  show "EscrowWithExpiry_reclaimExpired c i x = Inl (Revert ''Offer is not active'')"
    using n by (rule inactive_offer_rejected_expiry(3))
  show "\<forall>k. \<not> active (offers x k)
              \<longrightarrow> EscrowWithExpiry_acceptOffer c k busdAddress x
                    = EscrowWithExpiry_acceptOffer c i busdAddress x
                \<and> EscrowWithExpiry_cancelOffer c k x = EscrowWithExpiry_cancelOffer c i x
                \<and> EscrowWithExpiry_reclaimExpired c k x = EscrowWithExpiry_reclaimExpired c i x"
    using n by (simp add: inactive_offer_rejected_expiry)
qed

lemma ex_closed_counters:
  "ex_Escrow_closed = Escrow_run (take 2 ex_history) (Escrow_constructor 10 20 ex_ledger)"
  "ex_EscrowWithExpiry_closed
     = EscrowWithExpiry_run (take 2 ex_history_expiry) (EscrowWithExpiry_constructor 10 20 ex_ledger)"
  "offerIdCounter ex_Escrow_closed = 1" "offerIdCounter ex_EscrowWithExpiry_closed = 1"
  by (simp_all add: ex_Escrow_closed_def ex_EscrowWithExpiry_closed_def ex_history_def
        ex_history_expiry_def step_defs example_defs units ledger_defs Let_def)

theorem C10_missing_offer_witness:
  "getOffer 999 ex_Escrow_closed = zero_Offer
   \<and> Escrow_acceptOffer (call_at 12 1300) 999 31 ex_Escrow_closed
        = Inl (Revert ''Escrow: offer is not active'')
   \<and> Escrow_acceptOffer (call_at 12 1300) 0 31 ex_Escrow_closed
        = Escrow_acceptOffer (call_at 12 1300) 999 31 ex_Escrow_closed
   \<and> Escrow_cancelOffer (call_at 12 1300) 999 ex_Escrow_closed
        = Inl (Revert ''Escrow: offer is not active'')
   \<and> getOffer 999 ex_EscrowWithExpiry_closed = zero_OfferWithExpiry
   \<and> EscrowWithExpiry_isExpired (call_at 12 1300) 999 ex_EscrowWithExpiry_closed
   \<and> EscrowWithExpiry_getTimeRemaining (call_at 12 1300) 999 ex_EscrowWithExpiry_closed = 0
   \<and> EscrowWithExpiry_acceptOffer (call_at 12 1300) 999 31 ex_EscrowWithExpiry_closed
        = Inl (Revert ''Offer is not active'')
   \<and> EscrowWithExpiry_cancelOffer (call_at 12 1300) 999 ex_EscrowWithExpiry_closed
        = Inl (Revert ''Offer is not active'')
   \<and> EscrowWithExpiry_reclaimExpired (call_at 12 1300) 999 ex_EscrowWithExpiry_closed
        = Inl (Revert ''Offer is not active'')
   \<and> EscrowWithExpiry_reclaimExpired (call_at 12 1300) 0 ex_EscrowWithExpiry_closed
        = EscrowWithExpiry_reclaimExpired (call_at 12 1300) 999 ex_EscrowWithExpiry_closed"
proof -
  note c10 = C10_missing_offer_reads_as_zero_and_is_not_active
    [of ex_Escrow_closed "take 2 ex_history" 10 20 ex_ledger 999 "call_at 12 1300" 31
        ex_EscrowWithExpiry_closed "take 2 ex_history_expiry"]
  have t: "0 < block_timestamp (call_at 12 1300)" by (simp add: call_at_def)
  from c10 ex_closed_counters ex_closed_facts t show ?thesis
    by simp
qed

section \<open>Expiry\<close>

text \<open>
  What the contract keeps true of its expiry times: the configured time is between one
  minute and 24 hours, no offer at or beyond the counter is active, and every created
  offer expires between one minute and 24 hours after it was created.
\<close>

lemma expiry_closed_state:
  assumes "s' = (markInactive i s)\<lparr>ledger := l\<rparr>"
  shows "offerExpiryTime s' = offerExpiryTime s"
    and "createdAt (offers s' j) = createdAt (offers s j)"
    and "expiresAt (offers s' j) = expiresAt (offers s j)"
    and "active (offers s' j) \<Longrightarrow> active (offers s j)"
    and "offerIdCounter s' = offerIdCounter s"
  using assms by (simp_all add: markInactive_def split: if_splits)

lemma EscrowWithExpiry_step_expiry_inv:
  assumes inv: "minutes 1 \<le> offerExpiryTime s \<and> offerExpiryTime s \<le> hours 24
      \<and> (\<forall>j \<ge> offerIdCounter s. \<not> active (offers s j))
      \<and> (\<forall>j < offerIdCounter s. createdAt (offers s j) + minutes 1 \<le> expiresAt (offers s j)
              \<and> expiresAt (offers s j) \<le> createdAt (offers s j) + hours 24)"
    and step: "EscrowWithExpiry_step c t s = Inr s'"
  shows "minutes 1 \<le> offerExpiryTime s' \<and> offerExpiryTime s' \<le> hours 24
      \<and> (\<forall>j \<ge> offerIdCounter s'. \<not> active (offers s' j))
      \<and> (\<forall>j < offerIdCounter s'. createdAt (offers s' j) + minutes 1 \<le> expiresAt (offers s' j)
              \<and> expiresAt (offers s' j) \<le> createdAt (offers s' j) + hours 24)"
proof (cases t)
  case (X_createOffer token amt price designated)
  with step obtain i where "EscrowWithExpiry_createOffer c token amt price designated s = Inr (i, s')"
    by (auto split: sum.splits)
  from EscrowWithExpiry_createOffer_Inr(2,3,7) [OF this] inv show ?thesis
    by (auto simp add: less_Suc_eq)
next
  case (X_acceptOffer i busdAddress)
  with step have "EscrowWithExpiry_acceptOffer c i busdAddress s = Inr s'" by simp
  from expiry_closed_state [OF EscrowWithExpiry_acceptOffer_Inr(6) [OF this]] inv
  show ?thesis by metis
next
  case (X_cancelOffer i)
  with step have "EscrowWithExpiry_cancelOffer c i s = Inr s'" by simp
  from expiry_closed_state [OF EscrowWithExpiry_cancelOffer_Inr(4) [OF this]] inv
  show ?thesis by metis
next
  case (X_reclaimExpired i)
  with step have "EscrowWithExpiry_reclaimExpired c i s = Inr s'" by simp
  from expiry_closed_state [OF EscrowWithExpiry_reclaimExpired_Inr(3) [OF this]] inv
  show ?thesis by metis
qed (use inv step in \<open>auto simp add: pause_def unpause_def transferOwnership_def renounceOwnership_def
       EscrowWithExpiry_emergencyWithdraw_def EscrowWithExpiry_updateExpiryTime_def
       split: if_splits sum.splits\<close>)

lemma EscrowWithExpiry_run_expiry_inv:
  assumes "minutes 1 \<le> offerExpiryTime s \<and> offerExpiryTime s \<le> hours 24
      \<and> (\<forall>j \<ge> offerIdCounter s. \<not> active (offers s j))
      \<and> (\<forall>j < offerIdCounter s. createdAt (offers s j) + minutes 1 \<le> expiresAt (offers s j)
              \<and> expiresAt (offers s j) \<le> createdAt (offers s j) + hours 24)"
  shows "minutes 1 \<le> offerExpiryTime (EscrowWithExpiry_run txs s)
      \<and> offerExpiryTime (EscrowWithExpiry_run txs s) \<le> hours 24
      \<and> (\<forall>j \<ge> offerIdCounter (EscrowWithExpiry_run txs s).
            \<not> active (offers (EscrowWithExpiry_run txs s) j))
      \<and> (\<forall>j < offerIdCounter (EscrowWithExpiry_run txs s).
            createdAt (offers (EscrowWithExpiry_run txs s) j) + minutes 1
              \<le> expiresAt (offers (EscrowWithExpiry_run txs s) j)
          \<and> expiresAt (offers (EscrowWithExpiry_run txs s) j)
              \<le> createdAt (offers (EscrowWithExpiry_run txs s) j) + hours 24)"
  using assms
proof (induction txs arbitrary: s)
  case Nil
  then show ?case by simp
next
  case (Cons ct rest)
  obtain c t where ct: "ct = (c, t)" by (cases ct)
  show ?case
  proof (cases "EscrowWithExpiry_step c t s")
    case (Inl e)
    with Cons.IH [OF Cons.prems] ct show ?thesis by (simp add: commit_def)
  next
    case (Inr s')
    from Cons.IH [OF EscrowWithExpiry_step_expiry_inv [OF Cons.prems Inr]] Inr ct
    show ?thesis by (simp add: commit_def)
  qed
qed

lemma EscrowWithExpiry_constructor_expiry_inv:
  "minutes 1 \<le> offerExpiryTime (EscrowWithExpiry_constructor deployer this l)
   \<and> offerExpiryTime (EscrowWithExpiry_constructor deployer this l) \<le> hours 24
   \<and> (\<forall>j \<ge> offerIdCounter (EscrowWithExpiry_constructor deployer this l).
         \<not> active (offers (EscrowWithExpiry_constructor deployer this l) j))
   \<and> (\<forall>j < offerIdCounter (EscrowWithExpiry_constructor deployer this l).
         createdAt (offers (EscrowWithExpiry_constructor deployer this l) j) + minutes 1
           \<le> expiresAt (offers (EscrowWithExpiry_constructor deployer this l) j)
       \<and> expiresAt (offers (EscrowWithExpiry_constructor deployer this l) j)
           \<le> createdAt (offers (EscrowWithExpiry_constructor deployer this l) j) + hours 24)"
  by (simp add: EscrowWithExpiry_constructor_def zero_OfferWithExpiry_def units)

lemma reclaimExpired_after_expiry:
  assumes "active (offers x i)" "expiresAt (offers x i) < block_timestamp c"
  shows "EscrowWithExpiry_reclaimExpired c i x = releaseTo (seller (offers x i)) i (markInactive i x)"
  using assms by (simp add: EscrowWithExpiry_reclaimExpired_def)

lemma releaseTo_funded:
  assumes "this_address s \<noteq> 0" "recipient \<noteq> 0"
    and "amount (offers s i) \<le> balanceOf (ledger s) (tokenAddress (offers s i)) (this_address s)"
  shows "\<exists>s'. releaseTo recipient i s = Inr s'"
  using assms by (simp add: releaseTo_def ledger_defs Let_def)

text \<open>
  C9. The constructor sets \<open>offerExpiryTime\<close> to 15 minutes. In every state \<open>x\<close> that a
  history of transactions reaches from the constructor: \<open>offerExpiryTime\<close> is at least one
  minute and at most 24 hours, and the owner can set it to any value in that range and
  to no other; an offer that \<open>createOffer\<close> creates has \<open>createdAt = block.timestamp\<close> and
  \<open>expiresAt = createdAt + offerExpiryTime\<close>; every created offer has
  \<open>createdAt + 1 minute \<le> expiresAt \<le> createdAt + 24 hours\<close>; and once
  \<open>block.timestamp\<close> is past \<open>createdAt + 24 hours\<close>, \<open>reclaimExpired\<close> on an offer that is
  still active passes its checks and is the release of the escrowed amount to the seller,
  which returns whenever the contract holds that amount.
\<close>

theorem C9_every_offer_expires_within_24_hours:
  "offerExpiryTime (EscrowWithExpiry_constructor deployer this l) = minutes 15
   \<and> (x = EscrowWithExpiry_run txs (EscrowWithExpiry_constructor deployer this l) \<longrightarrow>
         minutes 1 \<le> offerExpiryTime x \<and> offerExpiryTime x \<le> hours 24
       \<and> (\<forall>n x'. EscrowWithExpiry_updateExpiryTime c n x = Inr x'
             \<longrightarrow> minutes 1 \<le> n \<and> n \<le> hours 24 \<and> offerExpiryTime x' = n)
       \<and> (\<forall>n. msg_sender c = owner x \<and> minutes 1 \<le> n \<and> n \<le> hours 24
             \<longrightarrow> EscrowWithExpiry_updateExpiryTime c n x = Inr (x\<lparr>offerExpiryTime := n\<rparr>))
       \<and> (\<forall>token amt price designated i x'.
             EscrowWithExpiry_createOffer c token amt price designated x = Inr (i, x')
             \<longrightarrow> createdAt (offers x' i) = block_timestamp c
               \<and> expiresAt (offers x' i) = createdAt (offers x' i) + offerExpiryTime x)
       \<and> (\<forall>i. i < offerIdCounter x
             \<longrightarrow> createdAt (offers x i) + minutes 1 \<le> expiresAt (offers x i)
               \<and> expiresAt (offers x i) \<le> createdAt (offers x i) + hours 24)
       \<and> (\<forall>i. active (offers x i) \<and> createdAt (offers x i) + hours 24 < block_timestamp c
             \<longrightarrow> EscrowWithExpiry_reclaimExpired c i x
                   = releaseTo (seller (offers x i)) i (markInactive i x)
               \<and> (this_address x \<noteq> 0 \<and> seller (offers x i) \<noteq> 0
                   \<and> amount (offers x i)
                        \<le> balanceOf (ledger x) (tokenAddress (offers x i)) (this_address x)
                  \<longrightarrow> (\<exists>x'. EscrowWithExpiry_reclaimExpired c i x = Inr x'
                           \<and> \<not> active (offers x' i)))))"
proof (intro conjI impI allI)
  show "offerExpiryTime (EscrowWithExpiry_constructor deployer this l) = minutes 15"
    by (simp add: EscrowWithExpiry_constructor_def DEFAULT_EXPIRY_TIME_def)
next
  assume x: "x = EscrowWithExpiry_run txs (EscrowWithExpiry_constructor deployer this l)"
  note inv0 = EscrowWithExpiry_constructor_expiry_inv [of deployer this l]
  note inv = EscrowWithExpiry_run_expiry_inv [OF inv0, of txs, folded x]
  from inv show "minutes 1 \<le> offerExpiryTime x" and "offerExpiryTime x \<le> hours 24"
    by simp_all
  {
    fix n x' assume "EscrowWithExpiry_updateExpiryTime c n x = Inr x'"
    then show "minutes 1 \<le> n" and "n \<le> hours 24" and "offerExpiryTime x' = n"
      by (auto simp add: EscrowWithExpiry_updateExpiryTime_def split: if_splits)
  }
  {
    fix n assume "msg_sender c = owner x \<and> minutes 1 \<le> n \<and> n \<le> hours 24"
    then show "EscrowWithExpiry_updateExpiryTime c n x = Inr (x\<lparr>offerExpiryTime := n\<rparr>)"
      by (simp add: EscrowWithExpiry_updateExpiryTime_def)
  }
  {
    fix token amt price designated i x'
    assume "EscrowWithExpiry_createOffer c token amt price designated x = Inr (i, x')"
    from EscrowWithExpiry_createOffer_Inr(1,3) [OF this]
    show "createdAt (offers x' i) = block_timestamp c"
      and "expiresAt (offers x' i) = createdAt (offers x' i) + offerExpiryTime x"
      by simp_all
  }
  {
    fix i assume "i < offerIdCounter x"
    with inv show "createdAt (offers x i) + minutes 1 \<le> expiresAt (offers x i)"
      and "expiresAt (offers x i) \<le> createdAt (offers x i) + hours 24"
      by simp_all
  }
  {
    fix i assume a: "active (offers x i) \<and> createdAt (offers x i) + hours 24 < block_timestamp c"
    with inv have "i < offerIdCounter x" by (meson not_le)
    with inv have "expiresAt (offers x i) \<le> createdAt (offers x i) + hours 24" by simp
    with a have past: "expiresAt (offers x i) < block_timestamp c" by simp
    from a past show r: "EscrowWithExpiry_reclaimExpired c i x
                   = releaseTo (seller (offers x i)) i (markInactive i x)"
      by (simp add: reclaimExpired_after_expiry)
    assume "this_address x \<noteq> 0 \<and> seller (offers x i) \<noteq> 0
                   \<and> amount (offers x i)
                        \<le> balanceOf (ledger x) (tokenAddress (offers x i)) (this_address x)"
    then have "\<exists>x'. releaseTo (seller (offers x i)) i (markInactive i x) = Inr x'"
      using releaseTo_funded [of "markInactive i x" "seller (offers x i)" i]
      by (simp add: markInactive_simps)
    then obtain x' where "EscrowWithExpiry_reclaimExpired c i x = Inr x'"
      using r by auto
    with EscrowWithExpiry_reclaimExpired_closes [OF this]
    show "\<exists>x'. EscrowWithExpiry_reclaimExpired c i x = Inr x' \<and> \<not> active (offers x' i)"
      by blast
  }
qed

theorem C9_expiry_witness:
  "offerExpiryTime ex_EscrowWithExpiry = 900
   \<and> createdAt (offers ex_EscrowWithExpiry 0) = 1000
   \<and> expiresAt (offers ex_EscrowWithExpiry 0) = 1900
   \<and> EscrowWithExpiry_updateExpiryTime (call_at 10 87401) 86400 ex_EscrowWithExpiry
        = Inr (ex_EscrowWithExpiry\<lparr>offerExpiryTime := 86400\<rparr>)
   \<and> EscrowWithExpiry_updateExpiryTime (call_at 10 87401) 86401 ex_EscrowWithExpiry
        = Inl (Revert ''Expiry too long'')
   \<and> (\<exists>x'. EscrowWithExpiry_reclaimExpired (call_at 10 87401) 0 ex_EscrowWithExpiry = Inr x'
         \<and> \<not> active (offers x' 0))"
proof -
  note c9 = C9_every_offer_expires_within_24_hours
    [of 10 20 ex_ledger ex_EscrowWithExpiry "[(call_at 11 1000, X_createOffer 30 100 250 12)]"
        "call_at 10 87401", THEN conjunct2, THEN mp, OF ex_EscrowWithExpiry_def]
  have facts: "offerExpiryTime ex_EscrowWithExpiry = 900" "owner ex_EscrowWithExpiry = 10"
    "balanceOf (ledger ex_EscrowWithExpiry) 30 20 = 100"
    by (simp_all add: example_defs units ledger_defs Let_def)
  have late: "active (offers ex_EscrowWithExpiry 0)
      \<and> createdAt (offers ex_EscrowWithExpiry 0) + hours 24 < block_timestamp (call_at 10 87401)"
    by (simp add: ex_EscrowWithExpiry_facts call_at_def units)
  have funded: "this_address ex_EscrowWithExpiry \<noteq> 0 \<and> seller (offers ex_EscrowWithExpiry 0) \<noteq> 0
      \<and> amount (offers ex_EscrowWithExpiry 0)
           \<le> balanceOf (ledger ex_EscrowWithExpiry) (tokenAddress (offers ex_EscrowWithExpiry 0))
                (this_address ex_EscrowWithExpiry)"
    by (simp add: ex_EscrowWithExpiry_facts facts)
  have own: "msg_sender (call_at 10 87401) = owner ex_EscrowWithExpiry
      \<and> minutes 1 \<le> 86400 \<and> (86400::nat) \<le> hours 24"
    by (simp add: facts call_at_def units)
  from c9 own have u: "EscrowWithExpiry_updateExpiryTime (call_at 10 87401) 86400 ex_EscrowWithExpiry
        = Inr (ex_EscrowWithExpiry\<lparr>offerExpiryTime := 86400\<rparr>)"
    by blast
  from c9 late funded
  have r: "\<exists>x'. EscrowWithExpiry_reclaimExpired (call_at 10 87401) 0 ex_EscrowWithExpiry = Inr x'
         \<and> \<not> active (offers x' 0)"
    by blast
  have long: "EscrowWithExpiry_updateExpiryTime (call_at 10 87401) 86401 ex_EscrowWithExpiry
        = Inl (Revert ''Expiry too long'')"
    by (simp add: EscrowWithExpiry_updateExpiryTime_def facts call_at_def units)
  from u r long facts show ?thesis
    by (simp add: ex_EscrowWithExpiry_facts)
qed

section \<open>The daily offer counter\<close>
















section \<open>Conservation of the escrowed amount\<close>

text \<open>What a transfer that returns has done to the balances.\<close>

lemma ERC20_transfer_Inr:
  assumes "ERC20_transfer token from to amt l = Inr l'"
  shows "amt \<le> balanceOf l token from"
    and "from \<noteq> to \<Longrightarrow> balanceOf l' token from + amt = balanceOf l token from"
    and "from \<noteq> to \<Longrightarrow> balanceOf l' token to = balanceOf l token to + amt"
    and "a \<noteq> from \<Longrightarrow> a \<noteq> to \<Longrightarrow> balanceOf l' token a = balanceOf l token a"
    and "other \<noteq> token \<Longrightarrow> balanceOf l' other = balanceOf l other"
  using assms
  by (auto simp add: ERC20_transfer_def Let_def split: if_splits)

lemma ERC20_transferFrom_Inr:
  assumes "ERC20_transferFrom token spender from to amt l = Inr l'"
  shows "amt \<le> balanceOf l token from"
    and "from \<noteq> to \<Longrightarrow> balanceOf l' token from + amt = balanceOf l token from"
    and "from \<noteq> to \<Longrightarrow> balanceOf l' token to = balanceOf l token to + amt"
    and "a \<noteq> from \<Longrightarrow> a \<noteq> to \<Longrightarrow> balanceOf l' token a = balanceOf l token a"
    and "other \<noteq> token \<Longrightarrow> balanceOf l' other = balanceOf l other"
  using assms
  by (auto simp add: ERC20_transferFrom_def ERC20_transfer_def Let_def split: if_splits)

text \<open>
  No transaction moves the contract, and a created offer keeps every field but the flag,
  which can only be cleared.
\<close>

lemma EscrowWithExpiry_step_this_address:
  assumes "EscrowWithExpiry_step c t s = Inr s'"
  shows "this_address s' = this_address s"
proof (cases t)
  case (X_createOffer token amt price designated)
  with assms obtain i where "EscrowWithExpiry_createOffer c token amt price designated s = Inr (i, s')"
    by (auto split: sum.splits)
  from EscrowWithExpiry_createOffer_Inr(6) [OF this] show ?thesis .
next
  case (X_acceptOffer i busdAddress)
  with assms have "EscrowWithExpiry_acceptOffer c i busdAddress s = Inr s'" by simp
  from closed_state_simps(7) [OF EscrowWithExpiry_acceptOffer_Inr(6) [OF this]] show ?thesis .
next
  case (X_cancelOffer i)
  with assms have "EscrowWithExpiry_cancelOffer c i s = Inr s'" by simp
  from closed_state_simps(7) [OF EscrowWithExpiry_cancelOffer_Inr(4) [OF this]] show ?thesis .
next
  case (X_reclaimExpired i)
  with assms have "EscrowWithExpiry_reclaimExpired c i s = Inr s'" by simp
  from closed_state_simps(7) [OF EscrowWithExpiry_reclaimExpired_Inr(3) [OF this]] show ?thesis .
qed (use assms in \<open>auto simp add: pause_def unpause_def transferOwnership_def renounceOwnership_def
       EscrowWithExpiry_emergencyWithdraw_def EscrowWithExpiry_updateExpiryTime_def
       split: if_splits sum.splits\<close>)

lemma EscrowWithExpiry_step_keeps_offer:
  assumes "i < offerIdCounter s" "EscrowWithExpiry_step c t s = Inr s'"
  shows "i < offerIdCounter s' \<and> this_address s' = this_address s
       \<and> (offers s' i = offers s i \<or> offers s' i = (offers s i)\<lparr>active := False\<rparr>)"
  using EscrowWithExpiry_step_kinds [OF assms(2)] EscrowWithExpiry_step_this_address [OF assms(2)]
    assms(1)
  by auto

lemma EscrowWithExpiry_run_keeps_offer:
  assumes "i < offerIdCounter s"
  shows "i < offerIdCounter (EscrowWithExpiry_run txs s)
       \<and> this_address (EscrowWithExpiry_run txs s) = this_address s
       \<and> (offers (EscrowWithExpiry_run txs s) i = offers s i
          \<or> offers (EscrowWithExpiry_run txs s) i = (offers s i)\<lparr>active := False\<rparr>)"
  using assms
proof (induction txs arbitrary: s)
  case Nil
  then show ?case by simp
next
  case (Cons ct rest)
  obtain c t where ct: "ct = (c, t)" by (cases ct)
  show ?case
  proof (cases "EscrowWithExpiry_step c t s")
    case (Inl e)
    with Cons.IH [OF Cons.prems] ct show ?thesis by (simp add: commit_def)
  next
    case (Inr s')
    note k = EscrowWithExpiry_step_keeps_offer [OF Cons.prems Inr]
    then have "i < offerIdCounter s'" by simp
    note ih = Cons.IH [OF this]
    have r: "EscrowWithExpiry_run (ct # rest) s = EscrowWithExpiry_run rest s'"
      using Inr ct by (simp add: commit_def)
    from k ih show ?thesis
      unfolding r by auto
  qed
qed

lemma created_offer_after_history:
  assumes c: "EscrowWithExpiry_createOffer c0 token amt price designated x0 = Inr (i, x1)"
    and x: "x = EscrowWithExpiry_run txs x1"
  shows "this_address x = this_address x0"
    and "active (offers x i) \<Longrightarrow>
           seller (offers x i) = msg_sender c0 \<and> buyer (offers x i) = designated
         \<and> tokenAddress (offers x i) = token \<and> amount (offers x i) = amt
         \<and> priceInBUSD (offers x i) = price
         \<and> expiresAt (offers x i) = block_timestamp c0 + offerExpiryTime x0"
proof -
  note cr = EscrowWithExpiry_createOffer_Inr [OF c]
  have lt: "i < offerIdCounter x1" using cr(1,2) by simp
  note k = EscrowWithExpiry_run_keeps_offer [OF lt, of txs, folded x]
  from k cr(6) show "this_address x = this_address x0" by simp
  assume "active (offers x i)"
  with k have "offers x i = offers x1 i" by auto
  with cr(1,3) show "seller (offers x i) = msg_sender c0 \<and> buyer (offers x i) = designated
         \<and> tokenAddress (offers x i) = token \<and> amount (offers x i) = amt
         \<and> priceInBUSD (offers x i) = price
         \<and> expiresAt (offers x i) = block_timestamp c0 + offerExpiryTime x0"
    by simp
qed

lemma reclaimExpired_any_caller:
  assumes "block_timestamp c = block_timestamp c'"
  shows "EscrowWithExpiry_reclaimExpired c i x = EscrowWithExpiry_reclaimExpired c' i x"
  using assms by (simp add: EscrowWithExpiry_reclaimExpired_def)

lemma release_moves_amount:
  assumes "safeTransfer token this recipient amt l = Inr l'" "this \<noteq> recipient"
  shows "balanceOf l' token recipient = balanceOf l token recipient + amt
       \<and> balanceOf l' token this + amt = balanceOf l token this
       \<and> (\<forall>a. a \<noteq> recipient \<and> a \<noteq> this \<longrightarrow> balanceOf l' token a = balanceOf l token a)"
  using ERC20_transfer_Inr(2,3,4) [OF assms(1) [unfolded safeTransfer_def]] assms(2)
  by simp

text \<open>
  C3. Let \<open>createOffer\<close>, called by the seller, return offer \<open>i\<close>, and let any history of
  transactions follow. The creation took exactly \<open>amt\<close> of the token from the seller into
  the contract. Whenever later \<open>acceptOffer\<close> on \<open>i\<close> returns, its caller is the buyer
  designated at creation, and the release that follows the payment credits the buyer with
  exactly \<open>amt\<close>, debits the contract by \<open>amt\<close> and changes no other balance of the
  token. Whenever \<open>cancelOffer\<close> on \<open>i\<close> returns, its caller is the seller; whenever
  \<open>reclaimExpired\<close> on \<open>i\<close> returns, \<open>block.timestamp\<close> is past the expiry fixed at
  creation, and any caller at that time gets the same result; both credit the seller with
  exactly \<open>amt\<close>, debit the contract by \<open>amt\<close> and change no other balance of the token.
  Each of the three leaves the offer inactive, and on an inactive offer all three revert:
  the amount is paid out once. (Callers are accounts other than the contract itself.)
\<close>

theorem C3_escrowed_amount_is_paid_out_in_full_to_one_party:
  assumes created: "EscrowWithExpiry_createOffer c0 token amt price designated x0 = Inr (i, x1)"
    and history: "x = EscrowWithExpiry_run txs x1"
    and outside: "msg_sender c0 \<noteq> this_address x0" "msg_sender c \<noteq> this_address x0"
  shows "balanceOf (ledger x1) token (msg_sender c0) + amt = balanceOf (ledger x0) token (msg_sender c0)
     \<and> balanceOf (ledger x1) token (this_address x0) = balanceOf (ledger x0) token (this_address x0) + amt
     \<and> (\<forall>busdAddress x'. EscrowWithExpiry_acceptOffer c i busdAddress x = Inr x' \<longrightarrow>
           msg_sender c = designated \<and> \<not> active (offers x' i)
         \<and> (\<exists>l1. safeTransferFrom busdAddress (this_address x0) designated (msg_sender c0) price
                     (ledger x) = Inr l1
               \<and> balanceOf (ledger x') token designated = balanceOf l1 token designated + amt
               \<and> balanceOf (ledger x') token (this_address x0) + amt
                    = balanceOf l1 token (this_address x0)
               \<and> (\<forall>a. a \<noteq> designated \<and> a \<noteq> this_address x0
                      \<longrightarrow> balanceOf (ledger x') token a = balanceOf l1 token a)
               \<and> (busdAddress \<noteq> token \<longrightarrow> balanceOf l1 token = balanceOf (ledger x) token)))
     \<and> (\<forall>x'. EscrowWithExpiry_cancelOffer c i x = Inr x' \<longrightarrow>
           msg_sender c = msg_sender c0 \<and> \<not> active (offers x' i)
         \<and> balanceOf (ledger x') token (msg_sender c0)
              = balanceOf (ledger x) token (msg_sender c0) + amt
         \<and> balanceOf (ledger x') token (this_address x0) + amt
              = balanceOf (ledger x) token (this_address x0)
         \<and> (\<forall>a. a \<noteq> msg_sender c0 \<and> a \<noteq> this_address x0
                \<longrightarrow> balanceOf (ledger x') token a = balanceOf (ledger x) token a))
     \<and> (\<forall>x'. EscrowWithExpiry_reclaimExpired c i x = Inr x' \<longrightarrow>
           block_timestamp c0 + offerExpiryTime x0 < block_timestamp c \<and> \<not> active (offers x' i)
         \<and> (\<forall>c'. block_timestamp c' = block_timestamp c
                \<longrightarrow> EscrowWithExpiry_reclaimExpired c' i x = Inr x')
         \<and> balanceOf (ledger x') token (msg_sender c0)
              = balanceOf (ledger x) token (msg_sender c0) + amt
         \<and> balanceOf (ledger x') token (this_address x0) + amt
              = balanceOf (ledger x) token (this_address x0)
         \<and> (\<forall>a. a \<noteq> msg_sender c0 \<and> a \<noteq> this_address x0
                \<longrightarrow> balanceOf (ledger x') token a = balanceOf (ledger x) token a))
     \<and> (\<forall>x' c2 busdAddress. \<not> active (offers x' i) \<longrightarrow>
           (\<exists>e. EscrowWithExpiry_acceptOffer c2 i busdAddress x' = Inl e)
         \<and> (\<exists>e. EscrowWithExpiry_cancelOffer c2 i x' = Inl e)
         \<and> (\<exists>e. EscrowWithExpiry_reclaimExpired c2 i x' = Inl e))"
proof (intro conjI allI impI)
  note cr = EscrowWithExpiry_createOffer_Inr [OF created]
  note pull = ERC20_transferFrom_Inr [OF cr(8) [unfolded safeTransferFrom_def]]
  show "balanceOf (ledger x1) token (msg_sender c0) + amt = balanceOf (ledger x0) token (msg_sender c0)"
    using pull(2) outside(1) by simp
  show "balanceOf (ledger x1) token (this_address x0) = balanceOf (ledger x0) token (this_address x0) + amt"
    using pull(3) outside(1) by simp
next
  fix busdAddress x' assume a: "EscrowWithExpiry_acceptOffer c i busdAddress x = Inr x'"
  note r = EscrowWithExpiry_acceptOffer_Inr [OF a]
  note f = created_offer_after_history [OF created history]
  from f(2) [OF r(2)] r(3) show b: "msg_sender c = designated" by simp
  show "\<not> active (offers x' i)"
    using EscrowWithExpiry_acceptOffer_closes [OF a] by simp
  from r(7) obtain l1 where
    pay: "safeTransferFrom busdAddress (this_address x) (msg_sender c) (seller (offers x i))
            (priceInBUSD (offers x i)) (ledger x) = Inr l1"
    and rel: "safeTransfer (tokenAddress (offers x i)) (this_address x) (msg_sender c)
            (amount (offers x i)) l1 = Inr (ledger x')"
    by blast
  from pay f(1) f(2) [OF r(2)] b
  have pay': "safeTransferFrom busdAddress (this_address x0) designated (msg_sender c0) price
                     (ledger x) = Inr l1"
    by simp
  from rel f(1) f(2) [OF r(2)] b
  have rel': "safeTransfer token (this_address x0) designated amt l1 = Inr (ledger x')"
    by simp
  from outside(2) b have ne: "this_address x0 \<noteq> designated" by auto
  note m = release_moves_amount [OF rel' ne]
  have other: "busdAddress \<noteq> token \<longrightarrow> balanceOf l1 token = balanceOf (ledger x) token"
    using ERC20_transferFrom_Inr(5) [OF pay' [unfolded safeTransferFrom_def], of token] by auto
  from pay' m other
  show "\<exists>l1. safeTransferFrom busdAddress (this_address x0) designated (msg_sender c0) price
                     (ledger x) = Inr l1
               \<and> balanceOf (ledger x') token designated = balanceOf l1 token designated + amt
               \<and> balanceOf (ledger x') token (this_address x0) + amt
                    = balanceOf l1 token (this_address x0)
               \<and> (\<forall>a. a \<noteq> designated \<and> a \<noteq> this_address x0
                      \<longrightarrow> balanceOf (ledger x') token a = balanceOf l1 token a)
               \<and> (busdAddress \<noteq> token \<longrightarrow> balanceOf l1 token = balanceOf (ledger x) token)"
    by blast
next
  fix x' assume a: "EscrowWithExpiry_cancelOffer c i x = Inr x'"
  note r = EscrowWithExpiry_cancelOffer_Inr [OF a]
  note f = created_offer_after_history [OF created history]
  from f(2) [OF r(2)] r(3) show b: "msg_sender c = msg_sender c0" by simp
  show "\<not> active (offers x' i)"
    using EscrowWithExpiry_cancelOffer_closes [OF a] by simp
  from r(5) f(1) f(2) [OF r(2)] b
  have rel': "safeTransfer token (this_address x0) (msg_sender c0) amt (ledger x) = Inr (ledger x')"
    by simp
  from outside(1) have ne: "this_address x0 \<noteq> msg_sender c0" by auto
  note m = release_moves_amount [OF rel' ne]
  from m show "balanceOf (ledger x') token (msg_sender c0)
              = balanceOf (ledger x) token (msg_sender c0) + amt" by simp
  from m show "balanceOf (ledger x') token (this_address x0) + amt
              = balanceOf (ledger x) token (this_address x0)" by simp
  fix a assume "a \<noteq> msg_sender c0 \<and> a \<noteq> this_address x0"
  with m show "balanceOf (ledger x') token a = balanceOf (ledger x) token a" by simp
next
  fix x' assume a: "EscrowWithExpiry_reclaimExpired c i x = Inr x'"
  note r = EscrowWithExpiry_reclaimExpired_Inr [OF a]
  note f = created_offer_after_history [OF created history]
  from f(2) [OF r(1)] r(2) show "block_timestamp c0 + offerExpiryTime x0 < block_timestamp c"
    by simp
  show "\<not> active (offers x' i)"
    using EscrowWithExpiry_reclaimExpired_closes [OF a] by simp
  from r(4) f(1) f(2) [OF r(1)]
  have rel': "safeTransfer token (this_address x0) (msg_sender c0) amt (ledger x) = Inr (ledger x')"
    by simp
  from outside(1) have ne: "this_address x0 \<noteq> msg_sender c0" by auto
  note m = release_moves_amount [OF rel' ne]
  from m show "balanceOf (ledger x') token (msg_sender c0)
              = balanceOf (ledger x) token (msg_sender c0) + amt" by simp
  from m show "balanceOf (ledger x') token (this_address x0) + amt
              = balanceOf (ledger x) token (this_address x0)" by simp
  {
    fix c' :: Call assume "block_timestamp c' = block_timestamp c"
    from reclaimExpired_any_caller [OF this, of i x] a
    show "EscrowWithExpiry_reclaimExpired c' i x = Inr x'" by simp
  }
  fix a assume "a \<noteq> msg_sender c0 \<and> a \<noteq> this_address x0"
  with m show "balanceOf (ledger x') token a = balanceOf (ledger x) token a" by simp
next
  fix x' :: EscrowWithExpiry and c2 busdAddress
  assume n: "\<not> active (offers x' i)"
  show "\<exists>e. EscrowWithExpiry_acceptOffer c2 i busdAddress x' = Inl e"
    using inactive_offer_rejected_expiry(1) [OF n] by blast
  show "\<exists>e. EscrowWithExpiry_cancelOffer c2 i x' = Inl e"
    using inactive_offer_rejected_expiry(2) [OF n] by blast
  show "\<exists>e. EscrowWithExpiry_reclaimExpired c2 i x' = Inl e"
    using inactive_offer_rejected_expiry(3) [OF n] by blast
qed

lemma ex_creation:
  "EscrowWithExpiry_createOffer (call_at 11 1000) 30 100 250 12
     (EscrowWithExpiry_constructor 10 20 ex_ledger) = Inr (0, ex_EscrowWithExpiry)"
  by (simp add: example_defs units ledger_defs Let_def)

lemma ex_later_facts:
  "this_address ex_EscrowWithExpiry_later = 20"
  "offers ex_EscrowWithExpiry_later 0 = offers ex_EscrowWithExpiry 0"
  "\<not> paused ex_EscrowWithExpiry_later"
  "offerExpiryTime ex_EscrowWithExpiry_later = 3600"
  "balanceOf (ledger ex_EscrowWithExpiry_later) 30 = (\<lambda>a. 0)(11 := 900, 20 := 100)"
  "balanceOf (ledger ex_EscrowWithExpiry_later) 31 = (\<lambda>a. 0)(12 := 1000)"
  "allowance (ledger ex_EscrowWithExpiry_later) 31 12 20 = 1000"
  by (simp_all add: ex_EscrowWithExpiry_later_def ex_interlude_def step_defs
        EscrowWithExpiry_updateExpiryTime_def example_defs units ledger_defs Let_def)

theorem C3_conservation_witness:
  "balanceOf (ledger ex_EscrowWithExpiry) 30 11 + 100 = balanceOf ex_ledger 30 11
   \<and> balanceOf (ledger ex_EscrowWithExpiry) 30 20 = 100
   \<and> (\<exists>x'. EscrowWithExpiry_acceptOffer (call_at 12 1100) 0 31 ex_EscrowWithExpiry_later = Inr x'
         \<and> balanceOf (ledger x') 30 12 = 100 \<and> balanceOf (ledger x') 30 20 = 0
         \<and> balanceOf (ledger x') 30 11 = 900)
   \<and> (\<exists>x'. EscrowWithExpiry_cancelOffer (call_at 11 1200) 0 ex_EscrowWithExpiry_later = Inr x'
         \<and> balanceOf (ledger x') 30 11 = 1000 \<and> balanceOf (ledger x') 30 20 = 0
         \<and> balanceOf (ledger x') 30 12 = 0)
   \<and> (\<exists>x'. EscrowWithExpiry_reclaimExpired (call_at 13 5000) 0 ex_EscrowWithExpiry_later = Inr x'
         \<and> balanceOf (ledger x') 30 11 = 1000 \<and> balanceOf (ledger x') 30 20 = 0
         \<and> balanceOf (ledger x') 30 12 = 0)"
proof -
  have out0: "msg_sender (call_at 11 1000) \<noteq> this_address (EscrowWithExpiry_constructor 10 20 ex_ledger)"
    by (simp add: call_at_def EscrowWithExpiry_constructor_def)
  have out: "msg_sender (call_at a t) \<noteq> this_address (EscrowWithExpiry_constructor 10 20 ex_ledger)"
    if "a \<noteq> 20" for a t
    using that by (simp add: call_at_def EscrowWithExpiry_constructor_def)
  note c3 = C3_escrowed_amount_is_paid_out_in_full_to_one_party
    [OF ex_creation ex_EscrowWithExpiry_later_def out0]
  have l0: "ledger (EscrowWithExpiry_constructor 10 20 ex_ledger) = ex_ledger"
    "this_address (EscrowWithExpiry_constructor 10 20 ex_ledger) = 20"
    by (simp_all add: EscrowWithExpiry_constructor_def)
  have m11: "msg_sender (call_at 11 1000) = 11" by (simp add: call_at_def)
  have b0: "balanceOf ex_ledger 30 11 = 1000" "balanceOf ex_ledger 30 20 = 0"
    by (simp_all add: ex_ledger_def)
  have created: "balanceOf (ledger ex_EscrowWithExpiry) 30 11 + 100 = balanceOf ex_ledger 30 11
      \<and> balanceOf (ledger ex_EscrowWithExpiry) 30 20 = 100"
    using c3 [of "call_at 12 1100", OF out, THEN conjunct1]
      c3 [of "call_at 12 1100", OF out, THEN conjunct2, THEN conjunct1]
    by (simp add: l0 m11 b0)
  have "\<exists>x'. EscrowWithExpiry_acceptOffer (call_at 12 1100) 0 31 ex_EscrowWithExpiry_later = Inr x'"
    by (simp add: step_defs ex_later_facts ex_EscrowWithExpiry_facts call_at_def ledger_defs Let_def
          units)
  then obtain xa where xa: "EscrowWithExpiry_acceptOffer (call_at 12 1100) 0 31
                               ex_EscrowWithExpiry_later = Inr xa"
    by blast
  have "12 \<noteq> (20::nat)" by simp
  note acc = c3 [of "call_at 12 1100", OF out [OF this], THEN conjunct2, THEN conjunct2,
      THEN conjunct1, rule_format, OF xa, THEN conjunct2, THEN conjunct2]
  from acc obtain l1 :: Ledger where l1:
    "balanceOf (ledger xa) 30 12 = balanceOf l1 30 12 + 100"
    "balanceOf (ledger xa) 30 (this_address (EscrowWithExpiry_constructor 10 20 ex_ledger)) + 100
       = balanceOf l1 30 (this_address (EscrowWithExpiry_constructor 10 20 ex_ledger))"
    "\<forall>a. a \<noteq> 12 \<and> a \<noteq> this_address (EscrowWithExpiry_constructor 10 20 ex_ledger)
          \<longrightarrow> balanceOf (ledger xa) 30 a = balanceOf l1 30 a"
    "(31::nat) \<noteq> 30 \<longrightarrow> balanceOf l1 30 = balanceOf (ledger ex_EscrowWithExpiry_later) 30"
    by blast
  from l1(4) have same: "balanceOf l1 30 = balanceOf (ledger ex_EscrowWithExpiry_later) 30" by simp
  from l1(3) have "balanceOf (ledger xa) 30 11 = balanceOf l1 30 11" by (simp add: l0)
  with l1(1,2) same
  have accepted: "balanceOf (ledger xa) 30 12 = 100 \<and> balanceOf (ledger xa) 30 20 = 0
      \<and> balanceOf (ledger xa) 30 11 = 900"
    by (simp add: ex_later_facts l0)
  have "\<exists>x'. EscrowWithExpiry_cancelOffer (call_at 11 1200) 0 ex_EscrowWithExpiry_later = Inr x'"
    by (simp add: step_defs ex_later_facts ex_EscrowWithExpiry_facts call_at_def ledger_defs Let_def
          units)
  then obtain xc where xc: "EscrowWithExpiry_cancelOffer (call_at 11 1200) 0
                               ex_EscrowWithExpiry_later = Inr xc"
    by blast
  have "11 \<noteq> (20::nat)" by simp
  note can = c3 [of "call_at 11 1200", OF out [OF this], THEN conjunct2, THEN conjunct2,
      THEN conjunct2, THEN conjunct1, rule_format, OF xc, THEN conjunct2, THEN conjunct2]
  from can
  have cancelled: "balanceOf (ledger xc) 30 11 = 1000 \<and> balanceOf (ledger xc) 30 20 = 0
      \<and> balanceOf (ledger xc) 30 12 = 0"
    by (simp add: l0 m11 ex_later_facts)
  have "\<exists>x'. EscrowWithExpiry_reclaimExpired (call_at 13 5000) 0 ex_EscrowWithExpiry_later = Inr x'"
    by (simp add: step_defs ex_later_facts ex_EscrowWithExpiry_facts call_at_def ledger_defs Let_def
          units)
  then obtain xr where xr: "EscrowWithExpiry_reclaimExpired (call_at 13 5000) 0
                               ex_EscrowWithExpiry_later = Inr xr"
    by blast
  have "13 \<noteq> (20::nat)" by simp
  note rec = c3 [of "call_at 13 5000", OF out [OF this], THEN conjunct2, THEN conjunct2,
      THEN conjunct2, THEN conjunct2, THEN conjunct1, rule_format, OF xr,
      THEN conjunct2, THEN conjunct2, THEN conjunct2]
  from rec
  have reclaimed: "balanceOf (ledger xr) 30 11 = 1000 \<and> balanceOf (ledger xr) 30 20 = 0
      \<and> balanceOf (ledger xr) 30 12 = 0"
    by (simp add: l0 m11 ex_later_facts)
  from created accepted cancelled reclaimed xa xc xr show ?thesis
    by blast
qed

section \<open>Pairs\<close>

lemma createPair_commutes:
  "MockFactory_createPair newPair tokenA tokenB d = MockFactory_createPair newPair tokenB tokenA d"
  by (cases "tokenA < tokenB"; cases "tokenB < tokenA")
     (auto simp add: MockFactory_createPair_def Let_def)

lemma createPair_identical:
  "MockFactory_createPair newPair tokenA tokenA d = Inl (Revert ''MockFactory: IDENTICAL_ADDRESSES'')"
  by (simp add: MockFactory_createPair_def)

lemma createPair_zero:
  assumes "tokenA \<noteq> tokenB" "tokenA = 0 \<or> tokenB = 0"
  shows "MockFactory_createPair newPair tokenA tokenB d = Inl (Revert ''MockFactory: ZERO_ADDRESS'')"
  using assms by (auto simp add: MockFactory_createPair_def Let_def)

lemma createPair_exists:
  assumes "tokenA \<noteq> tokenB" "tokenA \<noteq> 0" "tokenB \<noteq> 0"
    and "getPair (factory d) (min tokenA tokenB) (max tokenA tokenB) \<noteq> 0"
  shows "MockFactory_createPair newPair tokenA tokenB d = Inl (Revert ''MockFactory: PAIR_EXISTS'')"
  using assms by (auto simp add: MockFactory_createPair_def Let_def min_def max_def)

lemma createPair_new:
  assumes "tokenA \<noteq> tokenB" "tokenA \<noteq> 0" "tokenB \<noteq> 0"
    and "getPair (factory d) (min tokenA tokenB) (max tokenA tokenB) = 0"
  shows "\<exists>d'. MockFactory_createPair newPair tokenA tokenB d = Inr (newPair, d')
          \<and> getPair (factory d') tokenA tokenB = newPair
          \<and> getPair (factory d') tokenB tokenA = newPair
          \<and> (\<forall>a b. \<not> (a = tokenA \<and> b = tokenB) \<and> \<not> (a = tokenB \<and> b = tokenA)
                \<longrightarrow> getPair (factory d') a b = getPair (factory d) a b)
          \<and> allPairs (factory d') = allPairs (factory d) @ [newPair]
          \<and> token0 (pairs d' newPair) = min tokenA tokenB
          \<and> token1 (pairs d' newPair) = max tokenA tokenB
          \<and> tokens d' = tokens d"
  using assms
  by (auto simp add: MockFactory_createPair_def MockPair_initialize_def zero_MockPair_def Let_def
        min_def max_def split: if_splits)

lemma createPair_Inr:
  assumes "MockFactory_createPair newPair tokenA tokenB d = Inr (pair, d')"
  shows "tokenA \<noteq> tokenB \<and> tokenA \<noteq> 0 \<and> tokenB \<noteq> 0
       \<and> getPair (factory d) (min tokenA tokenB) (max tokenA tokenB) = 0 \<and> pair = newPair"
  using assms
  by (auto simp add: MockFactory_createPair_def MockPair_initialize_def zero_MockPair_def Let_def
        min_def max_def split: if_splits)

lemma createPair_keeps_symmetry:
  assumes "\<forall>a b. getPair (factory d) a b = getPair (factory d) b a"
    and "MockFactory_createPair newPair tokenA tokenB d = Inr (pair, d')"
  shows "\<forall>a b. getPair (factory d') a b = getPair (factory d') b a"
proof -
  note c = createPair_Inr [OF assms(2)]
  from createPair_new [of tokenA tokenB d newPair] c assms(2)
  have g: "getPair (factory d') tokenA tokenB = newPair" "getPair (factory d') tokenB tokenA = newPair"
    and o: "\<And>a b. \<not> (a = tokenA \<and> b = tokenB) \<Longrightarrow> \<not> (a = tokenB \<and> b = tokenA)
                \<Longrightarrow> getPair (factory d') a b = getPair (factory d) a b"
    by auto
  show ?thesis
  proof (intro allI)
    fix a b
    show "getPair (factory d') a b = getPair (factory d') b a"
    proof (cases "(a = tokenA \<and> b = tokenB) \<or> (a = tokenB \<and> b = tokenA)")
      case True
      with g show ?thesis by auto
    next
      case False
      then have "getPair (factory d') a b = getPair (factory d) a b"
        and "getPair (factory d') b a = getPair (factory d) b a"
        using o by auto
      with assms(1) show ?thesis by simp
    qed
  qed
qed

lemma getOrCreatePair_idempotent:
  assumes sym: "\<forall>a b. getPair (factory d) a b = getPair (factory d) b a"
    and np: "newPair \<noteq> 0"
    and first: "MockRouter_getOrCreatePair newPair tokenA tokenB d = Inr (pair, d1)"
  shows "pair \<noteq> 0"
    and "getPair (factory d1) tokenA tokenB = pair \<and> getPair (factory d1) tokenB tokenA = pair"
    and "MockRouter_getOrCreatePair newPair2 tokenA tokenB d1 = Inr (pair, d1)"
    and "MockRouter_getOrCreatePair newPair2 tokenB tokenA d1 = Inr (pair, d1)"
proof -
  have both: "pair \<noteq> 0 \<and> getPair (factory d1) tokenA tokenB = pair
                \<and> getPair (factory d1) tokenB tokenA = pair"
  proof (cases "getPair (factory d) tokenA tokenB = 0")
    case True
    with first have c: "MockFactory_createPair newPair tokenA tokenB d = Inr (pair, d1)"
      by (simp add: MockRouter_getOrCreatePair_def)
    note i = createPair_Inr [OF c]
    from createPair_new [of tokenA tokenB d newPair] i c np show ?thesis by auto
  next
    case False
    with first have "pair = getPair (factory d) tokenA tokenB" "d1 = d"
      by (auto simp add: MockRouter_getOrCreatePair_def Let_def)
    with False sym show ?thesis by simp
  qed
  then show "pair \<noteq> 0"
    and "getPair (factory d1) tokenA tokenB = pair \<and> getPair (factory d1) tokenB tokenA = pair"
    by simp_all
  from both show "MockRouter_getOrCreatePair newPair2 tokenA tokenB d1 = Inr (pair, d1)"
    and "MockRouter_getOrCreatePair newPair2 tokenB tokenA d1 = Inr (pair, d1)"
    by (simp_all add: MockRouter_getOrCreatePair_def Let_def)
qed

text \<open>
  C8. \<open>createPair\<close> orders the two tokens by address, so it does the same for \<open>(A, B)\<close> and
  \<open>(B, A)\<close>. It reverts with \<open>IDENTICAL_ADDRESSES\<close> when the tokens are equal (this check
  comes first, also for two zero addresses), with \<open>ZERO_ADDRESS\<close> when they differ and one
  is \<open>address(0)\<close>, and with \<open>PAIR_EXISTS\<close> when the ordered pair already has a pool;
  otherwise it returns the new pool, registers it under both orders with \<open>token0 < token1\<close>,
  and from then on reverts with \<open>PAIR_EXISTS\<close> for that pair in either order. The
  get-or-create step of \<open>addLiquidity\<close>, once it has returned a pool, returns the same pool
  and leaves the state unchanged when called again with the pair in either order. The
  registry reads the same in both orders after the constructor and after every
  \<open>createPair\<close>; a deployed pool is never at \<open>address(0)\<close>.
\<close>

theorem C8_pair_is_canonical_unique_and_get_or_create_idempotent:
  "MockFactory_createPair newPair tokenA tokenB d = MockFactory_createPair newPair tokenB tokenA d
   \<and> (tokenA = tokenB
       \<longrightarrow> MockFactory_createPair newPair tokenA tokenB d
             = Inl (Revert ''MockFactory: IDENTICAL_ADDRESSES''))
   \<and> (tokenA \<noteq> tokenB \<and> (tokenA = 0 \<or> tokenB = 0)
       \<longrightarrow> MockFactory_createPair newPair tokenA tokenB d
             = Inl (Revert ''MockFactory: ZERO_ADDRESS''))
   \<and> (tokenA \<noteq> tokenB \<and> tokenA \<noteq> 0 \<and> tokenB \<noteq> 0
       \<and> getPair (factory d) (min tokenA tokenB) (max tokenA tokenB) \<noteq> 0
       \<longrightarrow> MockFactory_createPair newPair tokenA tokenB d
             = Inl (Revert ''MockFactory: PAIR_EXISTS''))
   \<and> (tokenA \<noteq> tokenB \<and> tokenA \<noteq> 0 \<and> tokenB \<noteq> 0
       \<and> getPair (factory d) (min tokenA tokenB) (max tokenA tokenB) = 0
       \<longrightarrow> (\<exists>d'. MockFactory_createPair newPair tokenA tokenB d = Inr (newPair, d')))
   \<and> (\<forall>pair d'. MockFactory_createPair newPair tokenA tokenB d = Inr (pair, d')
       \<longrightarrow> pair = newPair
         \<and> getPair (factory d') tokenA tokenB = pair \<and> getPair (factory d') tokenB tokenA = pair
         \<and> token0 (pairs d' pair) = min tokenA tokenB \<and> token1 (pairs d' pair) = max tokenA tokenB
         \<and> (newPair \<noteq> 0
             \<longrightarrow> MockFactory_createPair newPair2 tokenA tokenB d'
                   = Inl (Revert ''MockFactory: PAIR_EXISTS'')
               \<and> MockFactory_createPair newPair2 tokenB tokenA d'
                   = Inl (Revert ''MockFactory: PAIR_EXISTS''))
         \<and> ((\<forall>a b. getPair (factory d) a b = getPair (factory d) b a)
             \<longrightarrow> (\<forall>a b. getPair (factory d') a b = getPair (factory d') b a)))
   \<and> (\<forall>a b. getPair MockFactory_constructor a b = getPair MockFactory_constructor b a)
   \<and> ((\<forall>a b. getPair (factory d) a b = getPair (factory d) b a) \<and> newPair \<noteq> 0
       \<longrightarrow> (\<forall>pair d1. MockRouter_getOrCreatePair newPair tokenA tokenB d = Inr (pair, d1)
             \<longrightarrow> pair \<noteq> 0
               \<and> MockRouter_getOrCreatePair newPair2 tokenA tokenB d1 = Inr (pair, d1)
               \<and> MockRouter_getOrCreatePair newPair2 tokenB tokenA d1 = Inr (pair, d1)))"
proof (intro conjI allI impI)
  show "MockFactory_createPair newPair tokenA tokenB d = MockFactory_createPair newPair tokenB tokenA d"
    by (rule createPair_commutes)
  show "getPair MockFactory_constructor a b = getPair MockFactory_constructor b a" for a b
    by (simp add: MockFactory_constructor_def)
next
  assume "tokenA = tokenB"
  then show "MockFactory_createPair newPair tokenA tokenB d
             = Inl (Revert ''MockFactory: IDENTICAL_ADDRESSES'')"
    by (simp add: createPair_identical)
next
  assume "tokenA \<noteq> tokenB \<and> (tokenA = 0 \<or> tokenB = 0)"
  then show "MockFactory_createPair newPair tokenA tokenB d
             = Inl (Revert ''MockFactory: ZERO_ADDRESS'')"
    by (simp add: createPair_zero)
next
  assume "tokenA \<noteq> tokenB \<and> tokenA \<noteq> 0 \<and> tokenB \<noteq> 0
       \<and> getPair (factory d) (min tokenA tokenB) (max tokenA tokenB) \<noteq> 0"
  then show "MockFactory_createPair newPair tokenA tokenB d
             = Inl (Revert ''MockFactory: PAIR_EXISTS'')"
    by (simp add: createPair_exists)
next
  assume "tokenA \<noteq> tokenB \<and> tokenA \<noteq> 0 \<and> tokenB \<noteq> 0
       \<and> getPair (factory d) (min tokenA tokenB) (max tokenA tokenB) = 0"
  then have "tokenA \<noteq> tokenB" "tokenA \<noteq> 0" "tokenB \<noteq> 0"
    "getPair (factory d) (min tokenA tokenB) (max tokenA tokenB) = 0"
    by simp_all
  from createPair_new [OF this, of newPair]
  show "\<exists>d'. MockFactory_createPair newPair tokenA tokenB d = Inr (newPair, d')"
    by blast
next
  fix pair d' assume c: "MockFactory_createPair newPair tokenA tokenB d = Inr (pair, d')"
  note i = createPair_Inr [OF c]
  from createPair_new [of tokenA tokenB d newPair] i c
  have n: "getPair (factory d') tokenA tokenB = newPair" "getPair (factory d') tokenB tokenA = newPair"
    "token0 (pairs d' newPair) = min tokenA tokenB" "token1 (pairs d' newPair) = max tokenA tokenB"
    by auto
  from i show "pair = newPair" by simp
  from i n show "getPair (factory d') tokenA tokenB = pair" "getPair (factory d') tokenB tokenA = pair"
    "token0 (pairs d' pair) = min tokenA tokenB" "token1 (pairs d' pair) = max tokenA tokenB"
    by simp_all
  {
    assume "newPair \<noteq> 0"
    with n have "getPair (factory d') (min tokenA tokenB) (max tokenA tokenB) \<noteq> 0"
      by (simp add: min_def max_def)
    with i show "MockFactory_createPair newPair2 tokenA tokenB d'
                   = Inl (Revert ''MockFactory: PAIR_EXISTS'')"
      by (simp add: createPair_exists)
    then show "MockFactory_createPair newPair2 tokenB tokenA d'
                   = Inl (Revert ''MockFactory: PAIR_EXISTS'')"
      by (simp add: createPair_commutes [of newPair2 tokenB tokenA])
  }
  {
    fix a b assume "\<forall>a b. getPair (factory d) a b = getPair (factory d) b a"
    from createPair_keeps_symmetry [OF this c]
    show "getPair (factory d') a b = getPair (factory d') b a" by blast
  }
next
  fix pair d1
  assume h: "(\<forall>a b. getPair (factory d) a b = getPair (factory d) b a) \<and> newPair \<noteq> 0"
    and g: "MockRouter_getOrCreatePair newPair tokenA tokenB d = Inr (pair, d1)"
  from h have sym: "\<forall>a b. getPair (factory d) a b = getPair (factory d) b a"
    and np: "newPair \<noteq> 0" by simp_all
  note r = getOrCreatePair_idempotent [OF sym np g]
  show "pair \<noteq> 0" by (rule r(1))
  show "MockRouter_getOrCreatePair newPair2 tokenA tokenB d1 = Inr (pair, d1)" by (rule r(3))
  show "MockRouter_getOrCreatePair newPair2 tokenB tokenA d1 = Inr (pair, d1)" by (rule r(4))
qed

lemma ex_Dex_paired_facts:
  "MockFactory_createPair 40 31 30 ex_Dex = Inr (40, ex_Dex_paired)"
  "getPair (factory ex_Dex_paired) 30 31 = 40" "getPair (factory ex_Dex_paired) 31 30 = 40"
  "token0 (pairs ex_Dex_paired 40) = 30" "token1 (pairs ex_Dex_paired 40) = 31"
  "\<forall>a b. getPair (factory ex_Dex) a b = getPair (factory ex_Dex) b a"
  by (simp_all add: ex_Dex_paired_def ex_Dex_def MockFactory_createPair_def MockFactory_constructor_def
        MockPair_initialize_def zero_MockPair_def Let_def)

theorem C8_pair_witness:
  "MockFactory_createPair 40 31 30 ex_Dex = Inr (40, ex_Dex_paired)
   \<and> MockFactory_createPair 40 30 31 ex_Dex = Inr (40, ex_Dex_paired)
   \<and> getPair (factory ex_Dex_paired) 30 31 = 40 \<and> getPair (factory ex_Dex_paired) 31 30 = 40
   \<and> MockFactory_createPair 41 30 31 ex_Dex_paired = Inl (Revert ''MockFactory: PAIR_EXISTS'')
   \<and> MockFactory_createPair 41 31 30 ex_Dex_paired = Inl (Revert ''MockFactory: PAIR_EXISTS'')
   \<and> MockFactory_createPair 41 30 30 ex_Dex_paired = Inl (Revert ''MockFactory: IDENTICAL_ADDRESSES'')
   \<and> MockFactory_createPair 41 0 0 ex_Dex_paired = Inl (Revert ''MockFactory: IDENTICAL_ADDRESSES'')
   \<and> MockFactory_createPair 41 0 30 ex_Dex_paired = Inl (Revert ''MockFactory: ZERO_ADDRESS'')
   \<and> MockRouter_getOrCreatePair 40 31 30 ex_Dex = Inr (40, ex_Dex_paired)
   \<and> MockRouter_getOrCreatePair 41 31 30 ex_Dex_paired = Inr (40, ex_Dex_paired)
   \<and> MockRouter_getOrCreatePair 41 30 31 ex_Dex_paired = Inr (40, ex_Dex_paired)"
proof -
  note first = C8_pair_is_canonical_unique_and_get_or_create_idempotent [of 40 31 30 ex_Dex 41]
  have swap: "MockFactory_createPair 40 30 31 ex_Dex = Inr (40, ex_Dex_paired)"
    using first [THEN conjunct1] ex_Dex_paired_facts(1) by simp
  have again: "MockFactory_createPair 41 31 30 ex_Dex_paired = Inl (Revert ''MockFactory: PAIR_EXISTS'')
     \<and> MockFactory_createPair 41 30 31 ex_Dex_paired = Inl (Revert ''MockFactory: PAIR_EXISTS'')"
    using first [THEN conjunct2, THEN conjunct2, THEN conjunct2, THEN conjunct2, THEN conjunct2,
        THEN conjunct1, rule_format, OF ex_Dex_paired_facts(1)]
    by simp
  have goc: "MockRouter_getOrCreatePair 40 31 30 ex_Dex = Inr (40, ex_Dex_paired)"
    using ex_Dex_paired_facts(1)
    by (simp add: MockRouter_getOrCreatePair_def ex_Dex_def MockFactory_constructor_def)
  have h: "(\<forall>a b. getPair (factory ex_Dex) a b = getPair (factory ex_Dex) b a) \<and> (40::nat) \<noteq> 0"
    using ex_Dex_paired_facts(6) by simp
  have idem: "MockRouter_getOrCreatePair 41 31 30 ex_Dex_paired = Inr (40, ex_Dex_paired)
     \<and> MockRouter_getOrCreatePair 41 30 31 ex_Dex_paired = Inr (40, ex_Dex_paired)"
    using first [THEN conjunct2, THEN conjunct2, THEN conjunct2, THEN conjunct2, THEN conjunct2,
        THEN conjunct2, THEN conjunct2, THEN mp, OF h, rule_format, OF goc]
    by simp
  have ident: "MockFactory_createPair 41 30 30 ex_Dex_paired
                 = Inl (Revert ''MockFactory: IDENTICAL_ADDRESSES'')"
    using C8_pair_is_canonical_unique_and_get_or_create_idempotent [of 41 30 30 ex_Dex_paired,
        THEN conjunct2, THEN conjunct1]
    by simp
  have ident0: "MockFactory_createPair 41 0 0 ex_Dex_paired
                 = Inl (Revert ''MockFactory: IDENTICAL_ADDRESSES'')"
    using C8_pair_is_canonical_unique_and_get_or_create_idempotent [of 41 0 0 ex_Dex_paired,
        THEN conjunct2, THEN conjunct1]
    by simp
  have zero: "MockFactory_createPair 41 0 30 ex_Dex_paired = Inl (Revert ''MockFactory: ZERO_ADDRESS'')"
    using C8_pair_is_canonical_unique_and_get_or_create_idempotent [of 41 0 30 ex_Dex_paired,
        THEN conjunct2, THEN conjunct2, THEN conjunct1]
    by simp
  from swap again goc idem ident ident0 zero ex_Dex_paired_facts show ?thesis
    by simp
qed

section \<open>The square root\<close>

lemma amgm_nat: "4 * (a * b) \<le> (a + b) * (a + b)" for a b :: nat
proof -
  have "4 * (int a * int b) \<le> (int a + int b) * (int a + int b)"
    using sum_squares_ge_zero [of "int a - int b" 0]
    by (simp add: algebra_simps)
  then have "int (4 * (a * b)) \<le> int ((a + b) * (a + b))"
    by simp
  then show ?thesis by (simp only: of_nat_le_iff)
qed

lemma half_up: "a + 1 \<le> 2 * (a div 2 + 1)" for a :: nat
  by presburger

lemma half_ge: "z \<le> a div 2 \<Longrightarrow> 2 * z \<le> a" for a z :: nat
  by presburger

lemma square_mono: "a \<le> b \<Longrightarrow> a * a \<le> b * b" for a b :: nat
  by (simp add: mult_le_mono)

lemma newton_step_above_root:
  assumes "0 < (z::nat)"
  shows "(y::nat) < ((y div z + z) div 2 + 1) * ((y div z + z) div 2 + 1)"
proof -
  let ?q = "y div z" and ?x = "(y div z + z) div 2"
  have y_lt: "y < (?q + 1) * z"
    using assms by (metis add.commute div_less_iff_less_mult less_add_one mult.commute)
  have "?q + 1 + z \<le> 2 * (?x + 1)"
    using half_up [of "?q + z"] by simp
  then have "(?q + 1 + z) * (?q + 1 + z) \<le> (2 * (?x + 1)) * (2 * (?x + 1))"
    by (rule square_mono)
  moreover have "4 * ((?q + 1) * z) \<le> (?q + 1 + z) * (?q + 1 + z)"
    by (rule amgm_nat)
  ultimately have "4 * ((?q + 1) * z) \<le> 4 * ((?x + 1) * (?x + 1))"
    by (simp add: algebra_simps)
  then have "(?q + 1) * z \<le> (?x + 1) * (?x + 1)" by simp
  with y_lt show ?thesis by simp
qed

lemma floor_sqrt_unique:
  assumes "is_floor_sqrt y r" "is_floor_sqrt y r'"
  shows "r = r'"
proof (rule ccontr)
  assume "r \<noteq> r'"
  then consider "r + 1 \<le> r'" | "r' + 1 \<le> r" by linarith
  then show False
  proof cases
    case 1
    then have "(r + 1) * (r + 1) \<le> r' * r'" by (rule square_mono)
    with assms show False by (simp add: is_floor_sqrt_def)
  next
    case 2
    then have "(r' + 1) * (r' + 1) \<le> r * r" by (rule square_mono)
    with assms show False by (simp add: is_floor_sqrt_def)
  qed
qed


lemma sqrt_loop_correct:
  assumes "y \<le> MAX_UINT256" "3 < y" "2 \<le> z" "z \<le> y div 2 + 1" "y < (z + 1) * (z + 1)"
  shows "\<exists>r. MockPair_sqrt_loop y z ((y div z + z) div 2) = Inr r \<and> is_floor_sqrt y r"
  using assms(3,4,5)
proof (induction z rule: less_induct)
  case (less z)
  let ?x = "(y div z + z) div 2"
  show ?case
  proof (cases "?x < z")
    case False
    then have "z \<le> (y div z + z) div 2" by simp
    then have "2 * z \<le> y div z + z" by (rule half_ge)
    then have "z \<le> y div z" by simp
    then have "z * z \<le> (y div z) * z" by (rule mult_le_mono1)
    also have "\<dots> \<le> y" by (rule div_times_less_eq_dividend)
    finally have "z * z \<le> y" .
    moreover have "MockPair_sqrt_loop y z ?x = Inr z"
      using False by (subst MockPair_sqrt_loop.simps) simp
    ultimately show ?thesis
      using less.prems(3) by (simp add: is_floor_sqrt_def)
  next
    case True
    have zpos: "0 < z" using less.prems(1) by simp
    have above: "y < (?x + 1) * (?x + 1)"
      by (rule newton_step_above_root [OF zpos])
    have x2: "2 \<le> ?x"
    proof (rule ccontr)
      assume "\<not> 2 \<le> ?x"
      then have "?x + 1 \<le> 2" by simp
      then have "(?x + 1) * (?x + 1) \<le> 2 * 2" by (rule square_mono)
      with above assms(2) show False by simp
    qed
    have xle: "?x \<le> y div 2" using True less.prems(2) by simp
    have "y div ?x \<le> y div 2" using x2 by (simp add: div_le_mono2)
    with xle have "y div ?x + ?x \<le> y div 2 + y div 2" by simp
    also have "\<dots> \<le> y" by simp
    finally have "y div ?x + ?x \<le> y" .
    with assms(1) have nov: "\<not> y div ?x + ?x > MAX_UINT256" by simp
    have x0: "?x \<noteq> 0" using x2 by simp
    have "?x \<le> y div 2 + 1" using xle by simp
    from less.IH [OF True x2 this above]
    obtain r where r: "MockPair_sqrt_loop y ?x ((y div ?x + ?x) div 2) = Inr r" "is_floor_sqrt y r"
      by blast
    have "MockPair_sqrt_loop y z ?x = MockPair_sqrt_loop y ?x ((y div ?x + ?x) div 2)"
      using True x0 nov by (subst MockPair_sqrt_loop.simps) simp
    with r show ?thesis by simp
  qed
qed

lemma sqrt_small:
  "MockPair_sqrt 0 = Inr 0" "MockPair_sqrt 1 = Inr 1" "MockPair_sqrt 2 = Inr 1" "MockPair_sqrt 3 = Inr 1"
  by (simp_all add: MockPair_sqrt_def)

lemma sqrt_correct:
  assumes "y \<le> MAX_UINT256"
  shows "\<exists>r. MockPair_sqrt y = Inr r \<and> is_floor_sqrt y r"
proof (cases "3 < y")
  case False
  then have "y = 0 \<or> y = 1 \<or> y = 2 \<or> y = 3" by linarith
  then show ?thesis
    using sqrt_small by (auto simp add: is_floor_sqrt_def)
next
  case True
  let ?x = "y div 2 + 1"
  have y_lt: "y < 2 * ?x" using half_up [of y] by simp
  have lt: "?x < y" using True by linarith
  have x2: "2 \<le> ?x" using True by simp
  have "y div ?x < 2"
    using y_lt by (simp add: div_less_iff_less_mult mult.commute)
  then have "y div ?x + ?x \<le> y" using lt by simp
  with assms have nov: "\<not> y div ?x + ?x > MAX_UINT256" by simp
  have nov0: "\<not> ?x > MAX_UINT256" using lt assms by simp
  have "2 * ?x \<le> ?x * ?x" using x2 by (simp add: mult_le_mono1)
  with y_lt have above: "y < (?x + 1) * (?x + 1)" by (simp add: algebra_simps)
  have "?x \<le> y div 2 + 1" by simp
  from sqrt_loop_correct [OF assms True x2 this above]
  obtain r where r: "MockPair_sqrt_loop y ?x ((y div ?x + ?x) div 2) = Inr r" "is_floor_sqrt y r"
    by blast
  have "MockPair_sqrt_loop y y ?x = MockPair_sqrt_loop y ?x ((y div ?x + ?x) div 2)"
    using lt nov by (subst MockPair_sqrt_loop.simps) simp
  with r True nov0 show ?thesis
    by (simp add: MockPair_sqrt_def)
qed

section \<open>The first deposit\<close>

lemma ERC20_mint_Inr:
  assumes "ERC20_mint token account amt l = Inr l'"
  shows "account \<noteq> 0"
    and "totalSupply l' token = totalSupply l token + amt"
    and "balanceOf l' token account = balanceOf l token account + amt"
    and "a \<noteq> account \<Longrightarrow> balanceOf l' token a = balanceOf l token a"
    and "other \<noteq> token \<Longrightarrow> balanceOf l' other = balanceOf l other"
  using assms by (auto simp add: ERC20_mint_def split: if_splits)

lemma mint_first_deposit:
  assumes "totalSupply l this = 0"
  shows "MockPair_mint c this to p l =
     (if balanceOf l (token0 p) this < reserve0 p then Inl OVERFLOW
      else if balanceOf l (token1 p) this < reserve1 p then Inl OVERFLOW
      else if (balanceOf l (token0 p) this - reserve0 p) * (balanceOf l (token1 p) this - reserve1 p)
                > MAX_UINT256 then Inl OVERFLOW
      else case MockPair_sqrt ((balanceOf l (token0 p) this - reserve0 p)
                                * (balanceOf l (token1 p) this - reserve1 p)) of
          Inl e \<Rightarrow> Inl e
        | Inr root \<Rightarrow>
            if root < MINIMUM_LIQUIDITY then Inl OVERFLOW
            else case ERC20_mint this 1 MINIMUM_LIQUIDITY l of
                Inl e \<Rightarrow> Inl e
              | Inr l1 \<Rightarrow>
                  if \<not> root - MINIMUM_LIQUIDITY > 0
                  then Inl (Revert ''MockPair: INSUFFICIENT_LIQUIDITY_MINTED'')
                  else case ERC20_mint this to (root - MINIMUM_LIQUIDITY) l1 of
                      Inl e \<Rightarrow> Inl e
                    | Inr l2 \<Rightarrow>
                        (case MockPair_update c (balanceOf l (token0 p) this)
                                (balanceOf l (token1 p) this) p of
                           Inl e \<Rightarrow> Inl e
                         | Inr p' \<Rightarrow> Inr (root - MINIMUM_LIQUIDITY, p', l2)))"
  using assms
  by (simp add: MockPair_mint_def Let_def split: sum.splits)

lemma mint_first_Inr:
  assumes "totalSupply l this = 0" "MockPair_mint c this to p l = Inr (liquidity, p', l')"
  shows "\<exists>root l1.
           MockPair_sqrt (mint_amount0 this p l * mint_amount1 this p l) = Inr root
         \<and> mint_amount0 this p l * mint_amount1 this p l \<le> MAX_UINT256
         \<and> MINIMUM_LIQUIDITY < root \<and> liquidity = root - MINIMUM_LIQUIDITY
         \<and> ERC20_mint this 1 MINIMUM_LIQUIDITY l = Inr l1
         \<and> ERC20_mint this to liquidity l1 = Inr l'
         \<and> MockPair_update c (balanceOf l (token0 p) this) (balanceOf l (token1 p) this) p = Inr p'"
  using assms(2) unfolding mint_first_deposit [OF assms(1)] mint_amount0_def mint_amount1_def
  by (auto split: if_splits sum.splits)

lemma ERC20_mint_mono:
  assumes "ERC20_mint token account amt l = Inr l'"
  shows "balanceOf l tk a \<le> balanceOf l' tk a"
  using assms by (auto simp add: ERC20_mint_def split: if_splits)

lemma ERC20_burn_others:
  assumes "ERC20_burn token account amt l = Inr l'" "a \<noteq> account"
  shows "balanceOf l' tk a = balanceOf l tk a"
  using assms by (auto simp add: ERC20_burn_def split: if_splits)

lemma ERC20_transfer_others:
  assumes "ERC20_transfer token from to amt l = Inr l'" "a \<noteq> from"
  shows "balanceOf l tk a \<le> balanceOf l' tk a"
  using assms by (auto simp add: ERC20_transfer_def Let_def split: if_splits)

lemma mint_keeps_sink:
  assumes "MockPair_mint c this to p l = Inr (liquidity, p', l')"
  shows "balanceOf l this 1 \<le> balanceOf l' this 1"
proof -
  from assms have "\<exists>l1. (l1 = l \<or> ERC20_mint this 1 MINIMUM_LIQUIDITY l = Inr l1)
      \<and> ERC20_mint this to liquidity l1 = Inr l'"
    by (auto simp add: MockPair_mint_def Let_def split: if_splits sum.splits)
  then obtain l1 where a: "l1 = l \<or> ERC20_mint this 1 MINIMUM_LIQUIDITY l = Inr l1"
    and b: "ERC20_mint this to liquidity l1 = Inr l'"
    by blast
  from a have "balanceOf l this 1 \<le> balanceOf l1 this 1"
    using ERC20_mint_mono by auto
  also have "\<dots> \<le> balanceOf l' this 1"
    using b by (rule ERC20_mint_mono)
  finally show ?thesis .
qed

lemma burn_keeps_sink:
  assumes "MockPair_burn c this to p l = Inr (amounts, p', l')" "this \<noteq> 1"
  shows "balanceOf l this 1 \<le> balanceOf l' this 1"
proof -
  from assms(1) obtain l1 l2 amount0 amount1 where
    a: "ERC20_burn this this (balanceOf l this this) l = Inr l1"
    and b: "ERC20_transfer (token0 p) this to amount0 l1 = Inr l2"
    and c: "ERC20_transfer (token1 p) this to amount1 l2 = Inr l'"
    by (auto simp add: MockPair_burn_def Let_def split: if_splits sum.splits)
  have "balanceOf l this 1 = balanceOf l1 this 1"
    using ERC20_burn_others [OF a, of 1 this] assms(2) by simp
  also have "\<dots> \<le> balanceOf l2 this 1"
    using ERC20_transfer_others [OF b, of 1 this] assms(2) by simp
  also have "\<dots> \<le> balanceOf l' this 1"
    using ERC20_transfer_others [OF c, of 1 this] assms(2) by simp
  finally show ?thesis .
qed

lemma sqrt_is:
  assumes "is_floor_sqrt y r" "y \<le> MAX_UINT256"
  shows "MockPair_sqrt y = Inr r"
proof -
  from sqrt_correct [OF assms(2)] obtain r' where r': "MockPair_sqrt y = Inr r'" "is_floor_sqrt y r'"
    by blast
  from floor_sqrt_unique [OF assms(1) r'(2)] r'(1) show ?thesis by simp
qed

lemma mint_first_effects:
  assumes z: "totalSupply l this = 0"
    and m: "MockPair_mint c this to p l = Inr (liquidity, p', l')"
  shows "is_floor_sqrt (mint_amount0 this p l * mint_amount1 this p l) (liquidity + MINIMUM_LIQUIDITY)"
    and "0 < liquidity"
    and "totalSupply l' this = liquidity + MINIMUM_LIQUIDITY"
    and "balanceOf l' this 1 = balanceOf l this 1 + MINIMUM_LIQUIDITY + (if to = 1 then liquidity else 0)"
    and "to \<noteq> 1 \<Longrightarrow> balanceOf l' this to = balanceOf l this to + liquidity"
    and "reserve0 p' = balanceOf l (token0 p) this"
    and "reserve1 p' = balanceOf l (token1 p) this"
proof -
  from mint_first_Inr [OF z m] obtain root l1 where
    s: "MockPair_sqrt (mint_amount0 this p l * mint_amount1 this p l) = Inr root"
    and b: "mint_amount0 this p l * mint_amount1 this p l \<le> MAX_UINT256"
    and r: "MINIMUM_LIQUIDITY < root" "liquidity = root - MINIMUM_LIQUIDITY"
    and m1: "ERC20_mint this 1 MINIMUM_LIQUIDITY l = Inr l1"
    and m2: "ERC20_mint this to liquidity l1 = Inr l'"
    and u: "MockPair_update c (balanceOf l (token0 p) this) (balanceOf l (token1 p) this) p = Inr p'"
    by blast
  from sqrt_correct [OF b] s
  have "is_floor_sqrt (mint_amount0 this p l * mint_amount1 this p l) root" by auto
  moreover from r have e: "liquidity + MINIMUM_LIQUIDITY = root" by simp
  ultimately show "is_floor_sqrt (mint_amount0 this p l * mint_amount1 this p l)
      (liquidity + MINIMUM_LIQUIDITY)" by simp
  from r show "0 < liquidity" by simp
  from ERC20_mint_Inr(2) [OF m1] ERC20_mint_Inr(2) [OF m2] z
  show "totalSupply l' this = liquidity + MINIMUM_LIQUIDITY" by simp
  have b1: "balanceOf l1 this 1 = balanceOf l this 1 + MINIMUM_LIQUIDITY"
    by (rule ERC20_mint_Inr(3) [OF m1])
  show "balanceOf l' this 1 = balanceOf l this 1 + MINIMUM_LIQUIDITY + (if to = 1 then liquidity else 0)"
  proof (cases "to = 1")
    case True
    with ERC20_mint_Inr(3) [OF m2] b1 show ?thesis by simp
  next
    case False
    then have "(1::nat) \<noteq> to" by simp
    from ERC20_mint_Inr(4) [OF m2 this] b1 False show ?thesis by simp
  qed
  show "balanceOf l' this to = balanceOf l this to + liquidity" if "to \<noteq> 1"
    using ERC20_mint_Inr(3) [OF m2] ERC20_mint_Inr(4) [OF m1 that] by simp
  from u show "reserve0 p' = balanceOf l (token0 p) this"
    by (auto simp add: MockPair_update_def split: if_splits)
  from u show "reserve1 p' = balanceOf l (token1 p) this"
    by (auto simp add: MockPair_update_def split: if_splits)
qed

lemma mint_first_too_small:
  assumes z: "totalSupply l this = 0"
    and f: "is_floor_sqrt (mint_amount0 this p l * mint_amount1 this p l) r"
    and r: "r \<le> MINIMUM_LIQUIDITY"
  shows "\<exists>e. MockPair_mint c this to p l = Inl e"
proof (cases "MockPair_mint c this to p l")
  case (Inl e)
  then show ?thesis by blast
next
  case (Inr x)
  then obtain liquidity p' l' where "MockPair_mint c this to p l = Inr (liquidity, p', l')"
    by (cases x) auto
  from mint_first_effects(1,2) [OF z this] floor_sqrt_unique [OF f] r
  show ?thesis by fastforce
qed

lemma mint_first_succeeds:
  assumes z: "totalSupply l this = 0"
    and f: "is_floor_sqrt (mint_amount0 this p l * mint_amount1 this p l) r"
    and r: "MINIMUM_LIQUIDITY < r"
    and b: "reserve0 p \<le> balanceOf l (token0 p) this" "reserve1 p \<le> balanceOf l (token1 p) this"
    and m: "mint_amount0 this p l * mint_amount1 this p l \<le> MAX_UINT256"
    and t: "to \<noteq> 0"
    and u: "balanceOf l (token0 p) this \<le> MAX_UINT112" "balanceOf l (token1 p) this \<le> MAX_UINT112"
  shows "\<exists>p' l'. MockPair_mint c this to p l = Inr (r - MINIMUM_LIQUIDITY, p', l')"
proof -
  have s: "MockPair_sqrt ((balanceOf l (token0 p) this - reserve0 p)
            * (balanceOf l (token1 p) this - reserve1 p)) = Inr r"
    using sqrt_is [OF f m] by (simp add: mint_amount0_def mint_amount1_def)
  from f have "r * r \<le> mint_amount0 this p l * mint_amount1 this p l"
    by (simp add: is_floor_sqrt_def)
  moreover from r have "r \<le> r * r" by (cases r) simp_all
  ultimately have rm: "r \<le> MAX_UINT256" using m by linarith
  have big: "MINIMUM_LIQUIDITY \<le> MAX_UINT256"
    by (simp add: MINIMUM_LIQUIDITY_def MAX_UINT256_def)
  have m1: "ERC20_mint this 1 MINIMUM_LIQUIDITY l
      = Inr (l\<lparr>totalSupply := (totalSupply l)(this := MINIMUM_LIQUIDITY),
               balanceOf := (balanceOf l)(this := (balanceOf l this)
                        (1 := balanceOf l this 1 + MINIMUM_LIQUIDITY))\<rparr>)"
    using z big by (simp add: ERC20_mint_def)
  show ?thesis
    unfolding mint_first_deposit [OF z]
    using s r b m t u rm z
    by (simp add: m1 mint_amount0_def mint_amount1_def ERC20_mint_def MockPair_update_def)
qed

lemma ERC20_transferFrom_others:
  assumes "ERC20_transferFrom token spender from to amt l = Inr l'" "a \<noteq> from"
  shows "balanceOf l tk a \<le> balanceOf l' tk a"
  using assms by (auto simp add: ERC20_transferFrom_def ERC20_transfer_def Let_def split: if_splits)

text \<open>
  C7. On the first deposit into a pair, when no share of it exists yet, \<open>mint\<close> gives the
  depositor the floor of the square root of the product of the two deposited amounts, less
  \<open>MINIMUM_LIQUIDITY\<close>, which is 1000; it mints \<open>MINIMUM_LIQUIDITY\<close> shares to \<open>address(1)\<close>,
  so that the shares in existence are that root; and it reverts whenever the root is at
  most \<open>MINIMUM_LIQUIDITY\<close>. When the root is larger, the balances cover the reserves and
  fit in 112 bits and the recipient is not \<open>address(0)\<close>, it succeeds. The shares of
  \<open>address(1)\<close> are locked: \<open>mint\<close> and \<open>burn\<close> never lower them, nor does a transfer of
  shares from another holder.
\<close>

theorem C7_first_deposit_mints_root_less_minimum_liquidity:
  "MINIMUM_LIQUIDITY = 1000
   \<and> (totalSupply l this = 0 \<longrightarrow>
        (\<forall>liquidity p' l'. MockPair_mint c this to p l = Inr (liquidity, p', l') \<longrightarrow>
            is_floor_sqrt (mint_amount0 this p l * mint_amount1 this p l)
              (liquidity + MINIMUM_LIQUIDITY)
          \<and> 0 < liquidity
          \<and> totalSupply l' this = liquidity + MINIMUM_LIQUIDITY
          \<and> balanceOf l' this 1
              = balanceOf l this 1 + MINIMUM_LIQUIDITY + (if to = 1 then liquidity else 0)
          \<and> (to \<noteq> 1 \<longrightarrow> balanceOf l' this to = balanceOf l this to + liquidity)
          \<and> reserve0 p' = balanceOf l (token0 p) this
          \<and> reserve1 p' = balanceOf l (token1 p) this)
      \<and> (\<forall>r. is_floor_sqrt (mint_amount0 this p l * mint_amount1 this p l) r
              \<and> r \<le> MINIMUM_LIQUIDITY \<longrightarrow>
            (\<exists>e. MockPair_mint c this to p l = Inl e))
      \<and> (\<forall>r. is_floor_sqrt (mint_amount0 this p l * mint_amount1 this p l) r
              \<and> MINIMUM_LIQUIDITY < r
              \<and> reserve0 p \<le> balanceOf l (token0 p) this
              \<and> reserve1 p \<le> balanceOf l (token1 p) this
              \<and> mint_amount0 this p l * mint_amount1 this p l \<le> MAX_UINT256
              \<and> balanceOf l (token0 p) this \<le> MAX_UINT112
              \<and> balanceOf l (token1 p) this \<le> MAX_UINT112
              \<and> to \<noteq> 0 \<longrightarrow>
            (\<exists>p' l'. MockPair_mint c this to p l = Inr (r - MINIMUM_LIQUIDITY, p', l'))))
   \<and> (\<forall>liquidity p' l'. MockPair_mint c this to p l = Inr (liquidity, p', l') \<longrightarrow>
        balanceOf l this 1 \<le> balanceOf l' this 1)
   \<and> (\<forall>amounts p' l'. this \<noteq> 1 \<and> MockPair_burn c this to p l = Inr (amounts, p', l') \<longrightarrow>
        balanceOf l this 1 \<le> balanceOf l' this 1)
   \<and> (\<forall>holder amt l'. holder \<noteq> 1 \<and> ERC20_transfer this holder to amt l = Inr l' \<longrightarrow>
        balanceOf l this 1 \<le> balanceOf l' this 1)
   \<and> (\<forall>spender holder amt l'.
        holder \<noteq> 1 \<and> ERC20_transferFrom this spender holder to amt l = Inr l' \<longrightarrow>
        balanceOf l this 1 \<le> balanceOf l' this 1)"
proof (intro conjI impI allI)
  show "MINIMUM_LIQUIDITY = 1000" by (simp add: MINIMUM_LIQUIDITY_def)
next
  fix liquidity p' l'
  assume z: "totalSupply l this = 0"
    and m: "MockPair_mint c this to p l = Inr (liquidity, p', l')"
  note e = mint_first_effects [OF z m]
  show "is_floor_sqrt (mint_amount0 this p l * mint_amount1 this p l)
          (liquidity + MINIMUM_LIQUIDITY)" by (rule e(1))
  show "0 < liquidity" by (rule e(2))
  show "totalSupply l' this = liquidity + MINIMUM_LIQUIDITY" by (rule e(3))
  show "balanceOf l' this 1
      = balanceOf l this 1 + MINIMUM_LIQUIDITY + (if to = 1 then liquidity else 0)" by (rule e(4))
  show "balanceOf l' this to = balanceOf l this to + liquidity" if "to \<noteq> 1"
    using that by (rule e(5))
  show "reserve0 p' = balanceOf l (token0 p) this" by (rule e(6))
  show "reserve1 p' = balanceOf l (token1 p) this" by (rule e(7))
next
  fix r
  assume "totalSupply l this = 0"
    and "is_floor_sqrt (mint_amount0 this p l * mint_amount1 this p l) r
          \<and> r \<le> MINIMUM_LIQUIDITY"
  then show "\<exists>e. MockPair_mint c this to p l = Inl e"
    using mint_first_too_small by blast
next
  fix r
  assume "totalSupply l this = 0"
    and "is_floor_sqrt (mint_amount0 this p l * mint_amount1 this p l) r
              \<and> MINIMUM_LIQUIDITY < r
              \<and> reserve0 p \<le> balanceOf l (token0 p) this
              \<and> reserve1 p \<le> balanceOf l (token1 p) this
              \<and> mint_amount0 this p l * mint_amount1 this p l \<le> MAX_UINT256
              \<and> balanceOf l (token0 p) this \<le> MAX_UINT112
              \<and> balanceOf l (token1 p) this \<le> MAX_UINT112
              \<and> to \<noteq> 0"
  then show "\<exists>p' l'. MockPair_mint c this to p l = Inr (r - MINIMUM_LIQUIDITY, p', l')"
    using mint_first_succeeds [of l this p r to c] by blast
next
  fix liquidity p' l'
  assume "MockPair_mint c this to p l = Inr (liquidity, p', l')"
  then show "balanceOf l this 1 \<le> balanceOf l' this 1" by (rule mint_keeps_sink)
next
  fix amounts p' l'
  assume "this \<noteq> 1 \<and> MockPair_burn c this to p l = Inr (amounts, p', l')"
  then show "balanceOf l this 1 \<le> balanceOf l' this 1"
    using burn_keeps_sink by blast
next
  fix holder amt l'
  assume "holder \<noteq> 1 \<and> ERC20_transfer this holder to amt l = Inr l'"
  then show "balanceOf l this 1 \<le> balanceOf l' this 1"
    using ERC20_transfer_others [of this holder to amt l l' 1 this] by auto
next
  fix spender holder amt l'
  assume "holder \<noteq> 1 \<and> ERC20_transferFrom this spender holder to amt l = Inr l'"
  then show "balanceOf l this 1 \<le> balanceOf l' this 1"
    using ERC20_transferFrom_others [of this spender holder to amt l l' 1 this] by auto
qed

lemmas pair_defs = ex_pair_def ex_pair_ledger_def ex_pair_funded_def ex_pair_ledger_minted_def
  mint_amount0_def mint_amount1_def call_at_def

lemma ex_pair_facts:
  "totalSupply (ex_pair_ledger a b) 40 = 0"
  "mint_amount0 40 ex_pair (ex_pair_ledger a b) = a"
  "mint_amount1 40 ex_pair (ex_pair_ledger a b) = b"
  "balanceOf (ex_pair_ledger a b) (token0 ex_pair) 40 = a"
  "balanceOf (ex_pair_ledger a b) (token1 ex_pair) 40 = b"
  "reserve0 ex_pair = 0" "reserve1 ex_pair = 0"
  "balanceOf (ex_pair_ledger a b) 40 1 = 0"
  "balanceOf (ex_pair_ledger a b) 40 7 = 0"
  "balanceOf (ex_pair_ledger a b) 40 (Suc 0) = 0"
  by (simp_all add: pair_defs)

lemma ex_pair_minted_facts:
  "\<exists>amounts p' l'. MockPair_burn (call_at 7 200) 40 7 ex_pair_funded ex_pair_ledger_minted
      = Inr (amounts, p', l')"
  "\<exists>l'. ERC20_transfer 40 7 8 500 ex_pair_ledger_minted = Inr l'"
  "\<exists>l'. ERC20_transferFrom 40 9 7 8 500 ex_pair_ledger_minted = Inr l'"
  "balanceOf ex_pair_ledger_minted 40 1 = 1000"
  by (simp_all add: pair_defs MockPair_burn_def MockPair_update_def ERC20_burn_def ledger_defs Let_def
      MAX_UINT256_def MAX_UINT112_def)

theorem C7_first_deposit_witness:
  "totalSupply (ex_pair_ledger 2000 8000) 40 = 0
   \<and> is_floor_sqrt (2000 * 8000) 4000
   \<and> (\<exists>p' l'. MockPair_mint (call_at 7 100) 40 7 ex_pair (ex_pair_ledger 2000 8000)
                  = Inr (3000, p', l')
          \<and> totalSupply l' 40 = 4000 \<and> balanceOf l' 40 1 = 1000 \<and> balanceOf l' 40 7 = 3000
          \<and> reserve0 p' = 2000 \<and> reserve1 p' = 8000)
   \<and> is_floor_sqrt (500 * 2000) 1000
   \<and> (\<exists>e. MockPair_mint (call_at 7 100) 40 7 ex_pair (ex_pair_ledger 500 2000) = Inl e)
   \<and> (\<exists>amounts p' l'.
         MockPair_burn (call_at 7 200) 40 7 ex_pair_funded ex_pair_ledger_minted
           = Inr (amounts, p', l')
       \<and> 1000 \<le> balanceOf l' 40 1)
   \<and> (\<exists>l'. ERC20_transfer 40 7 8 500 ex_pair_ledger_minted = Inr l'
         \<and> 1000 \<le> balanceOf l' 40 1)
   \<and> (\<exists>l'. ERC20_transferFrom 40 9 7 8 500 ex_pair_ledger_minted = Inr l'
         \<and> 1000 \<le> balanceOf l' 40 1)"
proof -
  have f: "is_floor_sqrt (2000 * 8000) 4000" "is_floor_sqrt (500 * 2000) 1000"
    by (simp_all add: is_floor_sqrt_def)
  have bounds: "(2000::nat) * 8000 \<le> MAX_UINT256" "(2000::nat) \<le> MAX_UINT112"
    "(8000::nat) \<le> MAX_UINT112" "MINIMUM_LIQUIDITY < 4000" "(1000::nat) \<le> MINIMUM_LIQUIDITY"
    "4000 - MINIMUM_LIQUIDITY = 3000"
    by (simp_all add: MAX_UINT256_def MAX_UINT112_def MINIMUM_LIQUIDITY_def)
  note big = C7_first_deposit_mints_root_less_minimum_liquidity
    [of "ex_pair_ledger 2000 8000" 40 "call_at 7 100" 7 ex_pair,
      THEN conjunct2, THEN conjunct1, THEN mp, OF ex_pair_facts(1)]
  note small = C7_first_deposit_mints_root_less_minimum_liquidity
    [of "ex_pair_ledger 500 2000" 40 "call_at 7 100" 7 ex_pair,
      THEN conjunct2, THEN conjunct1, THEN mp, OF ex_pair_facts(1)]
  note lock = C7_first_deposit_mints_root_less_minimum_liquidity
    [of ex_pair_ledger_minted 40 "call_at 7 200" 8 ex_pair_funded,
      THEN conjunct2, THEN conjunct2, THEN conjunct2]
  note lock_burn = C7_first_deposit_mints_root_less_minimum_liquidity
    [of ex_pair_ledger_minted 40 "call_at 7 200" 7 ex_pair_funded,
      THEN conjunct2, THEN conjunct2, THEN conjunct2, THEN conjunct1, rule_format]
  have "\<exists>p' l'. MockPair_mint (call_at 7 100) 40 7 ex_pair (ex_pair_ledger 2000 8000)
      = Inr (4000 - MINIMUM_LIQUIDITY, p', l')"
    using f(1) bounds
    by (intro big [THEN conjunct2, THEN conjunct2, rule_format, of 4000])
      (simp add: ex_pair_facts)
  then obtain p' l' where
    m: "MockPair_mint (call_at 7 100) 40 7 ex_pair (ex_pair_ledger 2000 8000) = Inr (3000, p', l')"
    unfolding bounds(6) by blast
  from big [THEN conjunct1, rule_format, OF m]
  have "totalSupply l' 40 = 4000 \<and> balanceOf l' 40 1 = 1000 \<and> balanceOf l' 40 7 = 3000
          \<and> reserve0 p' = 2000 \<and> reserve1 p' = 8000"
    by (simp add: ex_pair_facts MINIMUM_LIQUIDITY_def)
  with m have one: "\<exists>p' l'. MockPair_mint (call_at 7 100) 40 7 ex_pair (ex_pair_ledger 2000 8000)
                  = Inr (3000, p', l')
          \<and> totalSupply l' 40 = 4000 \<and> balanceOf l' 40 1 = 1000 \<and> balanceOf l' 40 7 = 3000
          \<and> reserve0 p' = 2000 \<and> reserve1 p' = 8000"
    by blast
  have two: "\<exists>e. MockPair_mint (call_at 7 100) 40 7 ex_pair (ex_pair_ledger 500 2000) = Inl e"
    using f(2) bounds(5)
    by (intro small [THEN conjunct2, THEN conjunct1, rule_format, of 1000])
      (simp add: ex_pair_facts)
  have three: "\<exists>amounts p' l'.
         MockPair_burn (call_at 7 200) 40 7 ex_pair_funded ex_pair_ledger_minted
           = Inr (amounts, p', l')
       \<and> 1000 \<le> balanceOf l' 40 1"
    using ex_pair_minted_facts(1) lock_burn ex_pair_minted_facts(4) by fastforce
  have four: "\<exists>l'. ERC20_transfer 40 7 8 500 ex_pair_ledger_minted = Inr l'
         \<and> 1000 \<le> balanceOf l' 40 1"
    using ex_pair_minted_facts(2) lock [THEN conjunct2, THEN conjunct1, rule_format, of 7 500]
      ex_pair_minted_facts(4) by fastforce
  have five: "\<exists>l'. ERC20_transferFrom 40 9 7 8 500 ex_pair_ledger_minted = Inr l'
         \<and> 1000 \<le> balanceOf l' 40 1"
    using ex_pair_minted_facts(3) lock [THEN conjunct2, THEN conjunct2, rule_format, of 7 9 500]
      ex_pair_minted_facts(4) by fastforce
  from ex_pair_facts(1) f one two three four five show ?thesis by blast
qed

end
